(* ===== verification/Prelude.thy ===== *)
theory Prelude
  imports Main "HOL-Library.Word" "HOL-Library.Multiset"
begin

text \<open>
  Shared vocabulary of the development: the fixed-width integers of the C++ sources, the
  named fact collections the component theories fill, and generic lemmas on words, lists,
  maps and decimal numerals that several components use.

  The collections are
  \<^item> \<open>model_defs\<close>: equations that unfold the model on concrete data, used to evaluate
    witnesses inside the kernel;
  \<^item> \<open>frame_simps\<close>: what an operation leaves unchanged;
  \<^item> \<open>word_nat\<close>: the translation of word comparisons and operations to \<open>nat\<close>.
\<close>

unbundle bit_operations_syntax

named_theorems model_defs "equations that evaluate the model on concrete data"
named_theorems frame_simps "state components that an operation leaves unchanged"
named_theorems word_nat "unsigned words read as natural numbers"

section \<open>Machine integers\<close>

type_synonym u8 = "8 word"
type_synonym u16 = "16 word"
type_synonym u32 = "32 word"
type_synonym u64 = "64 word"

text \<open>\<open>std::size_t\<close> on the 64-bit targets the build supports.\<close>

type_synonym size_t = "64 word"

lemmas [word_nat] = word_le_nat_alt word_less_nat_alt

lemma unat_max_u64: "unat (- 1 :: u64) = 2 ^ 64 - 1"
  by (simp add: unsigned_minus_1_eq_mask mask_eq_exp_minus_1)

lemma unat_max_u32: "unat (- 1 :: u32) = 2 ^ 32 - 1"
  by (simp add: unsigned_minus_1_eq_mask mask_eq_exp_minus_1)

lemma unat_u64_bound: "unat (a :: u64) < 2 ^ 64"
  using unsigned_less [of a] by simp

lemma unat_u32_le_u64: "unat (ucast (a :: u32) :: u64) = unat a"
proof -
  have "unat a < 2 ^ 64"
    using unsigned_less [of a, where ?'a = nat] by simp
  then show ?thesis by (simp add: unsigned_ucast_eq take_bit_nat_eq_self)
qed

lemma unat_minus_le: "b \<le> a \<Longrightarrow> unat (a - b) = unat a - unat (b :: 'a::len word)"
  by (simp add: unat_sub)

lemma unat_add_exact:
  fixes a b :: u64
  shows "unat a + unat b < 2 ^ 64 \<Longrightarrow> unat (a + b) = unat a + unat b"
  by (simp add: unat_add_lem [THEN iffD1])

lemma unat_mult_exact:
  fixes a b :: u64
  shows "unat a * unat b < 2 ^ 64 \<Longrightarrow> unat (a * b) = unat a * unat b"
  by (simp add: unat_mult_lem [THEN iffD1])

lemma unat_of_nat_len: "n < 2 ^ LENGTH('a) \<Longrightarrow> unat (of_nat n :: 'a::len word) = n"
  by (simp add: unsigned_of_nat take_bit_nat_eq_self)

lemma unat_of_nat_u64: "n < 2 ^ 64 \<Longrightarrow> unat (of_nat n :: u64) = n"
  by (simp add: unsigned_of_nat take_bit_nat_eq_self)

section \<open>Lists\<close>

lemma find_Some_mem: "find P xs = Some x \<Longrightarrow> x \<in> set xs \<and> P x"
  by (induction xs) (auto split: if_splits)

lemma find_None_all: "find P xs = None \<longleftrightarrow> (\<forall>x \<in> set xs. \<not> P x)"
  by (induction xs) auto

lemma find_key_unique:
  "distinct (map f xs) \<Longrightarrow> x \<in> set xs \<Longrightarrow> find (\<lambda>y. f y = f x) xs = Some x"
  by (induction xs) (auto simp: rev_image_eqI)

lemma distinct_map_eqD:
  "distinct (map f xs) \<Longrightarrow> x \<in> set xs \<Longrightarrow> y \<in> set xs \<Longrightarrow> f x = f y \<Longrightarrow> x = y"
  by (simp add: distinct_map inj_on_def)

text \<open>
  When the keys are distinct every sorted permutation is the same list, whichever algorithm
  produced it; this is what makes the result of \<open>std::sort\<close> well defined here.
\<close>

lemma sorted_key_perm_unique:
  assumes keys: "distinct (map f xs)" and perm: "mset ys = mset xs" and sorted: "sorted (map f ys)"
  shows "ys = sort_key f xs"
proof (rule sym, rule properties_for_sort_key)
  show "mset ys = mset xs" by (rule perm)
  show "sorted (map f ys)" by (rule sorted)
next
  fix y assume y: "y \<in> set ys"
  have set_eq: "set ys = set xs" using perm by (metis set_mset_mset)
  have keys_ys: "distinct (map f ys)"
    using keys perm by (metis distinct_map mset_eq_imp_distinct_iff set_eq)
  have one: "filter (\<lambda>x. f y = f x) zs = [y]" if "distinct (map f zs)" "y \<in> set zs" for zs
    using that by (induction zs) (auto simp: filter_empty_conv image_iff)
  show "filter (\<lambda>x. f y = f x) ys = filter (\<lambda>x. f y = f x) xs"
    using one [OF keys_ys y] one [OF keys] y set_eq by simp
qed

lemma replicate_numeral [model_defs]:
  "replicate (numeral k) x = x # replicate (pred_numeral k) x"
  by (simp add: numeral_eq_Suc)

section \<open>Maps with default-inserting lookup\<close>

text \<open>
  \<open>std::map::operator[]\<close> returns the mapped value and inserts a value-initialised one first
  when the key is absent. \<open>map_index d m k\<close> is the pair of the value and the map afterwards.
\<close>

definition map_index :: "'v \<Rightarrow> ('k \<rightharpoonup> 'v) \<Rightarrow> 'k \<Rightarrow> 'v \<times> ('k \<rightharpoonup> 'v)" where
  [model_defs]: "map_index d m k = (case m k of None \<Rightarrow> (d, m(k \<mapsto> d)) | Some v \<Rightarrow> (v, m))"

lemma map_index_present [simp]: "m k = Some v \<Longrightarrow> map_index d m k = (v, m)"
  by (simp add: map_index_def)

lemma map_index_absent [simp]: "m k = None \<Longrightarrow> map_index d m k = (d, m(k \<mapsto> d))"
  by (simp add: map_index_def)

lemma map_of_map_None: "k \<notin> key ` set rs \<Longrightarrow> map_of (map (\<lambda>r. (key r, v r)) rs) k = None"
  by (induction rs) auto

section \<open>C strings and decimal numerals\<close>

text \<open>
  A \<open>std::string\<close> is a \<open>string\<close>, a list of bytes. A C function that is handed
  \<open>text.c_str()\<close> sees the bytes up to the first NUL.
\<close>

definition c_str :: "string \<Rightarrow> string" where
  [model_defs]: "c_str s = takeWhile (\<lambda>c. c \<noteq> CHR 0x00) s"

lemma c_str_id: "CHR 0x00 \<notin> set s \<Longrightarrow> c_str s = s"
  by (auto simp: c_str_def takeWhile_eq_all_conv)

definition digit_char :: "nat \<Rightarrow> char" where
  [model_defs]: "digit_char d = char_of (48 + d)"

lemma digit_chars [model_defs]:
  "char_of (48 :: nat) = CHR ''0''" "char_of (49 :: nat) = CHR ''1''" "char_of (50 :: nat) = CHR ''2''"
  "char_of (51 :: nat) = CHR ''3''" "char_of (52 :: nat) = CHR ''4''" "char_of (53 :: nat) = CHR ''5''"
  "char_of (54 :: nat) = CHR ''6''" "char_of (55 :: nat) = CHR ''7''" "char_of (56 :: nat) = CHR ''8''"
  "char_of (57 :: nat) = CHR ''9''"
  by (simp_all add: char_of_def bit_0)

definition is_digit :: "char \<Rightarrow> bool" where
  [model_defs]: "is_digit c \<longleftrightarrow> 48 \<le> (of_char c :: nat) \<and> (of_char c :: nat) \<le> 57"

definition digit_value :: "char \<Rightarrow> nat" where
  [model_defs]: "digit_value c = of_char c - 48"

text \<open>What \<open>operator<<\<close> writes for an unsigned integer: decimal, no leading zeros.\<close>

fun decimal :: "nat \<Rightarrow> string" where
  "decimal n =
     (if 10 \<le> n then decimal (n div 10) @ [digit_char (n mod 10)] else [digit_char n])"

declare decimal.simps [simp del, model_defs]

text \<open>The value of a run of digits, most significant first.\<close>

definition digits_value :: "string \<Rightarrow> nat" where
  [model_defs]: "digits_value ds = foldl (\<lambda>v c. 10 * v + digit_value c) 0 ds"

lemma of_char_digit_char: "d < 10 \<Longrightarrow> (of_char (digit_char d) :: nat) = 48 + d"
  by (simp add: digit_char_def of_char_of)

lemma is_digit_digit_char: "d < 10 \<Longrightarrow> is_digit (digit_char d)"
  by (simp add: is_digit_def of_char_digit_char)

lemma digit_value_digit_char: "d < 10 \<Longrightarrow> digit_value (digit_char d) = d"
  by (simp add: digit_value_def of_char_digit_char)

lemma decimal_nonempty [simp]: "decimal n \<noteq> []"
  by (subst decimal.simps) simp

lemma decimal_all_digits: "c \<in> set (decimal n) \<Longrightarrow> is_digit c"
proof (induction n rule: decimal.induct)
  case (1 n)
  then show ?case
    by (cases "10 \<le> n") (auto simp: decimal.simps [of n] is_digit_digit_char)
qed

lemma digits_value_decimal [simp]: "digits_value (decimal n) = n"
proof (induction n rule: decimal.induct)
  case (1 n)
  then show ?case
    by (cases "10 \<le> n")
      (auto simp: decimal.simps [of n] digits_value_def digit_value_digit_char)
qed

lemma decimal_inj [simp]: "decimal m = decimal n \<longleftrightarrow> m = n"
  by (metis digits_value_decimal)

text \<open>A run of digits is delimited by the first character that is not a digit.\<close>

lemma digits_prefix_unique:
  assumes "xs @ c # r = ys @ d # s" "\<forall>x \<in> set xs. P x" "\<forall>y \<in> set ys. P y" "\<not> P c" "\<not> P d"
  shows "xs = ys \<and> c = d \<and> r = s"
proof -
  have "takeWhile P (xs @ c # r) = xs" "takeWhile P (ys @ d # s) = ys"
    using assms(2-5) by (simp_all add: takeWhile_append)
  then have "xs = ys" using assms(1) by simp
  then show ?thesis using assms(1) by simp
qed

lemma digits_suffix_unique:
  assumes "r @ c # xs = s @ d # ys" "\<forall>x \<in> set xs. P x" "\<forall>y \<in> set ys. P y" "\<not> P c" "\<not> P d"
  shows "r = s \<and> c = d \<and> xs = ys"
proof -
  have "rev xs @ c # rev r = rev ys @ d # rev s"
    using arg_cong [OF assms(1), of rev] by simp
  then have "rev xs = rev ys \<and> c = d \<and> rev r = rev s"
    using assms(2-5) by (intro digits_prefix_unique [where P = P]) auto
  then show ?thesis by simp
qed

end
