(* ===== verification/Core_Types.thy ===== *)
theory Core_Types
  imports Prelude
begin

text \<open>
  \<open>include/upf/domain/types.hpp\<close>: results, checked arithmetic, identifiers, enumerations
  and capacity limits.

  \<open>Optional<T>\<close> is \<open>'a option\<close>; every use of \<open>value()\<close> in the sources stands behind a
  \<open>hasValue()\<close> test and becomes a \<open>case\<close>. \<open>Result<T>\<close> is \<open>string + 'a\<close>: \<open>Inl\<close> carries the
  error text, \<open>Inr\<close> the value; \<open>Result<void>\<close> is \<open>string + unit\<close>.
\<close>

type_synonym 'a result_of = "string + 'a"

abbreviation failure :: "string \<Rightarrow> 'a result_of" where "failure \<equiv> Inl"
abbreviation success :: "'a \<Rightarrow> 'a result_of" where "success \<equiv> Inr"
abbreviation ok :: "'a result_of \<Rightarrow> bool" where "ok r \<equiv> \<not> isl r"

section \<open>Checked arithmetic\<close>

text \<open>
  The out-parameter is written only when the function returns true, so the pair of the
  boolean and the parameter is an option.
\<close>

definition checkedAdd :: "u64 \<Rightarrow> u64 \<Rightarrow> u64 option" where
  [model_defs]: "checkedAdd a b = (if b > - 1 - a then None else Some (a + b))"

definition checkedMultiply :: "u64 \<Rightarrow> u64 \<Rightarrow> u64 option" where
  [model_defs]: "checkedMultiply a b =
     (if a \<noteq> 0 \<and> b > - 1 div a then None else Some (a * b))"

lemma checkedAdd_guard: "b > - 1 - a \<longleftrightarrow> 2 ^ 64 \<le> unat a + unat (b :: u64)"
proof -
  have "unat (- 1 - a) = 2 ^ 64 - 1 - unat a"
    using unat_minus_le [of a "- 1"] by (simp only: unat_max_u64 word_n1_ge)
  then show ?thesis using unat_u64_bound [of a] by (auto simp: word_nat)
qed

lemma checkedMultiply_guard:
  "a \<noteq> 0 \<and> b > - 1 div a \<longleftrightarrow> 2 ^ 64 \<le> unat a * unat (b :: u64)"
proof (cases "a = 0")
  case False
  then have pos: "0 < unat a" by (simp add: unat_gt_0)
  have "b > - 1 div a \<longleftrightarrow> (2 ^ 64 - 1) div unat a < unat b"
    by (simp only: word_less_nat_alt unat_div unat_max_u64)
  also have "\<dots> \<longleftrightarrow> 2 ^ 64 - 1 < unat b * unat a"
    using pos by (simp only: div_less_iff_less_mult)
  also have "\<dots> \<longleftrightarrow> 2 ^ 64 \<le> unat a * unat b"
    by (auto simp: mult.commute)
  finally show ?thesis using False by simp
qed simp

lemma checkedAdd_None: "checkedAdd a b = None \<longleftrightarrow> 2 ^ 64 \<le> unat a + unat b"
  unfolding checkedAdd_def checkedAdd_guard by simp

lemma checkedMultiply_None: "checkedMultiply a b = None \<longleftrightarrow> 2 ^ 64 \<le> unat a * unat b"
  unfolding checkedMultiply_def checkedMultiply_guard by simp

lemma checkedAdd_Some: "checkedAdd a b = Some c \<longleftrightarrow> unat c = unat a + unat b"
proof -
  have "checkedAdd a b = Some c \<longleftrightarrow> unat a + unat b < 2 ^ 64 \<and> c = a + b"
    unfolding checkedAdd_def checkedAdd_guard by auto
  then show ?thesis
    using unat_add_exact [of a b] unat_u64_bound [of c] by (metis word_unat_eq_iff)
qed

lemma checkedMultiply_Some: "checkedMultiply a b = Some c \<longleftrightarrow> unat c = unat a * unat b"
proof -
  have "checkedMultiply a b = Some c \<longleftrightarrow> unat a * unat b < 2 ^ 64 \<and> c = a * b"
    unfolding checkedMultiply_def checkedMultiply_guard by auto
  then show ?thesis
    using unat_mult_exact [of a b] unat_u64_bound [of c] by (metis word_unat_eq_iff)
qed

lemma checkedAdd_cases:
  obtains (overflow) "checkedAdd a b = None" "2 ^ 64 \<le> unat a + unat b"
  | (fits) c where "checkedAdd a b = Some c" "unat c = unat a + unat b" "unat a + unat b < 2 ^ 64"
proof (cases "checkedAdd a b")
  case (Some c)
  then have "unat c = unat a + unat b" by (simp add: checkedAdd_Some)
  with Some show ?thesis using that(2) unat_u64_bound [of c] by simp
qed (use that(1) checkedAdd_None in simp)

section \<open>Identifiers\<close>

text \<open>
  \<open>struct RuleId\<close> with its \<open>operator==\<close> and \<open>operator<\<close>; \<open>PdrId\<close>, \<open>FarId\<close>, \<open>QerId\<close> and
  \<open>UrrId\<close> are synonyms of it in the sources as well.
\<close>

datatype RuleId = RuleId (id_value: u32)

type_synonym PdrId = RuleId
type_synonym FarId = RuleId
type_synonym QerId = RuleId
type_synonym UrrId = RuleId

definition RuleId_valid :: "RuleId \<Rightarrow> bool" where
  [model_defs]: "RuleId_valid i \<longleftrightarrow> id_value i \<noteq> 0"

definition RuleId_less :: "RuleId \<Rightarrow> RuleId \<Rightarrow> bool" where
  [model_defs]: "RuleId_less a b \<longleftrightarrow> id_value a < id_value b"

instantiation RuleId :: linorder
begin

definition less_RuleId :: "RuleId \<Rightarrow> RuleId \<Rightarrow> bool" where
  "less_RuleId = RuleId_less"

definition less_eq_RuleId :: "RuleId \<Rightarrow> RuleId \<Rightarrow> bool" where
  "less_eq_RuleId a b \<longleftrightarrow> id_value a \<le> id_value b"

instance
  by standard (auto simp: less_RuleId_def RuleId_less_def less_eq_RuleId_def RuleId.expand)

end

section \<open>Enumerations\<close>

datatype Interface = N3 | N6
datatype TransportProtocol = TCP | UDP | ICMP | ICMPV6
datatype GateStatus = OPEN | CLOSED
datatype FarAction = FORWARD | DROP
datatype TunnelOperation = TUNNEL_NONE | ADD | REMOVE
datatype AdapterOutcome = SUCCESS | DELAYED_SUCCESS | TRANSIENT_FAILURE | PERMANENT_FAILURE
datatype ConvergenceStatus = EMPTY | CONVERGED | DIVERGENT

section \<open>Capacity limits\<close>

record CapacityLimits =
  lim_controlQueue :: size_t
  lim_packetQueue :: size_t
  lim_reconciliationQueue :: size_t
  lim_reports :: size_t
  lim_results :: size_t
  lim_events :: size_t
  lim_sinkPackets :: size_t
  lim_sessions :: size_t
  lim_rulesPerType :: size_t

definition CapacityLimits_new :: "size_t \<Rightarrow> size_t \<Rightarrow> size_t \<Rightarrow> CapacityLimits" where
  [model_defs]: "CapacityLimits_new control packet reconciliation =
     \<lparr>lim_controlQueue = control, lim_packetQueue = packet,
      lim_reconciliationQueue = reconciliation, lim_reports = 1024, lim_results = 2048,
      lim_events = 8192, lim_sinkPackets = 2048, lim_sessions = 16, lim_rulesPerType = 256\<rparr>"

definition CapacityLimits_default :: CapacityLimits where
  [model_defs]: "CapacityLimits_default = CapacityLimits_new 128 1024 128"

section \<open>Outcomes of whole runs\<close>

text \<open>
  What a call of a top-level function may end in: a value, an exception that leaves the function,
  undefined behaviour, or no end at all.
\<close>

datatype 'a outcome = Returns 'a | Throws string | Undefined_Behaviour | Runs_Forever

fun and_then :: "'a outcome \<Rightarrow> ('a \<Rightarrow> 'b outcome) \<Rightarrow> 'b outcome" where
  "and_then (Returns x) f = f x"
| "and_then (Throws e) f = Throws e"
| "and_then Undefined_Behaviour f = Undefined_Behaviour"
| "and_then Runs_Forever f = Runs_Forever"

text \<open>\<open>value()\<close> of a failed result throws its message.\<close>

definition value_of :: "'a result_of \<Rightarrow> 'a outcome" where
  [model_defs]: "value_of r = (case r of Inl e \<Rightarrow> Throws e | Inr x \<Rightarrow> Returns x)"

lemma value_of_simps [simp]: "value_of (success x) = Returns x" "value_of (failure e) = Throws e"
  by (simp_all add: value_of_def)

text \<open>A chain of steps returns exactly when each step does.\<close>

named_theorems returns_iff "when a chain of steps returns a value"

lemma and_then_returns [returns_iff]:
  "and_then m f = Returns y \<longleftrightarrow> (\<exists>x. m = Returns x \<and> f x = Returns y)"
  by (cases m) auto

lemma value_of_returns [returns_iff]: "value_of r = Returns x \<longleftrightarrow> r = success x"
  by (cases r) (auto simp: value_of_def)

end
