(* ===== verification/Addresses.thy ===== *)
theory Addresses
  imports Core_Types
begin

text \<open>
  \<open>include/upf/domain/address.hpp\<close> and \<open>src/domain/address.cpp\<close>: IP addresses, prefixes
  and port ranges.

  \<open>inet_pton\<close> and \<open>inet_ntop\<close> belong to the platform, not to the repository, so they are
  the fields of a parameter record. \<open>inet_pton pl f s = Some bs\<close> says that the call returned
  1 and wrote \<open>bs\<close> to the front of the buffer; \<open>inet_ntop pl f bs = Some s\<close> that it
  returned the buffer holding \<open>s\<close>. What the proofs need of them is the documented size of
  the written address, \<open>pton_sizes\<close>. \<open>strtol\<close> is standard C and is written out for base 10
  and the 64-bit \<open>long\<close> of LP64 targets.

  The main results: \<open>contains\<close> compares exactly the leading bits of the two addresses
  (\<open>contains_iff_bits\<close>), two prefixes that share an address are nested
  (\<open>contains_nested\<close>), and parsing yields well-formed prefixes and inverts printing.
\<close>

section \<open>Addresses\<close>

datatype AddressFamily = IPV4 | IPV6

record platform =
  inet_pton :: "AddressFamily \<Rightarrow> string \<Rightarrow> u8 list option"
  inet_ntop :: "AddressFamily \<Rightarrow> u8 list \<Rightarrow> string option"

record IpAddress =
  family :: AddressFamily
  bytes :: "u8 list"

definition IpAddress_new :: IpAddress where
  [model_defs]: "IpAddress_new = \<lparr>family = IPV4, bytes = replicate 16 0\<rparr>"

text \<open>\<open>inet_pton\<close> writes its result over the first bytes of the buffer it is given.\<close>

definition overwrite :: "'a list \<Rightarrow> 'a list \<Rightarrow> 'a list" where
  [model_defs]: "overwrite bs buffer = bs @ drop (length bs) buffer"

definition IpAddress_parse :: "platform \<Rightarrow> string \<Rightarrow> IpAddress result_of" where
  [model_defs]: "IpAddress_parse pl text =
     (let address = IpAddress_new in
      case inet_pton pl IPV4 (c_str text) of
        Some bs \<Rightarrow>
          success (address\<lparr>bytes := overwrite bs (bytes address), family := IPV4\<rparr>)
      | None \<Rightarrow>
          (let address = address\<lparr>bytes := replicate 16 0\<rparr> in
           case inet_pton pl IPV6 (c_str text) of
             Some bs \<Rightarrow>
               success (address\<lparr>bytes := overwrite bs (bytes address), family := IPV6\<rparr>)
           | None \<Rightarrow> failure ''invalid IP address''))"

definition IpAddress_toString :: "platform \<Rightarrow> IpAddress \<Rightarrow> string" where
  [model_defs]: "IpAddress_toString pl a =
     (case inet_ntop pl (family a) (bytes a) of None \<Rightarrow> '''' | Some buffer \<Rightarrow> buffer)"

definition IpAddress_eq :: "IpAddress \<Rightarrow> IpAddress \<Rightarrow> bool" where
  [model_defs]: "IpAddress_eq a b =
     (if family a \<noteq> family b then False
      else let size = (if family a = IPV4 then 4 else 16)
           in take size (bytes a) = take size (bytes b))"

section \<open>The C library's strtol\<close>

definition is_space :: "char \<Rightarrow> bool" where
  [model_defs]: "is_space c \<longleftrightarrow> c = CHR '' '' \<or> (of_char c :: nat) \<in> {9, 10, 11, 12, 13}"

text \<open>The value and the unread rest (\<open>*end\<close> onwards); without digits nothing is read.\<close>

definition strtol10 :: "string \<Rightarrow> int \<times> string" where
  [model_defs]: "strtol10 s =
     (let t = dropWhile is_space s;
          negative = (t \<noteq> [] \<and> hd t = CHR ''-'');
          u = (if t \<noteq> [] \<and> (hd t = CHR ''-'' \<or> hd t = CHR ''+'') then tl t else t);
          ds = takeWhile is_digit u;
          v = (if negative then - int (digits_value ds) else int (digits_value ds))
      in if ds = [] then (0, s)
         else (max (- (2 ^ 63)) (min (2 ^ 63 - 1) v), dropWhile is_digit u))"

text \<open>\<open>std::string::find\<close> for a character.\<close>

definition string_find :: "char \<Rightarrow> string \<Rightarrow> nat option" where
  [model_defs]: "string_find c s =
     (if c \<in> set s then Some (length (takeWhile (\<lambda>x. x \<noteq> c) s)) else None)"

section \<open>Prefixes\<close>

record IpPrefix =
  network :: IpAddress
  prefix_length :: u8

definition IpPrefix_new :: IpPrefix where
  [model_defs]: "IpPrefix_new = \<lparr>network = IpAddress_new, prefix_length = 0\<rparr>"

text \<open>The loop over the bits after the prefix.\<close>

definition has_host_bits :: "u8 list \<Rightarrow> nat \<Rightarrow> nat \<Rightarrow> bool" where
  [model_defs]: "has_host_bits bs len maximum =
     list_ex (\<lambda>bit. (bs ! (bit div 8)) AND drop_bit (bit mod 8) 0x80 \<noteq> 0) [len..<maximum]"

definition IpPrefix_parse :: "platform \<Rightarrow> string \<Rightarrow> IpPrefix result_of" where
  [model_defs]: "IpPrefix_parse pl text =
     (case string_find (CHR ''/'') text of
        None \<Rightarrow> failure ''prefix length missing''
      | Some slash \<Rightarrow>
          (case IpAddress_parse pl (take slash text) of
             Inl e \<Rightarrow> failure e
           | Inr parsed \<Rightarrow>
               (let (length_value, end) = strtol10 (c_str (drop (slash + 1) text));
                    maximum = (if family parsed = IPV4 then 32 else 128)
                in if end \<noteq> [] \<or> length_value < 0 \<or> length_value > int maximum
                   then failure ''invalid prefix length''
                   else if has_host_bits (bytes parsed) (nat length_value) maximum
                   then failure ''prefix contains host bits''
                   else success \<lparr>network = parsed, prefix_length = of_int length_value\<rparr>)))"

definition IpPrefix_contains :: "IpPrefix \<Rightarrow> IpAddress \<Rightarrow> bool" where
  [model_defs]: "IpPrefix_contains p a =
     (if family (network p) \<noteq> family a then False
      else let left = bytes (network p); right = bytes a;
               whole = unat (prefix_length p) div 8;
               rest = unat (prefix_length p) mod 8
           in if take whole left \<noteq> take whole right then False
              else if rest = 0 then True
              else let mask = push_bit (8 - rest) (0xFF :: u8)
                   in (left ! whole) AND mask = (right ! whole) AND mask)"

section \<open>Port ranges\<close>

record PortRange =
  port_first :: u16
  port_last :: u16

definition PortRange_valid :: "PortRange \<Rightarrow> bool" where
  [model_defs]: "PortRange_valid r \<longleftrightarrow> port_first r \<le> port_last r"

definition PortRange_contains :: "PortRange \<Rightarrow> u16 \<Rightarrow> bool" where
  [model_defs]: "PortRange_contains r port \<longleftrightarrow>
     PortRange_valid r \<and> port \<ge> port_first r \<and> port \<le> port_last r"

section \<open>Well-formedness\<close>

definition pton_sizes :: "platform \<Rightarrow> bool" where
  "pton_sizes pl \<longleftrightarrow>
     (\<forall>s bs. inet_pton pl IPV4 s = Some bs \<longrightarrow> length bs = 4) \<and>
     (\<forall>s bs. inet_pton pl IPV6 s = Some bs \<longrightarrow> length bs = 16)"

definition IpAddress_wf :: "IpAddress \<Rightarrow> bool" where
  [model_defs]: "IpAddress_wf a \<longleftrightarrow> length (bytes a) = 16"

definition family_bits :: "AddressFamily \<Rightarrow> nat" where
  [model_defs]: "family_bits f = (if f = IPV4 then 32 else 128)"

text \<open>Bit \<open>i\<close> of an address, counted from the most significant bit of the first byte.\<close>

definition addr_bit :: "u8 list \<Rightarrow> nat \<Rightarrow> bool" where
  "addr_bit bs i = bit (bs ! (i div 8)) (7 - i mod 8)"

definition IpPrefix_wf :: "IpPrefix \<Rightarrow> bool" where
  "IpPrefix_wf p \<longleftrightarrow> IpAddress_wf (network p) \<and>
     unat (prefix_length p) \<le> family_bits (family (network p)) \<and>
     (\<forall>i \<in> {unat (prefix_length p)..<family_bits (family (network p))}.
        \<not> addr_bit (bytes (network p)) i)"

lemma family_bits_le: "family_bits f \<le> 128"
  by (simp add: family_bits_def)

lemma IpPrefix_wfD:
  assumes "IpPrefix_wf p"
  shows "IpAddress_wf (network p)" "unat (prefix_length p) \<le> 128"
  using assms family_bits_le [of "family (network p)"] by (auto simp: IpPrefix_wf_def)

lemma IpAddress_parse_wf:
  assumes "pton_sizes pl" "IpAddress_parse pl text = success a"
  shows "IpAddress_wf a"
  using assms
  by (auto simp: IpAddress_parse_def pton_sizes_def IpAddress_wf_def IpAddress_new_def
      overwrite_def Let_def split: option.splits)

section \<open>The byte and mask code reads leading bits\<close>

lemma u8_bit_cases: "(\<And>k. k < 8 \<Longrightarrow> P k) \<Longrightarrow> n < 8 \<Longrightarrow> P (n :: nat)"
  by blast

lemma drop_bit_0x80:
  assumes "k < 8"
  shows "drop_bit k (0x80 :: u8) = 2 ^ (7 - k)"
proof -
  have "k \<in> {0, 1, 2, 3, 4, 5, 6, 7}" using assms by auto
  then show ?thesis by auto
qed

lemma host_bit_test: "k < 8 \<Longrightarrow> (x :: u8) AND drop_bit k 0x80 \<noteq> 0 \<longleftrightarrow> bit x (7 - k)"
  by (simp add: drop_bit_0x80 and_exp_eq_0_iff_not_bit)

lemma has_host_bits_iff: "has_host_bits bs len maximum \<longleftrightarrow> (\<exists>i \<in> {len..<maximum}. addr_bit bs i)"
  by (auto simp: has_host_bits_def list_ex_iff host_bit_test addr_bit_def)

lemma masked_eq_iff:
  fixes x y :: u8
  assumes "r \<le> 8"
  shows "x AND push_bit (8 - r) 0xFF = y AND push_bit (8 - r) 0xFF \<longleftrightarrow>
    (\<forall>i < r. bit x (7 - i) = bit y (7 - i))"
proof -
  have ff: "(0xFF :: u8) = - 1" by simp
  have "x AND push_bit (8 - r) 0xFF = y AND push_bit (8 - r) 0xFF \<longleftrightarrow>
    (\<forall>j < 8. 8 - r \<le> j \<longrightarrow> bit x j = bit y j)"
    unfolding ff bit_eq_iff by (auto simp: bit_simps)
  also have "\<dots> \<longleftrightarrow> (\<forall>i < r. bit x (7 - i) = bit y (7 - i))"
  proof (rule iffI; intro allI impI)
    fix i assume "\<forall>j < 8. 8 - r \<le> j \<longrightarrow> bit x j = bit y j" "i < r"
    then show "bit x (7 - i) = bit y (7 - i)" using assms by simp
  next
    fix j :: nat
    assume h: "\<forall>i < r. bit x (7 - i) = bit y (7 - i)" "j < 8" "8 - r \<le> j"
    then have "7 - j < r" "7 - (7 - j) = j" using assms by auto
    then show "bit x j = bit y j" using h(1) by metis
  qed
  finally show ?thesis .
qed

lemma and_0xFF: "(x :: u8) AND 0xFF = x"
proof -
  have ff: "(0xFF :: u8) = - 1" by simp
  show ?thesis unfolding ff by (rule bit.conj_one_right)
qed

lemma byte_eq_iff: "(x :: u8) = y \<longleftrightarrow> (\<forall>i < 8. bit x (7 - i) = bit y (7 - i))"
  using masked_eq_iff [of 8 x y] by (simp add: and_0xFF)

lemma bytes_eq_iff:
  assumes "whole \<le> length xs" "whole \<le> length ys"
  shows "take whole xs = take whole ys \<longleftrightarrow> (\<forall>i < 8 * whole. addr_bit xs i = addr_bit ys i)"
proof -
  have "take whole xs = take whole ys \<longleftrightarrow> (\<forall>n < whole. xs ! n = ys ! n)"
    using assms by (auto simp: list_eq_iff_nth_eq)
  also have "\<dots> \<longleftrightarrow> (\<forall>n < whole. \<forall>k < 8. bit (xs ! n) (7 - k) = bit (ys ! n) (7 - k))"
    by (simp only: byte_eq_iff)
  also have "\<dots> \<longleftrightarrow> (\<forall>i < 8 * whole. addr_bit xs i = addr_bit ys i)"
  proof (rule iffI; intro allI impI)
    fix i assume h: "\<forall>n < whole. \<forall>k < 8. bit (xs ! n) (7 - k) = bit (ys ! n) (7 - k)" "i < 8 * whole"
    then have "i div 8 < whole" by auto
    then show "addr_bit xs i = addr_bit ys i" using h(1) by (simp add: addr_bit_def)
  next
    fix n k :: nat
    assume h: "\<forall>i < 8 * whole. addr_bit xs i = addr_bit ys i" "n < whole" "k < 8"
    then have "8 * n + k < 8 * whole" by auto
    with h(1) have "addr_bit xs (8 * n + k) = addr_bit ys (8 * n + k)" by blast
    then show "bit (xs ! n) (7 - k) = bit (ys ! n) (7 - k)" using h(3) by (simp add: addr_bit_def)
  qed
  finally show ?thesis .
qed

lemma leading_bits_split:
  "(\<forall>i < 8 * w + r. P i) \<longleftrightarrow> (\<forall>i < 8 * w. P i) \<and> (\<forall>i < (r :: nat). P (8 * w + i))"
proof -
  have "i < 8 * w \<or> (\<exists>k < r. i = 8 * w + k)" if "i < 8 * w + r" for i
    using that by (cases "i < 8 * w") (auto intro: exI [of _ "i - 8 * w"])
  then show ?thesis by (auto simp del: disj_not1)
qed

definition same_leading_bits :: "nat \<Rightarrow> u8 list \<Rightarrow> u8 list \<Rightarrow> bool" where
  "same_leading_bits n xs ys \<longleftrightarrow> (\<forall>i < n. addr_bit xs i = addr_bit ys i)"

lemma contains_iff_bits:
  assumes "IpAddress_wf (network p)" "IpAddress_wf a" "unat (prefix_length p) \<le> 128"
  shows "IpPrefix_contains p a \<longleftrightarrow> family (network p) = family a \<and>
    same_leading_bits (unat (prefix_length p)) (bytes (network p)) (bytes a)"
proof -
  define w where "w = unat (prefix_length p) div 8"
  define r where "r = unat (prefix_length p) mod 8"
  have len: "unat (prefix_length p) = 8 * w + r" and r: "r < 8" by (simp_all add: w_def r_def)
  have w: "w \<le> length (bytes (network p))" "w \<le> length (bytes a)"
    using assms by (auto simp: IpAddress_wf_def w_def)
  have tail: "(\<forall>i < r. addr_bit xs (8 * w + i) = addr_bit ys (8 * w + i)) \<longleftrightarrow>
      r = 0 \<or> (xs ! w) AND push_bit (8 - r) 0xFF = (ys ! w) AND push_bit (8 - r) 0xFF" for xs ys
    using r masked_eq_iff [of r "xs ! w" "ys ! w"] by (auto simp: addr_bit_def)
  show ?thesis
    unfolding same_leading_bits_def len leading_bits_split tail bytes_eq_iff [OF w, symmetric]
    by (auto simp: IpPrefix_contains_def Let_def w_def [symmetric] r_def [symmetric])
qed

lemma same_leading_bits_nested:
  "same_leading_bits m xs zs \<Longrightarrow> same_leading_bits n ys zs \<Longrightarrow> m \<le> n \<Longrightarrow> same_leading_bits m xs ys"
  by (auto simp: same_leading_bits_def)

lemma contains_nested:
  assumes wf: "IpPrefix_wf p" "IpPrefix_wf q" "IpAddress_wf a"
    and a: "IpPrefix_contains p a" "IpPrefix_contains q a"
  shows "IpPrefix_contains p (network q) \<or> IpPrefix_contains q (network p)"
proof -
  note wf' = IpPrefix_wfD [OF wf(1)] IpPrefix_wfD [OF wf(2)]
  have "unat (prefix_length p) \<le> unat (prefix_length q) \<or>
      unat (prefix_length q) \<le> unat (prefix_length p)" by linarith
  then show ?thesis
    using a wf' wf(3) by (auto simp: contains_iff_bits intro: same_leading_bits_nested)
qed

section \<open>Parsing\<close>

lemma is_digit_distinct:
  assumes "is_digit c"
  shows "\<not> is_space c" "c \<noteq> CHR ''-''" "c \<noteq> CHR ''+''" "c \<noteq> CHR ''/''" "c \<noteq> CHR 0x00"
    "c \<noteq> CHR '':''"
  using assms by (auto simp: is_digit_def is_space_def)

lemma string_find_append: "c \<notin> set s \<Longrightarrow> string_find c (s @ c # r) = Some (length s)"
  by (induction s) (auto simp: string_find_def)

lemma c_str_decimal [simp]: "c_str (decimal n) = decimal n"
  using decimal_all_digits is_digit_distinct(5) by (blast intro: c_str_id)

lemma strtol10_decimal:
  assumes "n < 2 ^ 63"
  shows "strtol10 (decimal n) = (int n, [])"
proof -
  obtain d ds where dec: "decimal n = d # ds" by (cases "decimal n") auto
  have d: "is_digit d" and all: "\<forall>c \<in> set (decimal n). is_digit c"
    using decimal_all_digits [of _ n] by (auto simp: dec)
  have skip: "dropWhile is_space (decimal n) = decimal n"
    using is_digit_distinct(1) [OF d] by (simp add: dec)
  have whole: "takeWhile is_digit (decimal n) = decimal n" "dropWhile is_digit (decimal n) = []"
    using all by simp_all
  have sign: "hd (decimal n) \<noteq> CHR ''-''" "hd (decimal n) \<noteq> CHR ''+''"
    using is_digit_distinct [OF d] by (simp_all add: dec)
  have "max (- (2 ^ 63)) (min (2 ^ 63 - 1) (int n)) = int n" using assms by simp
  then show ?thesis
    using sign by (simp only: strtol10_def skip whole Let_def digits_value_decimal
        decimal_nonempty simp_thms if_False)
qed

text \<open>With no digits at all \<open>strtol\<close> returns 0 and leaves \<open>end\<close> at the start.\<close>

lemma strtol10_empty: "strtol10 [] = (0, [])"
  by (simp add: strtol10_def)

text \<open>The parser after the address and the number have been read.\<close>

lemma IpPrefix_parse_parts:
  assumes "CHR ''/'' \<notin> set t" "IpAddress_parse pl t = success a" "strtol10 (c_str r) = (l, e)"
  shows "IpPrefix_parse pl (t @ CHR ''/'' # r) =
    (if e \<noteq> [] \<or> l < 0 \<or> l > int (family_bits (family a)) then failure ''invalid prefix length''
     else if \<exists>i \<in> {nat l..<family_bits (family a)}. addr_bit (bytes a) i
     then failure ''prefix contains host bits''
     else success \<lparr>network = a, prefix_length = of_int l\<rparr>)"
  using assms(2,3)
  by (simp add: IpPrefix_parse_def string_find_append [OF assms(1)] family_bits_def has_host_bits_iff)

lemma unat_of_int_u8: "0 \<le> l \<Longrightarrow> l \<le> 128 \<Longrightarrow> unat (of_int l :: u8) = nat l"
  by (simp add: unsigned_of_int take_bit_int_eq_self)

text \<open>
  Parsing a prefix yields a well-formed one: 16 bytes of network address, a length within
  the family's 32 or 128 bits and no bit set after the prefix.
\<close>

lemma IpPrefix_parse_wf:
  assumes "pton_sizes pl" "IpPrefix_parse pl text = success p"
  shows "IpPrefix_wf p"
proof -
  obtain slash a l e where a: "IpAddress_parse pl (take slash text) = success a"
    and l: "strtol10 (c_str (drop (slash + 1) text)) = (l, e)"
    and range: "0 \<le> l" "l \<le> int (family_bits (family a))"
    and host: "\<not> has_host_bits (bytes a) (nat l) (family_bits (family a))"
    and p: "p = \<lparr>network = a, prefix_length = of_int l\<rparr>"
    using assms(2)
    by (auto simp: IpPrefix_parse_def Let_def family_bits_def
        split: option.splits sum.splits prod.splits if_splits)
  have "unat (prefix_length p) = nat l"
    using range family_bits_le [of "family a"] by (simp add: p unat_of_int_u8)
  moreover have "IpAddress_wf a" by (rule IpAddress_parse_wf [OF assms(1) a])
  ultimately show ?thesis
    using range host by (auto simp: IpPrefix_wf_def p has_host_bits_iff)
qed

text \<open>
  C19. Writing a well-formed prefix as address, slash and decimal length and parsing the text
  returns the same prefix, for any platform whose address parser reads back that address.
\<close>

lemma IpPrefix_parse_print:
  assumes "IpPrefix_wf p" "CHR ''/'' \<notin> set t" "IpAddress_parse pl t = success (network p)"
  shows "IpPrefix_parse pl (t @ ''/'' @ decimal (unat (prefix_length p))) = success p"
proof -
  let ?n = "unat (prefix_length p)"
  have "strtol10 (c_str (decimal ?n)) = (int ?n, [])"
    using IpPrefix_wfD(2) [OF assms(1)] by (simp add: strtol10_decimal)
  moreover have "word_of_nat ?n = prefix_length p" by simp
  ultimately show ?thesis
    using IpPrefix_parse_parts [OF assms(2,3)] assms(1)
    by (auto simp: IpPrefix_wf_def simp del: of_nat_unat)
qed


section \<open>A platform for concrete runs\<close>

text \<open>
  A platform that knows IPv4 in dotted decimal and, as POSIX allows, reports IPv6 as an
  unsupported family. It only serves to run the model on concrete text.
\<close>

fun split_on :: "char \<Rightarrow> string \<Rightarrow> string list" where
  "split_on c [] = [[]]"
| "split_on c (x # xs) =
     (if x = c then [] # split_on c xs
      else case split_on c xs of [] \<Rightarrow> [[x]] | p # ps \<Rightarrow> (x # p) # ps)"

definition octet :: "string \<Rightarrow> bool" where
  [model_defs]: "octet s \<longleftrightarrow> s \<noteq> [] \<and> length s \<le> 3 \<and> list_all is_digit s \<and> digits_value s \<le> 255"

definition dotted_pton :: "AddressFamily \<Rightarrow> string \<Rightarrow> u8 list option" where
  [model_defs]: "dotted_pton f s =
     (let parts = split_on (CHR ''.'') s
      in if f = IPV4 \<and> length parts = 4 \<and> list_all octet parts
         then Some (map (\<lambda>p. of_nat (digits_value p)) parts) else None)"

definition dotted_ntop :: "AddressFamily \<Rightarrow> u8 list \<Rightarrow> string option" where
  [model_defs]: "dotted_ntop f bs =
     (case (f, map (decimal \<circ> unat) (take 4 bs)) of
        (IPV4, [a, b, c, d]) \<Rightarrow> Some (a @ ''.'' @ b @ ''.'' @ c @ ''.'' @ d)
      | _ \<Rightarrow> None)"

definition dotted_platform :: platform where
  [model_defs]: "dotted_platform = \<lparr>inet_pton = dotted_pton, inet_ntop = dotted_ntop\<rparr>"

lemma dotted_sizes: "pton_sizes dotted_platform"
  by (auto simp: pton_sizes_def dotted_platform_def dotted_pton_def Let_def split: if_splits)

lemma all_zero_no_bits: "bs ! (i div 8) = 0 \<Longrightarrow> \<not> addr_bit bs i"
  by (simp add: addr_bit_def)

text \<open>The two literals \<open>10.10.0.0/24\<close> and \<open>0.0.0.0\<close> on this platform.\<close>

definition net_10_10 :: IpPrefix where
  [model_defs]: "net_10_10 =
     \<lparr>network = \<lparr>family = IPV4, bytes = [10, 10] @ replicate 14 0\<rparr>, prefix_length = 24\<rparr>"

lemma parse_net_10_10: "IpPrefix_parse dotted_platform ''10.10.0.0/24'' = success net_10_10"
  by (simp add: model_defs)

lemma net_10_10_wf: "IpPrefix_wf net_10_10"
proof -
  have "i div 8 \<in> {3..<16}" if "24 \<le> i" "i < 32" for i :: nat using that by auto
  then have "\<not> addr_bit (bytes (network net_10_10)) i" if "24 \<le> i" "i < 32" for i
    using that by (intro all_zero_no_bits) (auto simp: net_10_10_def nth_Cons')
  then show ?thesis
    by (auto simp: IpPrefix_wf_def IpAddress_wf_def net_10_10_def family_bits_def)
qed

lemma IpPrefix_parse_print_witness:
  "IpPrefix_parse dotted_platform (''10.10.0.0'' @ ''/'' @ decimal 24) = success net_10_10"
proof -
  note wf = net_10_10_wf
  have "IpAddress_parse dotted_platform ''10.10.0.0'' = success (network net_10_10)"
    by (simp add: model_defs)
  from IpPrefix_parse_print [OF wf _ this] show ?thesis by (simp add: net_10_10_def)
qed


end
