(* ===== verification/Rule_Model.thy ===== *)
theory Rule_Model
  imports Addresses
begin

text \<open>
  \<open>include/upf/domain/packet.hpp\<close> and \<open>include/upf/domain/rules.hpp\<close>: semantic packets,
  tunnel metadata and the four kinds of rules. Each struct is a record with its fields in
  the order of the source, prefixed by the struct's name; \<open>X_new\<close> is the default
  constructor.

  Members the constructors leave uninitialised (\<open>Packet\<close> has no constructor at all) have
  indeterminate values. They are read from a parameter record \<open>indeterminate\<close>, so that a
  result that depends on one is visible as a dependence on the parameter.
\<close>

section \<open>Packets\<close>

record TunnelMetadata =
  tm_teid :: u32
  tm_qfi :: u8

definition TunnelMetadata_valid :: "TunnelMetadata \<Rightarrow> bool" where
  [model_defs]: "TunnelMetadata_valid t \<longleftrightarrow> tm_teid t \<noteq> 0 \<and> tm_qfi t \<ge> 1 \<and> tm_qfi t \<le> 63"

record Packet =
  pkt_packetId :: string
  pkt_sessionId :: string
  pkt_ingress :: Interface
  pkt_tunnel :: "TunnelMetadata option"
  pkt_sourceIp :: IpAddress
  pkt_destinationIp :: IpAddress
  pkt_protocol :: TransportProtocol
  pkt_sourcePort :: u16
  pkt_destinationPort :: u16
  pkt_payloadBytes :: u32
  pkt_arrivalTimeMicros :: u64

record indeterminate =
  any_interface :: Interface
  any_protocol :: TransportProtocol
  any_u16 :: "u16 \<times> u16"
  any_u32 :: u32
  any_u64 :: u64

definition Packet_new :: "indeterminate \<Rightarrow> Packet" where
  [model_defs]: "Packet_new ind =
     \<lparr>pkt_packetId = '''', pkt_sessionId = '''', pkt_ingress = any_interface ind,
      pkt_tunnel = None, pkt_sourceIp = IpAddress_new, pkt_destinationIp = IpAddress_new,
      pkt_protocol = any_protocol ind, pkt_sourcePort = fst (any_u16 ind),
      pkt_destinationPort = snd (any_u16 ind), pkt_payloadBytes = any_u32 ind,
      pkt_arrivalTimeMicros = any_u64 ind\<rparr>"

section \<open>Rules\<close>

record Pdr =
  pdr_id :: PdrId
  pdr_precedence :: u32
  pdr_sourceInterface :: Interface
  pdr_teid :: "u32 option"
  pdr_uePrefix :: IpPrefix
  pdr_protocol :: "TransportProtocol option"
  pdr_localPorts :: "PortRange option"
  pdr_remotePorts :: "PortRange option"
  pdr_qfi :: "u8 option"
  pdr_farId :: FarId
  pdr_qerId :: "QerId option"
  pdr_urrId :: "UrrId option"
  pdr_generation :: u32

definition Pdr_new :: Pdr where
  [model_defs]: "Pdr_new =
     \<lparr>pdr_id = RuleId 0, pdr_precedence = 0, pdr_sourceInterface = N3, pdr_teid = None,
      pdr_uePrefix = IpPrefix_new, pdr_protocol = None, pdr_localPorts = None,
      pdr_remotePorts = None, pdr_qfi = None, pdr_farId = RuleId 0, pdr_qerId = None,
      pdr_urrId = None, pdr_generation = 1\<rparr>"

record Far =
  far_id :: FarId
  far_action :: FarAction
  far_destination :: "Interface option"
  far_operation :: TunnelOperation
  far_tunnel :: "TunnelMetadata option"

definition Far_new :: Far where
  [model_defs]: "Far_new =
     \<lparr>far_id = RuleId 0, far_action = DROP, far_destination = None,
      far_operation = TUNNEL_NONE, far_tunnel = None\<rparr>"

record Qer =
  qer_id :: QerId
  qer_gate :: GateStatus
  qer_rateBitsPerSecond :: u64
  qer_burstBytes :: u64
  qer_qfi :: "u8 option"
  qer_generation :: u32

definition Qer_new :: Qer where
  [model_defs]: "Qer_new =
     \<lparr>qer_id = RuleId 0, qer_gate = OPEN, qer_rateBitsPerSecond = 0, qer_burstBytes = 0,
      qer_qfi = None, qer_generation = 1\<rparr>"

record Urr =
  urr_id :: UrrId
  urr_volumeThresholdBytes :: u64
  urr_generation :: u32

definition Urr_new :: Urr where
  [model_defs]: "Urr_new = \<lparr>urr_id = RuleId 0, urr_volumeThresholdBytes = 1, urr_generation = 1\<rparr>"

record RuleSet =
  rs_sessionId :: string
  rs_version :: u64
  rs_pdrs :: "Pdr list"
  rs_fars :: "Far list"
  rs_qers :: "Qer list"
  rs_urrs :: "Urr list"

definition RuleSet_new :: RuleSet where
  [model_defs]: "RuleSet_new =
     \<lparr>rs_sessionId = '''', rs_version = 1, rs_pdrs = [], rs_fars = [], rs_qers = [], rs_urrs = []\<rparr>"

text \<open>The data the prefix lemmas need: every configured prefix came out of the parser.\<close>

definition prefixes_wf :: "RuleSet \<Rightarrow> bool" where
  "prefixes_wf rules \<longleftrightarrow> (\<forall>pdr \<in> set (rs_pdrs rules). IpPrefix_wf (pdr_uePrefix pdr))"

definition packet_wf :: "Packet \<Rightarrow> bool" where
  "packet_wf packet \<longleftrightarrow> IpAddress_wf (pkt_sourceIp packet) \<and> IpAddress_wf (pkt_destinationIp packet)"

end
