(* ===== verification/Decisions.thy ===== *)
theory Decisions
  imports Rule_Model
begin

text \<open>
  \<open>include/upf/domain/decision.hpp\<close> and \<open>src/domain/decision.cpp\<close>: the explanation a packet
  leaves behind, one record per struct, and the names of the terminal results.

  \<open>PacketDecision()\<close> leaves \<open>arrivalTimeMicros\<close>, \<open>ingress\<close> and the scalars of
  \<open>transformedPacket\<close> uninitialised; they come from the \<open>indeterminate\<close> parameter.
\<close>

datatype TerminalResult =
  FORWARDED_TO_N3 | FORWARDED_TO_N6 | FAR_DROPPED | NO_MATCH | MALFORMED_PACKET
| GATE_CLOSED | RATE_LIMITED | PACKET_QUEUE_FULL | SHUTDOWN_DEADLINE
| ARITHMETIC_ERROR | CAPACITY_ERROR

record CriterionResult =
  cr_name :: string
  cr_applicable :: bool
  cr_matched :: bool
  cr_actual :: string
  cr_expected :: string

record MatchCandidate =
  mc_pdrId :: u32
  mc_precedence :: u32
  mc_matched :: bool
  mc_criteria :: "CriterionResult list"

record QerDecision =
  qd_applicable :: bool
  qd_qerId :: u32
  qd_gate :: GateStatus
  qd_tokensBefore :: u64
  qd_refillBytes :: u64
  qd_packetChargeBytes :: u64
  qd_tokensAfter :: u64
  qd_allowed :: bool
  qd_outcome :: string

definition QerDecision_new :: QerDecision where
  [model_defs]: "QerDecision_new =
     \<lparr>qd_applicable = False, qd_qerId = 0, qd_gate = OPEN, qd_tokensBefore = 0,
      qd_refillBytes = 0, qd_packetChargeBytes = 0, qd_tokensAfter = 0, qd_allowed = False,
      qd_outcome = ''''\<rparr>"

record FarDecision =
  fd_applicable :: bool
  fd_farId :: u32
  fd_action :: FarAction
  fd_destination :: Interface
  fd_before :: "TunnelMetadata option"
  fd_after :: "TunnelMetadata option"

definition FarDecision_new :: FarDecision where
  [model_defs]: "FarDecision_new =
     \<lparr>fd_applicable = False, fd_farId = 0, fd_action = DROP, fd_destination = N6,
      fd_before = None, fd_after = None\<rparr>"

record UrrDecision =
  ud_applicable :: bool
  ud_urrId :: u32
  ud_counted :: bool
  ud_packetsBefore :: u64
  ud_packetsAfter :: u64
  ud_bytesBefore :: u64
  ud_bytesAfter :: u64
  ud_thresholdReached :: bool
  ud_reportId :: string

definition UrrDecision_new :: UrrDecision where
  [model_defs]: "UrrDecision_new =
     \<lparr>ud_applicable = False, ud_urrId = 0, ud_counted = False, ud_packetsBefore = 0,
      ud_packetsAfter = 0, ud_bytesBefore = 0, ud_bytesAfter = 0, ud_thresholdReached = False,
      ud_reportId = ''''\<rparr>"

record PacketDecision =
  pd_runId :: string
  pd_scenarioId :: string
  pd_packetId :: string
  pd_sessionId :: string
  pd_arrivalTimeMicros :: u64
  pd_ingress :: Interface
  pd_rulesetVersion :: u64
  pd_updateId :: string
  pd_candidates :: "MatchCandidate list"
  pd_selectedPdrId :: u32
  pd_qer :: QerDecision
  pd_far :: FarDecision
  pd_urr :: UrrDecision
  pd_terminalResult :: TerminalResult
  pd_sinkPresent :: bool
  pd_sink :: Interface
  pd_transformedPresent :: bool
  pd_transformedPacket :: Packet
  pd_observabilityDegraded :: bool

definition PacketDecision_new :: "indeterminate \<Rightarrow> PacketDecision" where
  [model_defs]: "PacketDecision_new ind =
     \<lparr>pd_runId = '''', pd_scenarioId = '''', pd_packetId = '''', pd_sessionId = '''',
      pd_arrivalTimeMicros = any_u64 ind, pd_ingress = any_interface ind,
      pd_rulesetVersion = 0, pd_updateId = '''', pd_candidates = [], pd_selectedPdrId = 0,
      pd_qer = QerDecision_new, pd_far = FarDecision_new, pd_urr = UrrDecision_new,
      pd_terminalResult = NO_MATCH, pd_sinkPresent = False, pd_sink = N6,
      pd_transformedPresent = False, pd_transformedPacket = Packet_new ind,
      pd_observabilityDegraded = False\<rparr>"

fun terminalResultName :: "TerminalResult \<Rightarrow> string" where
  "terminalResultName FORWARDED_TO_N3 = ''FORWARDED_TO_N3''"
| "terminalResultName FORWARDED_TO_N6 = ''FORWARDED_TO_N6''"
| "terminalResultName FAR_DROPPED = ''FAR_DROPPED''"
| "terminalResultName NO_MATCH = ''NO_MATCH''"
| "terminalResultName MALFORMED_PACKET = ''MALFORMED_PACKET''"
| "terminalResultName GATE_CLOSED = ''GATE_CLOSED''"
| "terminalResultName RATE_LIMITED = ''RATE_LIMITED''"
| "terminalResultName PACKET_QUEUE_FULL = ''PACKET_QUEUE_FULL''"
| "terminalResultName SHUTDOWN_DEADLINE = ''SHUTDOWN_DEADLINE''"
| "terminalResultName ARITHMETIC_ERROR = ''ARITHMETIC_ERROR''"
| "terminalResultName CAPACITY_ERROR = ''CAPACITY_ERROR''"

lemma terminalResultName_inj: "terminalResultName a = terminalResultName b \<longleftrightarrow> a = b"
  by (cases a; cases b; simp)

end
