(* ===== verification/Validation.thy ===== *)
theory Validation
  imports Rule_Model
begin

text \<open>
  \<open>src/domain/validation.cpp\<close>: rule lookup by identifier, uniqueness of identifiers, overlap
  of PDR match spaces, and \<open>validateRuleSet\<close> with its error texts in the order of the source.

  The three lookups share one contract, the locale \<open>keyed_rules\<close>; under unique identifiers
  a lookup is exactly membership. \<open>validateRuleSet_accepts\<close> states what the chain of checks
  establishes, and the components downstream rely on that statement only.
\<close>

section \<open>Lookups\<close>

text \<open>A null pointer is \<open>None\<close>.\<close>

definition findFar :: "RuleSet \<Rightarrow> FarId \<Rightarrow> Far option" where
  [model_defs]: "findFar rules i = find (\<lambda>far. far_id far = i) (rs_fars rules)"

definition findQer :: "RuleSet \<Rightarrow> QerId \<Rightarrow> Qer option" where
  [model_defs]: "findQer rules i = find (\<lambda>qer. qer_id qer = i) (rs_qers rules)"

definition findUrr :: "RuleSet \<Rightarrow> UrrId \<Rightarrow> Urr option" where
  [model_defs]: "findUrr rules i = find (\<lambda>urr. urr_id urr = i) (rs_urrs rules)"

text \<open>The template \<open>uniqueIds\<close>: \<open>ids\<close> is the set of identifiers inserted so far.\<close>

fun uniqueIds_from :: "('r \<Rightarrow> RuleId) \<Rightarrow> u32 set \<Rightarrow> 'r list \<Rightarrow> bool" where
  "uniqueIds_from ident ids [] = True"
| "uniqueIds_from ident ids (v # vs) =
     (if \<not> RuleId_valid (ident v) \<or> id_value (ident v) \<in> ids then False
      else uniqueIds_from ident (insert (id_value (ident v)) ids) vs)"

definition uniqueIds :: "('r \<Rightarrow> RuleId) \<Rightarrow> 'r list \<Rightarrow> bool" where
  [model_defs]: "uniqueIds ident values = uniqueIds_from ident {} values"

lemma uniqueIds_from_iff:
  "uniqueIds_from ident ids vs \<longleftrightarrow>
     distinct (map ident vs) \<and> (\<forall>v \<in> set vs. RuleId_valid (ident v) \<and> id_value (ident v) \<notin> ids)"
  by (induction vs arbitrary: ids) (auto simp: image_iff RuleId.expand)

lemma uniqueIds_iff:
  "uniqueIds ident vs \<longleftrightarrow> distinct (map ident vs) \<and> (\<forall>v \<in> set vs. RuleId_valid (ident v))"
  by (simp add: uniqueIds_def uniqueIds_from_iff)

section \<open>Overlap of match spaces\<close>

definition rangesOverlap :: "PortRange option \<Rightarrow> PortRange option \<Rightarrow> bool" where
  [model_defs]: "rangesOverlap a b =
     (case (a, b) of
        (Some x, Some y) \<Rightarrow> port_first x \<le> port_last y \<and> port_first y \<le> port_last x
      | _ \<Rightarrow> True)"

definition optionalValuesOverlap :: "'a option \<Rightarrow> 'a option \<Rightarrow> bool" where
  [model_defs]: "optionalValuesOverlap a b = (case (a, b) of (Some x, Some y) \<Rightarrow> x = y | _ \<Rightarrow> True)"

definition matchSpacesOverlap :: "Pdr \<Rightarrow> Pdr \<Rightarrow> bool" where
  [model_defs]: "matchSpacesOverlap a b \<longleftrightarrow>
     pdr_sourceInterface a = pdr_sourceInterface b \<and>
     optionalValuesOverlap (pdr_teid a) (pdr_teid b) \<and>
     (IpPrefix_contains (pdr_uePrefix a) (network (pdr_uePrefix b)) \<or>
      IpPrefix_contains (pdr_uePrefix b) (network (pdr_uePrefix a))) \<and>
     optionalValuesOverlap (pdr_protocol a) (pdr_protocol b) \<and>
     rangesOverlap (pdr_localPorts a) (pdr_localPorts b) \<and>
     rangesOverlap (pdr_remotePorts a) (pdr_remotePorts b) \<and>
     optionalValuesOverlap (pdr_qfi a) (pdr_qfi b)"

section \<open>Validation\<close>

text \<open>
  The body of the loop over the PDRs; \<open>later\<close> are the PDRs after the current one, which the
  inner loop compares with.
\<close>

definition validatePdr :: "RuleSet \<Rightarrow> Pdr \<Rightarrow> Pdr list \<Rightarrow> unit result_of" where
  [model_defs]: "validatePdr rules pdr later =
     (case findFar rules (pdr_farId pdr) of
        None \<Rightarrow> failure ''missing FAR''
      | Some far \<Rightarrow>
          if (case pdr_qerId pdr of None \<Rightarrow> False | Some i \<Rightarrow> findQer rules i = None)
          then failure ''missing QER''
          else if (case pdr_urrId pdr of None \<Rightarrow> False | Some i \<Rightarrow> findUrr rules i = None)
          then failure ''missing URR''
          else if pdr_sourceInterface pdr = N3 \<and> pdr_teid pdr = None
          then failure ''N3 PDR requires TEID''
          else if pdr_sourceInterface pdr = N6 \<and> pdr_teid pdr \<noteq> None
          then failure ''N6 PDR forbids TEID''
          else if (case pdr_localPorts pdr of None \<Rightarrow> False | Some r \<Rightarrow> \<not> PortRange_valid r)
          then failure ''invalid local ports''
          else if (case pdr_remotePorts pdr of None \<Rightarrow> False | Some r \<Rightarrow> \<not> PortRange_valid r)
          then failure ''invalid remote ports''
          else if far_action far = FORWARD \<and> far_destination far = None
          then failure ''forward destination missing''
          else if far_action far = FORWARD \<and> pdr_sourceInterface pdr = N3 \<and>
            (far_destination far \<noteq> Some N6 \<or> far_operation far \<noteq> REMOVE)
          then failure ''invalid uplink FAR''
          else if far_action far = FORWARD \<and> pdr_sourceInterface pdr = N6 \<and>
            (far_destination far \<noteq> Some N3 \<or> far_operation far \<noteq> ADD \<or>
             (case far_tunnel far of None \<Rightarrow> True | Some t \<Rightarrow> \<not> TunnelMetadata_valid t))
          then failure ''invalid downlink FAR''
          else if far_action far \<noteq> FORWARD \<and>
            (far_destination far \<noteq> None \<or> far_operation far \<noteq> TUNNEL_NONE)
          then failure ''drop FAR has forwarding parameters''
          else if list_ex (\<lambda>other. pdr_precedence pdr = pdr_precedence other \<and>
              matchSpacesOverlap pdr other) later
          then failure ''equal-precedence PDR match spaces overlap''
          else success ())"

fun validatePdrs :: "RuleSet \<Rightarrow> Pdr list \<Rightarrow> unit result_of" where
  "validatePdrs rules [] = success ()"
| "validatePdrs rules (pdr # later) =
     (case validatePdr rules pdr later of
        Inl e \<Rightarrow> failure e
      | Inr _ \<Rightarrow> validatePdrs rules later)"

definition validateRuleSet :: "RuleSet \<Rightarrow> CapacityLimits \<Rightarrow> unit result_of" where
  [model_defs]: "validateRuleSet rules limits =
     (if rs_sessionId rules = '''' \<or> rs_version rules = 0
      then failure ''invalid session/version''
      else if length (rs_pdrs rules) > unat (lim_rulesPerType limits) \<or>
        length (rs_fars rules) > unat (lim_rulesPerType limits) \<or>
        length (rs_qers rules) > unat (lim_rulesPerType limits) \<or>
        length (rs_urrs rules) > unat (lim_rulesPerType limits)
      then failure ''rule capacity exceeded''
      else if \<not> uniqueIds pdr_id (rs_pdrs rules) \<or> \<not> uniqueIds far_id (rs_fars rules) \<or>
        \<not> uniqueIds qer_id (rs_qers rules) \<or> \<not> uniqueIds urr_id (rs_urrs rules)
      then failure ''invalid or duplicate rule ID''
      else validatePdrs rules (rs_pdrs rules))"

section \<open>The lookup contract\<close>

locale keyed_rules =
  fixes ident :: "'r \<Rightarrow> RuleId"
    and rows :: "RuleSet \<Rightarrow> 'r list"
    and lookup :: "RuleSet \<Rightarrow> RuleId \<Rightarrow> 'r option"
  assumes lookup_sound: "lookup rules i = Some r \<Longrightarrow> r \<in> set (rows rules) \<and> ident r = i"
    and lookup_complete: "r \<in> set (rows rules) \<Longrightarrow> lookup rules (ident r) \<noteq> None"
begin

lemma lookup_mem: "lookup rules i = Some r \<Longrightarrow> r \<in> set (rows rules)"
  by (simp add: lookup_sound)

lemma lookup_ident: "lookup rules i = Some r \<Longrightarrow> ident r = i"
  by (simp add: lookup_sound)

lemma lookup_iff:
  assumes "uniqueIds ident (rows rules)"
  shows "lookup rules i = Some r \<longleftrightarrow> r \<in> set (rows rules) \<and> ident r = i"
proof
  assume r: "r \<in> set (rows rules) \<and> ident r = i"
  then obtain s where s: "lookup rules i = Some s" using lookup_complete by blast
  then have "s = r"
    using r lookup_sound [OF s] assms by (auto simp: uniqueIds_iff dest: distinct_map_eqD)
  then show "lookup rules i = Some r" using s by simp
qed (rule lookup_sound)

lemma lookup_own:
  "uniqueIds ident (rows rules) \<Longrightarrow> r \<in> set (rows rules) \<Longrightarrow> lookup rules (ident r) = Some r"
  by (simp add: lookup_iff)

end

interpretation fars: keyed_rules far_id rs_fars findFar
  by unfold_locales (auto simp: findFar_def find_None_all dest: find_Some_mem)

interpretation qers: keyed_rules qer_id rs_qers findQer
  by unfold_locales (auto simp: findQer_def find_None_all dest: find_Some_mem)

interpretation urrs: keyed_rules urr_id rs_urrs findUrr
  by unfold_locales (auto simp: findUrr_def find_None_all dest: find_Some_mem)

section \<open>What validation establishes\<close>

definition far_fits :: "Pdr \<Rightarrow> Far \<Rightarrow> bool" where
  "far_fits pdr far \<longleftrightarrow>
     (case far_action far of
        FORWARD \<Rightarrow>
          (case pdr_sourceInterface pdr of
             N3 \<Rightarrow> far_destination far = Some N6 \<and> far_operation far = REMOVE
           | N6 \<Rightarrow> far_destination far = Some N3 \<and> far_operation far = ADD \<and>
               (\<exists>t. far_tunnel far = Some t \<and> TunnelMetadata_valid t))
      | DROP \<Rightarrow> far_destination far = None \<and> far_operation far = TUNNEL_NONE)"

definition pdr_complete :: "RuleSet \<Rightarrow> Pdr \<Rightarrow> bool" where
  "pdr_complete rules pdr \<longleftrightarrow>
     (\<exists>far. findFar rules (pdr_farId pdr) = Some far \<and> far_fits pdr far) \<and>
     (\<forall>i. pdr_qerId pdr = Some i \<longrightarrow> (\<exists>qer. findQer rules i = Some qer)) \<and>
     (\<forall>i. pdr_urrId pdr = Some i \<longrightarrow> (\<exists>urr. findUrr rules i = Some urr)) \<and>
     (pdr_sourceInterface pdr = N3 \<longleftrightarrow> pdr_teid pdr \<noteq> None) \<and>
     (\<forall>r. pdr_localPorts pdr = Some r \<longrightarrow> PortRange_valid r) \<and>
     (\<forall>r. pdr_remotePorts pdr = Some r \<longrightarrow> PortRange_valid r)"

definition separated :: "Pdr \<Rightarrow> Pdr \<Rightarrow> bool" where
  "separated a b \<longleftrightarrow> pdr_precedence a \<noteq> pdr_precedence b \<or> \<not> matchSpacesOverlap a b"

definition ruleset_valid :: "RuleSet \<Rightarrow> bool" where
  "ruleset_valid rules \<longleftrightarrow>
     rs_sessionId rules \<noteq> '''' \<and> rs_version rules \<noteq> 0 \<and>
     uniqueIds pdr_id (rs_pdrs rules) \<and> uniqueIds far_id (rs_fars rules) \<and>
     uniqueIds qer_id (rs_qers rules) \<and> uniqueIds urr_id (rs_urrs rules) \<and>
     (\<forall>pdr \<in> set (rs_pdrs rules). pdr_complete rules pdr) \<and>
     sorted_wrt separated (rs_pdrs rules)"

definition ruleset_fits :: "CapacityLimits \<Rightarrow> RuleSet \<Rightarrow> bool" where
  "ruleset_fits limits rules \<longleftrightarrow>
     length (rs_pdrs rules) \<le> unat (lim_rulesPerType limits) \<and>
     length (rs_fars rules) \<le> unat (lim_rulesPerType limits) \<and>
     length (rs_qers rules) \<le> unat (lim_rulesPerType limits) \<and>
     length (rs_urrs rules) \<le> unat (lim_rulesPerType limits)"

lemma Interface_other: "i \<noteq> N3 \<longleftrightarrow> i = N6" "i \<noteq> N6 \<longleftrightarrow> i = N3"
  by (cases i; simp)+

lemma FarAction_other: "a \<noteq> FORWARD \<longleftrightarrow> a = DROP" "a \<noteq> DROP \<longleftrightarrow> a = FORWARD"
  by (cases a; simp)+

lemma validatePdr_iff:
  "validatePdr rules pdr later = success () \<longleftrightarrow>
     pdr_complete rules pdr \<and> (\<forall>other \<in> set later. separated pdr other)"
  by (cases "findFar rules (pdr_farId pdr)"; cases "pdr_sourceInterface pdr")
    (auto simp: validatePdr_def pdr_complete_def far_fits_def separated_def list_ex_iff
      Interface_other FarAction_other split: option.splits FarAction.splits)

lemma validatePdrs_Cons:
  "validatePdrs rules (pdr # later) = success () \<longleftrightarrow>
     validatePdr rules pdr later = success () \<and> validatePdrs rules later = success ()"
  by (cases "validatePdr rules pdr later") auto

lemma validatePdrs_iff:
  "validatePdrs rules pdrs = success () \<longleftrightarrow>
     (\<forall>pdr \<in> set pdrs. pdr_complete rules pdr) \<and> sorted_wrt separated pdrs"
  by (induction pdrs) (auto simp: validatePdr_iff validatePdrs_Cons simp del: validatePdrs.simps(2))

lemma validateRuleSet_accepts:
  "validateRuleSet rules limits = success () \<longleftrightarrow> ruleset_valid rules \<and> ruleset_fits limits rules"
  by (auto simp: validateRuleSet_def ruleset_valid_def ruleset_fits_def validatePdrs_iff)

text \<open>
  C11. \<open>validateRuleSet\<close> succeeds exactly on rule sets that name a session and a positive
  version, stay within the capacity per rule type, use valid identifiers once, give every PDR
  the FAR, QER and URR it refers to with a FAR that fits its direction, and keep PDRs of equal
  precedence apart.
\<close>

lemma validateRuleSet_iff:
  "validateRuleSet rules limits = success () \<longleftrightarrow> ruleset_valid rules \<and> ruleset_fits limits rules"
  by (rule validateRuleSet_accepts)

lemma validate_ok: "ok (validateRuleSet rules limits) \<longleftrightarrow> validateRuleSet rules limits = success ()"
  by (cases "validateRuleSet rules limits") auto

lemma sorted_wrt_pair:
  "sorted_wrt P xs \<Longrightarrow> x \<in> set xs \<Longrightarrow> y \<in> set xs \<Longrightarrow> x \<noteq> y \<Longrightarrow> P x y \<or> P y x"
  by (induction xs) auto

lemma optionalValuesOverlap_symI: "optionalValuesOverlap a b \<Longrightarrow> optionalValuesOverlap b a"
  by (auto simp: optionalValuesOverlap_def split: option.splits)

lemma rangesOverlap_symI: "rangesOverlap a b \<Longrightarrow> rangesOverlap b a"
  by (auto simp: rangesOverlap_def split: option.splits)

lemma matchSpacesOverlap_symI: "matchSpacesOverlap a b \<Longrightarrow> matchSpacesOverlap b a"
  unfolding matchSpacesOverlap_def
  by (elim conjE, intro conjI) (simp_all add: optionalValuesOverlap_symI rangesOverlap_symI disj_commute)

lemma matchSpacesOverlap_sym: "matchSpacesOverlap a b = matchSpacesOverlap b a"
  by (blast intro: matchSpacesOverlap_symI)

lemma separated_sym: "separated a b = separated b a"
  by (auto simp: separated_def matchSpacesOverlap_sym)

lemma valid_separated:
  assumes "ruleset_valid rules" "a \<in> set (rs_pdrs rules)" "b \<in> set (rs_pdrs rules)" "a \<noteq> b"
  shows "separated a b"
  using assms sorted_wrt_pair [of separated "rs_pdrs rules" a b] separated_sym
  by (auto simp: ruleset_valid_def)

lemma valid_pdr_complete:
  "ruleset_valid rules \<Longrightarrow> pdr \<in> set (rs_pdrs rules) \<Longrightarrow> pdr_complete rules pdr"
  by (simp add: ruleset_valid_def)

end
