(* ===== verification/Fixtures.thy ===== *)
theory Fixtures
  imports Validation
begin

text \<open>
  The rule sets and packets that \<open>src/application/scenario_runner.cpp\<close> builds for its
  scenarios. \<open>parse(...).value()\<close> throws \<open>std::logic_error\<close> with the parser's message when
  the literal is rejected, so the builders return \<open>Inl\<close> with that message.

  On \<open>dotted_platform\<close> they evaluate to \<open>ul_rules\<close>, \<open>ul_packet\<close>, \<open>dl_rules\<close> and
  \<open>dl_packet\<close>, the concrete data of the witnesses.
\<close>

section \<open>Builders\<close>

definition uplinkRules :: "platform \<Rightarrow> RuleSet result_of" where
  [model_defs]: "uplinkRules pl =
     (case IpPrefix_parse pl ''10.10.0.0/24'' of
        Inl e \<Rightarrow> failure e
      | Inr prefix \<Rightarrow> success (RuleSet_new\<lparr>rs_sessionId := ''session-1'', rs_version := 3,
          rs_pdrs := [Pdr_new\<lparr>pdr_id := RuleId 10, pdr_precedence := 100,
            pdr_sourceInterface := N3, pdr_teid := Some 1001, pdr_uePrefix := prefix,
            pdr_protocol := Some UDP,
            pdr_localPorts := Some \<lparr>port_first = 41000, port_last = 41000\<rparr>,
            pdr_remotePorts := Some \<lparr>port_first = 443, port_last = 443\<rparr>,
            pdr_qfi := Some 9, pdr_farId := RuleId 20, pdr_qerId := Some (RuleId 30),
            pdr_urrId := Some (RuleId 40)\<rparr>],
          rs_fars := [Far_new\<lparr>far_id := RuleId 20, far_action := FORWARD,
            far_destination := Some N6, far_operation := REMOVE\<rparr>],
          rs_qers := [Qer_new\<lparr>qer_id := RuleId 30, qer_gate := OPEN,
            qer_rateBitsPerSecond := 10000000, qer_burstBytes := 20000\<rparr>],
          rs_urrs := [Urr_new\<lparr>urr_id := RuleId 40, urr_volumeThresholdBytes := 10000\<rparr>]\<rparr>))"

definition uplinkPacket :: "platform \<Rightarrow> indeterminate \<Rightarrow> Packet result_of" where
  [model_defs]: "uplinkPacket pl ind =
     (case IpAddress_parse pl ''10.10.0.7'' of
        Inl e \<Rightarrow> failure e
      | Inr source \<Rightarrow>
          (case IpAddress_parse pl ''192.0.2.20'' of
             Inl e \<Rightarrow> failure e
           | Inr destination \<Rightarrow> success ((Packet_new ind)\<lparr>pkt_packetId := ''pkt-ul-001'',
               pkt_sessionId := ''session-1'', pkt_ingress := N3,
               pkt_tunnel := Some \<lparr>tm_teid = 1001, tm_qfi = 9\<rparr>, pkt_sourceIp := source,
               pkt_destinationIp := destination, pkt_protocol := UDP, pkt_sourcePort := 41000,
               pkt_destinationPort := 443, pkt_payloadBytes := 1200,
               pkt_arrivalTimeMicros := 0\<rparr>)))"

definition downlinkRules :: "platform \<Rightarrow> RuleSet result_of" where
  [model_defs]: "downlinkRules pl =
     (case IpPrefix_parse pl ''10.10.0.0/24'' of
        Inl e \<Rightarrow> failure e
      | Inr prefix \<Rightarrow> success (RuleSet_new\<lparr>rs_sessionId := ''session-1'', rs_version := 3,
          rs_pdrs := [Pdr_new\<lparr>pdr_id := RuleId 11, pdr_precedence := 100,
            pdr_sourceInterface := N6, pdr_uePrefix := prefix, pdr_protocol := Some UDP,
            pdr_localPorts := Some \<lparr>port_first = 41000, port_last = 41000\<rparr>,
            pdr_remotePorts := Some \<lparr>port_first = 443, port_last = 443\<rparr>,
            pdr_farId := RuleId 21, pdr_qerId := Some (RuleId 31),
            pdr_urrId := Some (RuleId 41)\<rparr>],
          rs_fars := [Far_new\<lparr>far_id := RuleId 21, far_action := FORWARD,
            far_destination := Some N3, far_operation := ADD,
            far_tunnel := Some \<lparr>tm_teid = 2001, tm_qfi = 9\<rparr>\<rparr>],
          rs_qers := [Qer_new\<lparr>qer_id := RuleId 31, qer_gate := OPEN,
            qer_rateBitsPerSecond := 10000000, qer_burstBytes := 20000\<rparr>],
          rs_urrs := [Urr_new\<lparr>urr_id := RuleId 41, urr_volumeThresholdBytes := 10000\<rparr>]\<rparr>))"

definition downlinkPacket :: "platform \<Rightarrow> indeterminate \<Rightarrow> Packet result_of" where
  [model_defs]: "downlinkPacket pl ind =
     (case IpAddress_parse pl ''192.0.2.20'' of
        Inl e \<Rightarrow> failure e
      | Inr source \<Rightarrow>
          (case IpAddress_parse pl ''10.10.0.7'' of
             Inl e \<Rightarrow> failure e
           | Inr destination \<Rightarrow> success ((Packet_new ind)\<lparr>pkt_packetId := ''pkt-dl-001'',
               pkt_sessionId := ''session-1'', pkt_ingress := N6, pkt_sourceIp := source,
               pkt_destinationIp := destination, pkt_protocol := UDP, pkt_sourcePort := 443,
               pkt_destinationPort := 41000, pkt_payloadBytes := 900,
               pkt_arrivalTimeMicros := 0\<rparr>)))"

text \<open>The second rule the \<open>pdr-precedence\<close> scenario adds.\<close>

definition add_lowerPriority :: "RuleSet \<Rightarrow> RuleSet" where
  [model_defs]: "add_lowerPriority rules =
     rules\<lparr>rs_pdrs := rs_pdrs rules @
       [(rs_pdrs rules ! 0)\<lparr>pdr_id := RuleId 11, pdr_precedence := 200\<rparr>]\<rparr>"

section \<open>Their values on the dotted-decimal platform\<close>

definition ue_10_10_0_7 :: IpAddress where
  [model_defs]: "ue_10_10_0_7 = \<lparr>family = IPV4, bytes = [10, 10, 0, 7] @ replicate 12 0\<rparr>"

definition server_192_0_2_20 :: IpAddress where
  [model_defs]: "server_192_0_2_20 = \<lparr>family = IPV4, bytes = [192, 0, 2, 20] @ replicate 12 0\<rparr>"

definition ul_pdr :: Pdr where
  [model_defs]: "ul_pdr =
     \<lparr>pdr_id = RuleId 10, pdr_precedence = 100, pdr_sourceInterface = N3, pdr_teid = Some 1001,
      pdr_uePrefix = net_10_10, pdr_protocol = Some UDP,
      pdr_localPorts = Some \<lparr>port_first = 41000, port_last = 41000\<rparr>,
      pdr_remotePorts = Some \<lparr>port_first = 443, port_last = 443\<rparr>, pdr_qfi = Some 9,
      pdr_farId = RuleId 20, pdr_qerId = Some (RuleId 30), pdr_urrId = Some (RuleId 40),
      pdr_generation = 1\<rparr>"

definition ul_far :: Far where
  [model_defs]: "ul_far = \<lparr>far_id = RuleId 20, far_action = FORWARD, far_destination = Some N6,
     far_operation = REMOVE, far_tunnel = None\<rparr>"

definition ul_qer :: Qer where
  [model_defs]: "ul_qer = \<lparr>qer_id = RuleId 30, qer_gate = OPEN, qer_rateBitsPerSecond = 10000000,
     qer_burstBytes = 20000, qer_qfi = None, qer_generation = 1\<rparr>"

definition ul_urr :: Urr where
  [model_defs]: "ul_urr = \<lparr>urr_id = RuleId 40, urr_volumeThresholdBytes = 10000, urr_generation = 1\<rparr>"

definition ul_rules :: RuleSet where
  [model_defs]: "ul_rules = \<lparr>rs_sessionId = ''session-1'', rs_version = 3, rs_pdrs = [ul_pdr],
     rs_fars = [ul_far], rs_qers = [ul_qer], rs_urrs = [ul_urr]\<rparr>"

definition ul_packet :: Packet where
  [model_defs]: "ul_packet =
     \<lparr>pkt_packetId = ''pkt-ul-001'', pkt_sessionId = ''session-1'', pkt_ingress = N3,
      pkt_tunnel = Some \<lparr>tm_teid = 1001, tm_qfi = 9\<rparr>, pkt_sourceIp = ue_10_10_0_7,
      pkt_destinationIp = server_192_0_2_20, pkt_protocol = UDP, pkt_sourcePort = 41000,
      pkt_destinationPort = 443, pkt_payloadBytes = 1200, pkt_arrivalTimeMicros = 0\<rparr>"

definition dl_packet :: Packet where
  [model_defs]: "dl_packet =
     \<lparr>pkt_packetId = ''pkt-dl-001'', pkt_sessionId = ''session-1'', pkt_ingress = N6,
      pkt_tunnel = None, pkt_sourceIp = server_192_0_2_20, pkt_destinationIp = ue_10_10_0_7,
      pkt_protocol = UDP, pkt_sourcePort = 443, pkt_destinationPort = 41000,
      pkt_payloadBytes = 900, pkt_arrivalTimeMicros = 0\<rparr>"

lemma uplinkRules_dotted: "uplinkRules dotted_platform = success ul_rules"
  by (simp add: uplinkRules_def parse_net_10_10 RuleSet_new_def Pdr_new_def Far_new_def Qer_new_def
      Urr_new_def ul_rules_def ul_pdr_def ul_far_def ul_qer_def ul_urr_def)

lemma parse_ue: "IpAddress_parse dotted_platform ''10.10.0.7'' = success ue_10_10_0_7"
  by (simp add: model_defs)

lemma parse_server: "IpAddress_parse dotted_platform ''192.0.2.20'' = success server_192_0_2_20"
  by (simp add: model_defs)

lemma uplinkPacket_dotted: "uplinkPacket dotted_platform ind = success ul_packet"
  by (simp add: uplinkPacket_def parse_ue parse_server Packet_new_def ul_packet_def)

lemma downlinkPacket_dotted: "downlinkPacket dotted_platform ind = success dl_packet"
  by (simp add: downlinkPacket_def parse_ue parse_server Packet_new_def dl_packet_def)

lemma ul_packet_wf: "packet_wf ul_packet"
  by (simp add: packet_wf_def model_defs)

definition ul_rules2 :: RuleSet where
  [model_defs]: "ul_rules2 = add_lowerPriority ul_rules"

lemma ul_prefixes_wf: "prefixes_wf ul_rules" "prefixes_wf ul_rules2"
  by (simp_all add: prefixes_wf_def ul_rules_def ul_rules2_def add_lowerPriority_def ul_pdr_def
      net_10_10_wf)

lemma ul_validates: "validateRuleSet ul_rules CapacityLimits_default = success ()"
  by (simp add: model_defs)

lemma ul2_validates: "validateRuleSet ul_rules2 CapacityLimits_default = success ()"
  by (simp add: model_defs)

text \<open>Some contents for the members the constructors leave uninitialised.\<close>

definition zero_memory :: indeterminate where
  [model_defs]: "zero_memory = \<lparr>any_interface = N3, any_protocol = TCP, any_u16 = (0, 0), any_u32 = 0,
     any_u64 = 0\<rparr>"

definition dl_rules :: RuleSet where
  [model_defs]: "dl_rules = \<lparr>rs_sessionId = ''session-1'', rs_version = 3,
     rs_pdrs = [\<lparr>pdr_id = RuleId 11, pdr_precedence = 100, pdr_sourceInterface = N6, pdr_teid = None,
       pdr_uePrefix = net_10_10, pdr_protocol = Some UDP,
       pdr_localPorts = Some \<lparr>port_first = 41000, port_last = 41000\<rparr>,
       pdr_remotePorts = Some \<lparr>port_first = 443, port_last = 443\<rparr>, pdr_qfi = None,
       pdr_farId = RuleId 21, pdr_qerId = Some (RuleId 31), pdr_urrId = Some (RuleId 41),
       pdr_generation = 1\<rparr>],
     rs_fars = [\<lparr>far_id = RuleId 21, far_action = FORWARD, far_destination = Some N3,
       far_operation = ADD, far_tunnel = Some \<lparr>tm_teid = 2001, tm_qfi = 9\<rparr>\<rparr>],
     rs_qers = [\<lparr>qer_id = RuleId 31, qer_gate = OPEN, qer_rateBitsPerSecond = 10000000,
       qer_burstBytes = 20000, qer_qfi = None, qer_generation = 1\<rparr>],
     rs_urrs = [\<lparr>urr_id = RuleId 41, urr_volumeThresholdBytes = 10000, urr_generation = 1\<rparr>]\<rparr>"

lemma downlinkRules_dotted: "downlinkRules dotted_platform = success dl_rules"
  by (simp add: downlinkRules_def parse_net_10_10 RuleSet_new_def Pdr_new_def Far_new_def Qer_new_def
      Urr_new_def dl_rules_def)

end
