(* ===== verification/Matching.thy ===== *)
theory Matching
  imports Decisions Fixtures
begin

text \<open>
  \<open>src/domain/matcher.cpp\<close>: evaluation of one PDR against a packet, criterion by criterion,
  and the selection loop of \<open>PacketPipeline::process\<close> over it.

  \<open>pdr_matches\<close> is the declarative reading of a match. Two PDRs that match one packet
  overlap in the sense of the validator (\<open>matching_pdrs_overlap\<close>); hence a validated rule set
  has at most one matching PDR of each precedence, and the loop's first-minimum choice is the
  strict minimum, independent of the order in which the PDRs are listed.
\<close>

section \<open>One candidate\<close>

definition criterion :: "string \<Rightarrow> bool \<Rightarrow> bool \<Rightarrow> string \<Rightarrow> string \<Rightarrow> CriterionResult" where
  [model_defs]: "criterion name applicable matched actual expected =
     \<lparr>cr_name = name, cr_applicable = applicable, cr_matched = matched, cr_actual = actual,
      cr_expected = expected\<rparr>"

definition interface_label :: "Interface \<Rightarrow> string" where
  [model_defs]: "interface_label i = (if i = N3 then ''N3'' else ''N6'')"

definition evaluateCandidate :: "platform \<Rightarrow> Pdr \<Rightarrow> Packet \<Rightarrow> MatchCandidate" where
  [model_defs]: "evaluateCandidate pl pdr packet =
     (let ingress = (pdr_sourceInterface pdr = pkt_ingress packet);
          tunnel = (case pdr_teid pdr of None \<Rightarrow> True
            | Some teid \<Rightarrow> (case pkt_tunnel packet of None \<Rightarrow> False | Some t \<Rightarrow> tm_teid t = teid));
          ue = (if pkt_ingress packet = N3 then pkt_sourceIp packet else pkt_destinationIp packet);
          prefix = IpPrefix_contains (pdr_uePrefix pdr) ue;
          protocol = (case pdr_protocol pdr of None \<Rightarrow> True | Some p \<Rightarrow> p = pkt_protocol packet);
          local = (if pkt_ingress packet = N3 then pkt_sourcePort packet
            else pkt_destinationPort packet);
          remote = (if pkt_ingress packet = N3 then pkt_destinationPort packet
            else pkt_sourcePort packet);
          localMatch = (case pdr_localPorts pdr of None \<Rightarrow> True
            | Some r \<Rightarrow> PortRange_contains r local);
          remoteMatch = (case pdr_remotePorts pdr of None \<Rightarrow> True
            | Some r \<Rightarrow> PortRange_contains r remote);
          qfi = (case pdr_qfi pdr of None \<Rightarrow> True
            | Some q \<Rightarrow> (case pkt_tunnel packet of None \<Rightarrow> False | Some t \<Rightarrow> tm_qfi t = q))
      in \<lparr>mc_pdrId = id_value (pdr_id pdr), mc_precedence = pdr_precedence pdr,
          mc_matched = (True \<and> ingress \<and> tunnel \<and> prefix \<and> protocol \<and>
            (localMatch \<and> remoteMatch) \<and> qfi),
          mc_criteria =
            [criterion ''ingress'' True ingress (interface_label (pkt_ingress packet))
               (interface_label (pdr_sourceInterface pdr)),
             criterion ''tunnel'' (pdr_teid pdr \<noteq> None) tunnel ''semantic'' ''configured'',
             criterion ''prefix'' True prefix (IpAddress_toString pl ue) ''UE prefix'',
             criterion ''protocol'' (pdr_protocol pdr \<noteq> None) protocol ''packet'' ''configured'',
             criterion ''localPort'' (pdr_localPorts pdr \<noteq> None) localMatch ''packet'' ''range'',
             criterion ''remotePort'' (pdr_remotePorts pdr \<noteq> None) remoteMatch ''packet'' ''range'',
             criterion ''qfi'' (pdr_qfi pdr \<noteq> None) qfi ''packet'' ''configured'']\<rparr>)"

text \<open>The declarative reading: every configured field agrees with the packet.\<close>

definition ue_address :: "Packet \<Rightarrow> IpAddress" where
  "ue_address packet = (case pkt_ingress packet of
     N3 \<Rightarrow> pkt_sourceIp packet | N6 \<Rightarrow> pkt_destinationIp packet)"

definition local_port :: "Packet \<Rightarrow> u16" where
  "local_port packet = (case pkt_ingress packet of
     N3 \<Rightarrow> pkt_sourcePort packet | N6 \<Rightarrow> pkt_destinationPort packet)"

definition remote_port :: "Packet \<Rightarrow> u16" where
  "remote_port packet = (case pkt_ingress packet of
     N3 \<Rightarrow> pkt_destinationPort packet | N6 \<Rightarrow> pkt_sourcePort packet)"

definition port_in :: "u16 \<Rightarrow> PortRange \<Rightarrow> bool" where
  "port_in port r \<longleftrightarrow> port_first r \<le> port \<and> port \<le> port_last r"

definition pdr_matches :: "Pdr \<Rightarrow> Packet \<Rightarrow> bool" where
  "pdr_matches pdr packet \<longleftrightarrow>
     pdr_sourceInterface pdr = pkt_ingress packet \<and>
     (\<forall>teid. pdr_teid pdr = Some teid \<longrightarrow> (\<exists>t. pkt_tunnel packet = Some t \<and> tm_teid t = teid)) \<and>
     IpPrefix_contains (pdr_uePrefix pdr) (ue_address packet) \<and>
     (\<forall>p. pdr_protocol pdr = Some p \<longrightarrow> pkt_protocol packet = p) \<and>
     (\<forall>r. pdr_localPorts pdr = Some r \<longrightarrow> port_in (local_port packet) r) \<and>
     (\<forall>r. pdr_remotePorts pdr = Some r \<longrightarrow> port_in (remote_port packet) r) \<and>
     (\<forall>q. pdr_qfi pdr = Some q \<longrightarrow> (\<exists>t. pkt_tunnel packet = Some t \<and> tm_qfi t = q))"

lemma PortRange_contains_iff: "PortRange_contains r port \<longleftrightarrow> port_in port r"
  by (auto simp: PortRange_contains_def PortRange_valid_def port_in_def)

lemma by_ingress: "(if i = N3 then a else b) = (case i of N3 \<Rightarrow> a | N6 \<Rightarrow> b)"
  by (cases i) simp_all

lemma evaluateCandidate_id [simp]: "mc_pdrId (evaluateCandidate pl pdr packet) = id_value (pdr_id pdr)"
  by (simp add: evaluateCandidate_def Let_def)

lemma evaluateCandidate_precedence [simp]:
  "mc_precedence (evaluateCandidate pl pdr packet) = pdr_precedence pdr"
  by (simp add: evaluateCandidate_def Let_def)

lemma evaluateCandidate_matched [simp]:
  "mc_matched (evaluateCandidate pl pdr packet) \<longleftrightarrow> pdr_matches pdr packet"
  by (auto simp: evaluateCandidate_def Let_def pdr_matches_def ue_address_def local_port_def
      remote_port_def by_ingress PortRange_contains_iff split: option.splits)

text \<open>
  A candidate's verdict is explained by its criteria: it matches exactly when all seven
  criteria do, the criteria come in a fixed order, and a criterion the rule leaves open counts
  as matched.
\<close>

lemma evaluateCandidate_explained:
  "let c = evaluateCandidate pl pdr packet
   in (mc_matched c \<longleftrightarrow> (\<forall>r \<in> set (mc_criteria c). cr_matched r)) \<and>
      map cr_name (mc_criteria c) =
        [''ingress'', ''tunnel'', ''prefix'', ''protocol'', ''localPort'', ''remotePort'', ''qfi''] \<and>
      (\<forall>r \<in> set (mc_criteria c). \<not> cr_applicable r \<longrightarrow> cr_matched r)"
  by (simp add: evaluateCandidate_def Let_def criterion_def split: option.split)

section \<open>Overlap is sound\<close>

lemma ports_overlap:
  "(\<forall>r. a = Some r \<longrightarrow> port_in p r) \<Longrightarrow> (\<forall>r. b = Some r \<longrightarrow> port_in p r) \<Longrightarrow> rangesOverlap a b"
  by (auto simp: rangesOverlap_def port_in_def split: option.splits)

lemma matching_pdrs_overlap:
  assumes "pdr_matches a packet" "pdr_matches b packet"
    and "IpPrefix_wf (pdr_uePrefix a)" "IpPrefix_wf (pdr_uePrefix b)" "packet_wf packet"
  shows "matchSpacesOverlap a b"
proof -
  have ue: "IpAddress_wf (ue_address packet)"
    using assms(5) by (auto simp: ue_address_def packet_wf_def split: Interface.split)
  have prefixes: "IpPrefix_contains (pdr_uePrefix a) (network (pdr_uePrefix b)) \<or>
      IpPrefix_contains (pdr_uePrefix b) (network (pdr_uePrefix a))"
    using assms(1,2) by (intro contains_nested [OF assms(3,4) ue]) (simp_all add: pdr_matches_def)
  have opts: "optionalValuesOverlap (pdr_teid a) (pdr_teid b)"
    "optionalValuesOverlap (pdr_protocol a) (pdr_protocol b)"
    "optionalValuesOverlap (pdr_qfi a) (pdr_qfi b)"
    using assms(1,2) by (auto simp: optionalValuesOverlap_def pdr_matches_def split: option.splits)
  have ports: "rangesOverlap (pdr_localPorts a) (pdr_localPorts b)"
    "rangesOverlap (pdr_remotePorts a) (pdr_remotePorts b)"
    using assms(1,2) by (auto simp: pdr_matches_def intro: ports_overlap)
  show ?thesis
    using assms(1,2) prefixes opts ports by (simp add: matchSpacesOverlap_def pdr_matches_def)
qed

lemma matching_precedences:
  assumes "ruleset_valid rules" "prefixes_wf rules" "packet_wf packet"
    and "a \<in> set (rs_pdrs rules)" "b \<in> set (rs_pdrs rules)" "a \<noteq> b"
    and "pdr_matches a packet" "pdr_matches b packet"
  shows "pdr_precedence a \<noteq> pdr_precedence b"
proof -
  have "separated a b" by (rule valid_separated [OF assms(1,4-6)])
  moreover have "matchSpacesOverlap a b"
    using assms by (intro matching_pdrs_overlap) (auto simp: prefixes_wf_def)
  ultimately show ?thesis by (simp add: separated_def)
qed

text \<open>
  In a validated rule set two different PDRs that match the same packet have different
  precedences.
\<close>

lemma matching_precedences_differ:
  assumes "ruleset_valid rules" "prefixes_wf rules" "packet_wf packet"
    and "a \<in> set (rs_pdrs rules)" "b \<in> set (rs_pdrs rules)" "a \<noteq> b"
    and "pdr_matches a packet" "pdr_matches b packet"
  shows "pdr_precedence a \<noteq> pdr_precedence b"
  by (rule matching_precedences [OF assms])

section \<open>The selection loop\<close>

text \<open>One iteration: append the candidate, keep the first PDR of lowest precedence.\<close>

definition select_step ::
  "platform \<Rightarrow> Packet \<Rightarrow> MatchCandidate list \<times> Pdr option \<Rightarrow> Pdr \<Rightarrow> MatchCandidate list \<times> Pdr option"
where
  [model_defs]: "select_step pl packet acc pdr =
     (let (candidates, winner) = acc; candidate = evaluateCandidate pl pdr packet
      in (candidates @ [candidate],
          if mc_matched candidate \<and>
            (case winner of None \<Rightarrow> True | Some w \<Rightarrow> pdr_precedence pdr < pdr_precedence w)
          then Some pdr else winner))"

definition selectWinner :: "platform \<Rightarrow> Pdr list \<Rightarrow> Packet \<Rightarrow> MatchCandidate list \<times> Pdr option" where
  [model_defs]: "selectWinner pl pdrs packet = foldl (select_step pl packet) ([], None) pdrs"

text \<open>
  \<open>std::sort\<close> by identifier. Identifiers are distinct in an installed rule set, so the sorted
  permutation is unique and a stable sort gives the same list.
\<close>

definition sortCandidates :: "MatchCandidate list \<Rightarrow> MatchCandidate list" where
  [model_defs]: "sortCandidates cs = sort_key mc_pdrId cs"

text \<open>The reference the loop is compared with: the first of the matching PDRs of lowest precedence.\<close>

definition best_match :: "Packet \<Rightarrow> Pdr list \<Rightarrow> Pdr option" where
  "best_match packet pdrs = find (\<lambda>x. pdr_matches x packet \<and>
     (\<forall>y \<in> set pdrs. pdr_matches y packet \<longrightarrow> pdr_precedence x \<le> pdr_precedence y)) pdrs"

lemma best_match_SomeD:
  assumes "best_match packet pdrs = Some w"
  shows "w \<in> set pdrs" "pdr_matches w packet"
    "x \<in> set pdrs \<Longrightarrow> pdr_matches x packet \<Longrightarrow> pdr_precedence w \<le> pdr_precedence x"
  using find_Some_mem [OF assms [unfolded best_match_def]] by auto

lemma best_match_None:
  "best_match packet pdrs = None \<longleftrightarrow> (\<forall>x \<in> set pdrs. \<not> pdr_matches x packet)"
proof
  assume none: "best_match packet pdrs = None"
  let ?M = "{x \<in> set pdrs. pdr_matches x packet}"
  have "?M = {}"
  proof (rule ccontr)
    assume some: "?M \<noteq> {}"
    have "Min (pdr_precedence ` ?M) \<in> pdr_precedence ` ?M" using some by (intro Min_in) auto
    then obtain x where x: "x \<in> ?M" "pdr_precedence x = Min (pdr_precedence ` ?M)" by auto
    have "pdr_precedence x \<le> pdr_precedence y" if "y \<in> ?M" for y
      unfolding x(2) using that by (intro Min_le) auto
    then show False using none x(1) by (auto simp: best_match_def find_None_all)
  qed
  then show "\<forall>x \<in> set pdrs. \<not> pdr_matches x packet" by auto
qed (auto simp: best_match_def find_None_all)

lemma find_append_cases: "find P (xs @ ys) = (case find P xs of None \<Rightarrow> find P ys | Some x \<Rightarrow> Some x)"
  by (induction xs) auto

lemma best_match_snoc:
  "best_match packet (seen @ [pdr]) =
     (if pdr_matches pdr packet \<and>
        (case best_match packet seen of None \<Rightarrow> True | Some w \<Rightarrow> pdr_precedence pdr < pdr_precedence w)
      then Some pdr else best_match packet seen)"
proof (cases "best_match packet seen")
  case None
  then have "\<forall>x \<in> set seen. \<not> pdr_matches x packet" by (simp add: best_match_None)
  then show ?thesis using None
    by (auto simp: best_match_def find_append_cases split: option.split dest: find_Some_mem)
next
  case (Some w)
  note w = best_match_SomeD [OF Some]
  let ?P = "\<lambda>pdrs x. pdr_matches x packet \<and> (\<forall>y \<in> set pdrs. pdr_matches y packet \<longrightarrow> pdr_precedence x \<le> pdr_precedence y)"
  show ?thesis
  proof (cases "pdr_matches pdr packet \<and> pdr_precedence pdr < pdr_precedence w")
    case True
    then have "\<forall>x \<in> set seen. \<not> ?P (seen @ [pdr]) x" using w by fastforce
    then have none: "find (?P (seen @ [pdr])) seen = None" by (simp only: find_None_all)
    have "?P (seen @ [pdr]) pdr" using True w by fastforce
    then have "find (?P (seen @ [pdr])) (seen @ [pdr]) = Some pdr"
      unfolding find_append_cases none by simp
    then show ?thesis using True Some by (simp only: best_match_def) simp
  next
    case False
    then have "?P (seen @ [pdr]) x \<longleftrightarrow> ?P seen x" if "x \<in> set seen" for x
      using that w by (auto intro: order_trans)
    then have "find (?P (seen @ [pdr])) seen = find (?P seen) seen"
      by (intro find_cong) auto
    then have "find (?P (seen @ [pdr])) (seen @ [pdr]) = Some w"
      unfolding find_append_cases using Some by (simp add: best_match_def)
    then show ?thesis using False Some by (simp only: best_match_def) auto
  qed
qed

lemma select_step_candidates [simp]:
  "fst (select_step pl packet acc pdr) = fst acc @ [evaluateCandidate pl pdr packet]"
  by (simp add: select_step_def Let_def split: prod.split)

lemma select_step_winner:
  "snd acc = best_match packet seen \<Longrightarrow>
   snd (select_step pl packet acc pdr) = best_match packet (seen @ [pdr])"
  by (cases acc) (simp add: select_step_def best_match_snoc Let_def)

lemma select_loop:
  "snd acc = best_match packet seen \<Longrightarrow>
   fst (foldl (select_step pl packet) acc pdrs) =
     fst acc @ map (\<lambda>pdr. evaluateCandidate pl pdr packet) pdrs \<and>
   snd (foldl (select_step pl packet) acc pdrs) = best_match packet (seen @ pdrs)"
proof (induction pdrs arbitrary: acc seen)
  case (Cons pdr pdrs)
  from Cons.IH [OF select_step_winner [OF Cons.prems]] show ?case by simp
qed simp

lemma selectWinner_reference:
  "selectWinner pl pdrs packet =
     (map (\<lambda>pdr. evaluateCandidate pl pdr packet) pdrs, best_match packet pdrs)"
  using select_loop [of "([], None)" packet "[]" pl pdrs]
  by (auto simp: selectWinner_def best_match_def intro: prod_eqI)

text \<open>
  C12. The selection loop of \<open>process\<close> computes its reference: it evaluates every PDR in the order
  of the rule set, and its winner is the first of the matching PDRs of lowest precedence, with no
  winner when none matches.
\<close>

lemma selection_reference:
  "selectWinner pl pdrs packet =
    (map (\<lambda>pdr. evaluateCandidate pl pdr packet) pdrs, best_match packet pdrs)"
  by (rule selectWinner_reference)

lemma selectWinner_candidates:
  "fst (selectWinner pl pdrs packet) = map (\<lambda>pdr. evaluateCandidate pl pdr packet) pdrs"
  by (simp add: selectWinner_reference)

lemma selectWinner_None:
  "snd (selectWinner pl pdrs packet) = None \<longleftrightarrow> (\<forall>x \<in> set pdrs. \<not> pdr_matches x packet)"
  by (simp add: selectWinner_reference best_match_None)

lemma selectWinner_Some:
  assumes "snd (selectWinner pl pdrs packet) = Some w"
  shows "w \<in> set pdrs" "pdr_matches w packet"
    "x \<in> set pdrs \<Longrightarrow> pdr_matches x packet \<Longrightarrow> pdr_precedence w \<le> pdr_precedence x"
  using best_match_SomeD assms by (auto simp: selectWinner_reference)

lemma strict_minimum:
  assumes "ruleset_valid rules" "prefixes_wf rules" "packet_wf packet"
    and "snd (selectWinner pl (rs_pdrs rules) packet) = Some w"
  shows "pdr_matches w packet \<and>
    (\<forall>x \<in> set (rs_pdrs rules). pdr_matches x packet \<longrightarrow> x \<noteq> w \<longrightarrow> pdr_precedence w < pdr_precedence x)"
proof (intro conjI ballI impI)
  show "pdr_matches w packet" by (rule selectWinner_Some(2) [OF assms(4)])
  fix x assume x: "x \<in> set (rs_pdrs rules)" "pdr_matches x packet" "x \<noteq> w"
  have "pdr_precedence w \<noteq> pdr_precedence x"
    using x selectWinner_Some(1,2) [OF assms(4)]
    by (intro matching_precedences [OF assms(1-3)]) auto
  moreover have "pdr_precedence w \<le> pdr_precedence x"
    by (rule selectWinner_Some(3) [OF assms(4) x(1,2)])
  ultimately show "pdr_precedence w < pdr_precedence x" by simp
qed

text \<open>
  C14. The selected PDR of a validated rule set matches the packet and every other matching PDR
  has a strictly higher precedence value.
\<close>

lemma winner_strict_minimum:
  assumes "ruleset_valid rules" "prefixes_wf rules" "packet_wf packet"
    and "snd (selectWinner pl (rs_pdrs rules) packet) = Some w"
  shows "pdr_matches w packet \<and>
    (\<forall>x \<in> set (rs_pdrs rules). pdr_matches x packet \<longrightarrow> x \<noteq> w \<longrightarrow> pdr_precedence w < pdr_precedence x)"
  by (rule strict_minimum [OF assms])

lemma minimum_unique:
  assumes "\<And>x y. x \<in> S \<Longrightarrow> y \<in> S \<Longrightarrow> x \<noteq> y \<Longrightarrow> f x \<noteq> (f y :: 'k::linorder)"
    and "a \<in> S" "\<forall>x \<in> S. f a \<le> f x" "b \<in> S" "\<forall>x \<in> S. f b \<le> f x"
  shows "a = b"
  using assms by (metis order_antisym)

text \<open>
  C13. The outcome of matching does not depend on the order in which a validated rule set lists
  its PDRs: neither the winner nor the reported candidates change.
\<close>

lemma selection_order_independent:
  assumes "ruleset_valid rules" "prefixes_wf rules" "packet_wf packet"
    and perm: "mset pdrs = mset (rs_pdrs rules)"
  shows "snd (selectWinner pl pdrs packet) = snd (selectWinner pl (rs_pdrs rules) packet) \<and>
    sortCandidates (fst (selectWinner pl pdrs packet)) =
      sortCandidates (fst (selectWinner pl (rs_pdrs rules) packet))"
proof (rule conjI)
  have same: "set pdrs = set (rs_pdrs rules)" using perm by (metis set_mset_mset)
  let ?S = "{x \<in> set (rs_pdrs rules). pdr_matches x packet}"
  show "snd (selectWinner pl pdrs packet) = snd (selectWinner pl (rs_pdrs rules) packet)"
  proof (cases "snd (selectWinner pl pdrs packet)")
    case None
    then show ?thesis using same by (metis selectWinner_None)
  next
    case (Some w)
    then have "snd (selectWinner pl (rs_pdrs rules) packet) \<noteq> None"
      using same selectWinner_Some(1,2) [OF Some] by (auto simp: selectWinner_None)
    then obtain v where v: "snd (selectWinner pl (rs_pdrs rules) packet) = Some v" by blast
    have "w = v"
    proof (rule minimum_unique [where S = ?S and f = pdr_precedence])
      fix x y assume "x \<in> ?S" "y \<in> ?S" "x \<noteq> y"
      then show "pdr_precedence x \<noteq> pdr_precedence y"
        by (intro matching_precedences [OF assms(1-3)]) auto
    qed (use same selectWinner_Some [OF Some] selectWinner_Some [OF v] in auto)
    with Some v show ?thesis by simp
  qed
next
  let ?cs = "\<lambda>ps. map (\<lambda>pdr. evaluateCandidate pl pdr packet) ps"
  have keys: "distinct (map mc_pdrId (?cs (rs_pdrs rules)))"
    using assms(1) by (simp add: ruleset_valid_def uniqueIds_iff distinct_map inj_on_def RuleId.expand)
  show "sortCandidates (fst (selectWinner pl pdrs packet)) =
      sortCandidates (fst (selectWinner pl (rs_pdrs rules) packet))"
    unfolding sortCandidates_def selectWinner_candidates
    by (rule sorted_key_perm_unique [OF keys]) (simp_all add: perm)
qed

section \<open>Concrete instances\<close>

text \<open>The rule set of the \<open>pdr-precedence\<close> scenario: two matching PDRs, 100 and 200.\<close>

lemma ul2_valid: "ruleset_valid ul_rules2"
  using ul2_validates validateRuleSet_accepts by blast

lemma ul_pdr_matches: "pdr_matches ul_pdr ul_packet"
proof -
  have "mc_matched (evaluateCandidate dotted_platform ul_pdr ul_packet)"
    by (simp add: model_defs del: evaluateCandidate_matched)
  then show ?thesis by simp
qed

definition ul_pdr_low :: Pdr where
  "ul_pdr_low = ul_pdr\<lparr>pdr_id := RuleId 11, pdr_precedence := 200\<rparr>"

lemma ul_pdr_low_matches: "pdr_matches ul_pdr_low ul_packet"
  using ul_pdr_matches by (simp add: pdr_matches_def ul_pdr_low_def)

lemma ul2_pdrs: "rs_pdrs ul_rules2 = [ul_pdr, ul_pdr_low]"
  by (simp add: ul_rules2_def add_lowerPriority_def ul_rules_def ul_pdr_low_def)

lemma ul_pdr_neq: "ul_pdr \<noteq> ul_pdr_low"
  by (simp add: ul_pdr_low_def ul_pdr_def)

lemma ul2_winner: "snd (selectWinner pl (rs_pdrs ul_rules2) ul_packet) = Some ul_pdr"
  by (simp add: ul2_pdrs selectWinner_def select_step_def ul_pdr_matches ul_pdr_low_matches)
    (simp add: ul_pdr_low_def ul_pdr_def)

lemma matching_precedences_differ_witness: "pdr_precedence ul_pdr \<noteq> pdr_precedence ul_pdr_low"
  by (rule matching_precedences_differ
      [OF ul2_valid ul_prefixes_wf(2) ul_packet_wf _ _ ul_pdr_neq ul_pdr_matches ul_pdr_low_matches])
    (simp_all add: ul2_pdrs)

lemma winner_strict_minimum_witness:
  "pdr_matches ul_pdr ul_packet \<and> pdr_precedence ul_pdr < pdr_precedence ul_pdr_low"
  using winner_strict_minimum
    [OF ul2_valid ul_prefixes_wf(2) ul_packet_wf ul2_winner [of dotted_platform]]
    ul_pdr_low_matches ul_pdr_neq by (auto simp: ul2_pdrs)

lemma selection_order_independent_witness:
  "snd (selectWinner dotted_platform [ul_pdr_low, ul_pdr] ul_packet) = Some ul_pdr"
  using selection_order_independent
    [OF ul2_valid ul_prefixes_wf(2) ul_packet_wf, of "[ul_pdr_low, ul_pdr]" dotted_platform]
  by (simp add: ul2_winner) (simp add: ul2_pdrs)

end
