(* ===== verification/Runtime_State.thy ===== *)
theory Runtime_State
  imports Rule_Model
begin

text \<open>
  \<open>include/upf/domain/runtime_state.hpp\<close>: the mutable state beside the immutable rules. Each
  \<open>std::map\<close> from a rule identifier is a partial function from its 32-bit value.
\<close>

record TokenBucketState =
  tb_tokensBytes :: u64
  tb_lastRefillMicros :: u64
  tb_remainderBitMicros :: u64

definition TokenBucketState_new :: TokenBucketState where
  [model_defs]: "TokenBucketState_new =
     \<lparr>tb_tokensBytes = 0, tb_lastRefillMicros = 0, tb_remainderBitMicros = 0\<rparr>"

record UsageCounterState =
  uc_packets :: u64
  uc_payloadBytes :: u64
  uc_reportEmitted :: bool

definition UsageCounterState_new :: UsageCounterState where
  [model_defs]: "UsageCounterState_new =
     \<lparr>uc_packets = 0, uc_payloadBytes = 0, uc_reportEmitted = False\<rparr>"

record RuntimeState =
  rt_qers :: "u32 \<rightharpoonup> TokenBucketState"
  rt_urrs :: "u32 \<rightharpoonup> UsageCounterState"
  rt_qerGenerations :: "u32 \<rightharpoonup> u32"
  rt_urrGenerations :: "u32 \<rightharpoonup> u32"

definition RuntimeState_new :: RuntimeState where
  [model_defs]: "RuntimeState_new =
     \<lparr>rt_qers = Map.empty, rt_urrs = Map.empty, rt_qerGenerations = Map.empty,
      rt_urrGenerations = Map.empty\<rparr>"

lemma RuntimeState_new_maps [simp]:
  "rt_qers RuntimeState_new = Map.empty" "rt_urrs RuntimeState_new = Map.empty"
  "rt_qerGenerations RuntimeState_new = Map.empty" "rt_urrGenerations RuntimeState_new = Map.empty"
  by (simp_all add: RuntimeState_new_def)

end
