(* ===== verification/Qer_Engine.thy ===== *)
theory Qer_Engine
  imports Decisions Runtime_State Fixtures
begin

text \<open>
  \<open>src/domain/qer.cpp\<close>: the gate and the integer token bucket.

  The specification \<open>qer_spec\<close> is a token bucket over natural numbers whose only failures are
  a closed gate, time running backwards and a product that leaves 64 bits;
  \<open>evaluateQer_spec\<close> says that the 64-bit code computes exactly that. The bucket's
  potential, tokens in bit-microseconds plus the remainder, then gives the rate bound for
  sequences of packets.
\<close>

section \<open>The code\<close>

record QerEvaluation =
  qe_decision :: QerDecision
  qe_next :: TokenBucketState
  qe_failure :: TerminalResult

definition evaluateQer :: "Qer \<Rightarrow> TokenBucketState \<Rightarrow> u64 \<Rightarrow> u64 \<Rightarrow> QerEvaluation" where
  [model_defs]: "evaluateQer qer current packetBytes nowMicros =
     (let decision = QerDecision_new\<lparr>qd_applicable := True, qd_qerId := id_value (qer_id qer),
            qd_gate := qer_gate qer, qd_tokensBefore := tb_tokensBytes current,
            qd_packetChargeBytes := packetBytes, qd_tokensAfter := tb_tokensBytes current\<rparr>;
          arithmetic_error = \<lparr>qe_decision = decision\<lparr>qd_outcome := ''ARITHMETIC_ERROR''\<rparr>,
            qe_next = current, qe_failure = ARITHMETIC_ERROR\<rparr>
      in if qer_gate qer = CLOSED
         then \<lparr>qe_decision = decision\<lparr>qd_outcome := ''GATE_CLOSED''\<rparr>, qe_next = current,
               qe_failure = GATE_CLOSED\<rparr>
         else if nowMicros < tb_lastRefillMicros current then arithmetic_error
         else let elapsed = nowMicros - tb_lastRefillMicros current
           in case checkedMultiply elapsed (qer_rateBitsPerSecond qer) of
                None \<Rightarrow> arithmetic_error
              | Some product \<Rightarrow>
                  (case checkedAdd product (tb_remainderBitMicros current) of
                     None \<Rightarrow> arithmetic_error
                   | Some numerator \<Rightarrow>
                       (let refill = numerator div 8000000;
                            room = (if qer_burstBytes qer > tb_tokensBytes current
                              then qer_burstBytes qer - tb_tokensBytes current else 0);
                            added = min room refill;
                            tokens = tb_tokensBytes current + added;
                            next = \<lparr>tb_tokensBytes = tokens, tb_lastRefillMicros = nowMicros,
                              tb_remainderBitMicros = numerator mod 8000000\<rparr>;
                            decision = decision\<lparr>qd_refillBytes := refill\<rparr>
                        in if packetBytes > tokens
                           then \<lparr>qe_decision = decision\<lparr>qd_tokensAfter := tokens,
                                   qd_outcome := ''RATE_LIMITED''\<rparr>,
                                 qe_next = next, qe_failure = RATE_LIMITED\<rparr>
                           else \<lparr>qe_decision = decision\<lparr>qd_tokensAfter := tokens - packetBytes,
                                   qd_allowed := True, qd_outcome := ''ALLOW''\<rparr>,
                                 qe_next = next\<lparr>tb_tokensBytes := tokens - packetBytes\<rparr>,
                                 qe_failure = RATE_LIMITED\<rparr>)))"

section \<open>The specification over natural numbers\<close>

record bucket =
  b_tokens :: nat
  b_last :: nat
  b_rem :: nat

definition abs_bucket :: "TokenBucketState \<Rightarrow> bucket" where
  "abs_bucket s = \<lparr>b_tokens = unat (tb_tokensBytes s), b_last = unat (tb_lastRefillMicros s),
     b_rem = unat (tb_remainderBitMicros s)\<rparr>"

datatype verdict = Closed | Arithmetic | Limited | Allowed

definition refill_numerator :: "nat \<Rightarrow> bucket \<Rightarrow> nat \<Rightarrow> nat" where
  "refill_numerator rate b now = (now - b_last b) * rate + b_rem b"

definition refilled :: "nat \<Rightarrow> nat \<Rightarrow> bucket \<Rightarrow> nat \<Rightarrow> bucket" where
  "refilled rate burst b now =
     \<lparr>b_tokens = max (b_tokens b) (min burst (b_tokens b + refill_numerator rate b now div 8000000)),
      b_last = now, b_rem = refill_numerator rate b now mod 8000000\<rparr>"

definition qer_spec ::
  "GateStatus \<Rightarrow> nat \<Rightarrow> nat \<Rightarrow> bucket \<Rightarrow> nat \<Rightarrow> nat \<Rightarrow> verdict \<times> bucket"
where
  "qer_spec gate rate burst b charge now =
     (if gate = CLOSED then (Closed, b)
      else if now < b_last b \<or> 2 ^ 64 \<le> refill_numerator rate b now then (Arithmetic, b)
      else let b' = refilled rate burst b now
           in if b_tokens b' < charge then (Limited, b')
              else (Allowed, b'\<lparr>b_tokens := b_tokens b' - charge\<rparr>))"

fun verdict_of :: "bool \<Rightarrow> TerminalResult \<Rightarrow> verdict" where
  "verdict_of True _ = Allowed"
| "verdict_of False GATE_CLOSED = Closed"
| "verdict_of False RATE_LIMITED = Limited"
| "verdict_of False _ = Arithmetic"

definition abs_qer :: "QerEvaluation \<Rightarrow> verdict \<times> bucket" where
  "abs_qer e = (verdict_of (qd_allowed (qe_decision e)) (qe_failure e), abs_bucket (qe_next e))"

section \<open>Refinement\<close>

lemma unat_min: "unat (min a b) = min (unat a) (unat (b :: 'a::len word))"
  by (simp add: min_def word_nat)

lemma unat_div_8000000: "unat ((n :: u64) div 8000000) = unat n div 8000000"
  by (simp add: unat_div)

lemma unat_mod_8000000: "unat ((n :: u64) mod 8000000) = unat n mod 8000000"
  by (simp add: unat_mod)

lemma added_tokens:
  fixes tokens burst r :: u64
  shows "unat (tokens + min (if burst > tokens then burst - tokens else 0) r) =
    max (unat tokens) (min (unat burst) (unat tokens + unat r))"
proof (cases "burst > tokens")
  case True
  let ?added = "min (burst - tokens) r"
  have room: "unat (burst - tokens) = unat burst - unat tokens"
    using True by (simp add: unat_minus_le)
  have added: "unat ?added = min (unat burst - unat tokens) (unat r)"
    by (simp only: unat_min room)
  have "unat tokens < unat burst" using True by (simp add: word_nat)
  then have "unat tokens + unat ?added < 2 ^ 64"
    using unat_u64_bound [of burst] added by linarith
  from unat_add_exact [OF this] have "unat (tokens + ?added) =
      unat tokens + min (unat burst - unat tokens) (unat r)"
    using added by simp
  with True \<open>unat tokens < unat burst\<close> show ?thesis by (auto simp: min_def max_def)
next
  case False
  then show ?thesis by (simp add: word_nat min_def max_def)
qed

lemma numerator_overflows:
  assumes "\<not> now < tb_lastRefillMicros s"
  shows "(case checkedMultiply (now - tb_lastRefillMicros s) rate of None \<Rightarrow> None
     | Some product \<Rightarrow> checkedAdd product (tb_remainderBitMicros s)) = None \<longleftrightarrow>
   2 ^ 64 \<le> refill_numerator (unat rate) (abs_bucket s) (unat now)"
proof -
  have "unat (now - tb_lastRefillMicros s) = unat now - unat (tb_lastRefillMicros s)"
    using assms by (simp add: unat_minus_le)
  then show ?thesis
    by (auto simp: refill_numerator_def abs_bucket_def checkedMultiply_None checkedAdd_None
        checkedMultiply_Some split: option.split)
qed

lemma numerator_value:
  assumes "\<not> now < tb_lastRefillMicros s"
    and "checkedMultiply (now - tb_lastRefillMicros s) rate = Some product"
    and "checkedAdd product (tb_remainderBitMicros s) = Some n"
  shows "unat n = refill_numerator (unat rate) (abs_bucket s) (unat now)"
  using assms by (simp add: refill_numerator_def abs_bucket_def checkedMultiply_Some
      checkedAdd_Some unat_minus_le)

text \<open>The two ways through the function once the gate is open and time is monotone.\<close>

lemma evaluateQer_early:
  assumes "qer_gate qer = CLOSED \<or> now < tb_lastRefillMicros s"
  shows "abs_qer (evaluateQer qer s charge now) =
    (if qer_gate qer = CLOSED then Closed else Arithmetic, abs_bucket s)"
  using assms by (auto simp: evaluateQer_def Let_def abs_qer_def QerDecision_new_def)

lemma evaluateQer_overflow:
  assumes "qer_gate qer \<noteq> CLOSED" "\<not> now < tb_lastRefillMicros s"
    "(case checkedMultiply (now - tb_lastRefillMicros s) (qer_rateBitsPerSecond qer) of None \<Rightarrow> None
      | Some product \<Rightarrow> checkedAdd product (tb_remainderBitMicros s)) = None"
  shows "abs_qer (evaluateQer qer s charge now) = (Arithmetic, abs_bucket s)"
  using assms by (auto simp: evaluateQer_def Let_def abs_qer_def QerDecision_new_def
      split: option.splits)

lemma evaluateQer_refilled:
  fixes qer s charge now n
  defines "T \<equiv> tb_tokensBytes s + min (if qer_burstBytes qer > tb_tokensBytes s
      then qer_burstBytes qer - tb_tokensBytes s else 0) (n div 8000000)"
  assumes "qer_gate qer \<noteq> CLOSED" "\<not> now < tb_lastRefillMicros s"
    "checkedMultiply (now - tb_lastRefillMicros s) (qer_rateBitsPerSecond qer) = Some product"
    "checkedAdd product (tb_remainderBitMicros s) = Some n"
  shows "qd_allowed (qe_decision (evaluateQer qer s charge now)) = (charge \<le> T)"
    "qe_failure (evaluateQer qer s charge now) = RATE_LIMITED"
    "qe_next (evaluateQer qer s charge now) =
      \<lparr>tb_tokensBytes = (if charge \<le> T then T - charge else T), tb_lastRefillMicros = now,
       tb_remainderBitMicros = n mod 8000000\<rparr>"
proof -
  have order: "T < charge \<longleftrightarrow> \<not> charge \<le> T" by auto
  show "qd_allowed (qe_decision (evaluateQer qer s charge now)) = (charge \<le> T)"
    "qe_failure (evaluateQer qer s charge now) = RATE_LIMITED"
    "qe_next (evaluateQer qer s charge now) =
      \<lparr>tb_tokensBytes = (if charge \<le> T then T - charge else T), tb_lastRefillMicros = now,
       tb_remainderBitMicros = n mod 8000000\<rparr>"
    using assms(2-)
    by (simp_all add: evaluateQer_def Let_def QerDecision_new_def T_def [symmetric] order)
qed

lemma evaluateQer_spec:
  "abs_qer (evaluateQer qer s charge now) =
     qer_spec (qer_gate qer) (unat (qer_rateBitsPerSecond qer)) (unat (qer_burstBytes qer))
       (abs_bucket s) (unat charge) (unat now)"
proof (cases "qer_gate qer = CLOSED \<or> now < tb_lastRefillMicros s")
  case True
  then show ?thesis
    by (auto simp: evaluateQer_early qer_spec_def abs_bucket_def word_nat)
next
  case False
  then have monotone: "\<not> unat now < b_last (abs_bucket s)"
    by (simp add: abs_bucket_def word_nat)
  let ?num = "refill_numerator (unat (qer_rateBitsPerSecond qer)) (abs_bucket s) (unat now)"
  show ?thesis
  proof (cases "case checkedMultiply (now - tb_lastRefillMicros s) (qer_rateBitsPerSecond qer) of
      None \<Rightarrow> None | Some product \<Rightarrow> checkedAdd product (tb_remainderBitMicros s)")
    case None
    then have "2 ^ 64 \<le> ?num" using numerator_overflows False by blast
    then show ?thesis
      using False None by (simp add: evaluateQer_overflow qer_spec_def)
  next
    case (Some n)
    then obtain product where
      p: "checkedMultiply (now - tb_lastRefillMicros s) (qer_rateBitsPerSecond qer) = Some product"
      and n: "checkedAdd product (tb_remainderBitMicros s) = Some n"
      by (auto split: option.splits)
    have num: "unat n = ?num" using False p n by (intro numerator_value) auto
    then have fits: "\<not> 2 ^ 64 \<le> ?num" using unat_u64_bound [of n] by simp
    define T where "T = tb_tokensBytes s + min (if qer_burstBytes qer > tb_tokensBytes s
      then qer_burstBytes qer - tb_tokensBytes s else 0) (n div 8000000)"
    have T: "unat T = b_tokens (refilled (unat (qer_rateBitsPerSecond qer))
        (unat (qer_burstBytes qer)) (abs_bucket s) (unat now))"
      by (simp add: T_def added_tokens unat_div_8000000 num refilled_def) (simp add: abs_bucket_def)
    note code = evaluateQer_refilled [OF _ _ p n, of charge, folded T_def]
    show ?thesis
      using False fits monotone T
      by (auto simp: abs_qer_def code qer_spec_def Let_def word_le_nat_alt abs_bucket_def
          unat_minus_le unat_mod_8000000 num refilled_def)
  qed
qed

text \<open>
  C15. The 64-bit token bucket of \<open>evaluateQer\<close> refines the one over natural numbers: same
  verdict and same next state on every input, overflow and time regression included.
\<close>

lemma evaluateQer_refines:
  "abs_qer (evaluateQer qer s charge now) =
     qer_spec (qer_gate qer) (unat (qer_rateBitsPerSecond qer)) (unat (qer_burstBytes qer))
       (abs_bucket s) (unat charge) (unat now)"
  by (rule evaluateQer_spec)

section \<open>Rate, burst and drift\<close>

text \<open>Tokens and remainder on one scale: 8000000 bit-microseconds make a byte.\<close>

definition potential :: "bucket \<Rightarrow> nat" where
  "potential b = 8000000 * b_tokens b + b_rem b"

lemma refilled_potential:
  "potential (refilled rate burst b now) \<le> potential b + (now - b_last b) * rate"
proof -
  let ?num = "refill_numerator rate b now"
  have "b_tokens (refilled rate burst b now) \<le> b_tokens b + ?num div 8000000"
    by (auto simp: refilled_def)
  then have "8000000 * b_tokens (refilled rate burst b now) \<le>
      8000000 * b_tokens b + 8000000 * (?num div 8000000)"
    by linarith
  moreover have "b_rem (refilled rate burst b now) = ?num mod 8000000"
    by (simp add: refilled_def)
  moreover have "8000000 * (?num div 8000000) + ?num mod 8000000 = (now - b_last b) * rate + b_rem b"
    by (simp add: refill_numerator_def)
  ultimately show ?thesis unfolding potential_def by linarith
qed

lemma refilled_last [simp]: "b_last (refilled rate burst b now) = now"
  by (simp add: refilled_def)

lemma refilled_tokens: "b_tokens (refilled rate burst b now) \<le> max (b_tokens b) burst"
  by (auto simp: refilled_def)

lemma potential_charge:
  "charge \<le> b_tokens b \<Longrightarrow>
   8000000 * charge + potential (b\<lparr>b_tokens := b_tokens b - charge\<rparr>) = potential b"
  by (simp add: potential_def)

definition charged :: "verdict \<Rightarrow> nat \<Rightarrow> nat" where
  "charged v charge = (if v = Allowed then charge else 0)"

lemma qer_spec_step:
  assumes "qer_spec gate rate burst b charge now = (v, b')"
  shows "b_last b \<le> b_last b'"
    "8000000 * charged v charge + potential b' \<le> potential b + (b_last b' - b_last b) * rate"
    "b_tokens b' \<le> max (b_tokens b) burst"
  using assms refilled_potential [of rate burst b now] refilled_tokens [of rate burst b now]
  by (auto simp: qer_spec_def Let_def charged_def potential_charge split: if_splits)

text \<open>
  A sequence of packets against one bucket. The pipeline stores \<open>next\<close> after an allowed and
  after a rate-limited packet; on the other verdicts \<open>next\<close> is the unchanged state.
\<close>

fun qer_run :: "Qer \<Rightarrow> TokenBucketState \<Rightarrow> (u64 \<times> u64) list \<Rightarrow> (verdict \<times> u64) list \<times> TokenBucketState"
where
  "qer_run qer s [] = ([], s)"
| "qer_run qer s ((charge, now) # packets) =
     (let e = evaluateQer qer s charge now; (vs, t) = qer_run qer (qe_next e) packets
      in ((fst (abs_qer e), charge) # vs, t))"

definition admitted :: "(verdict \<times> u64) list \<Rightarrow> nat" where
  "admitted vs = sum_list (map (\<lambda>(v, charge). charged v (unat charge)) vs)"

lemma evaluateQer_step:
  defines "b \<equiv> \<lambda>s. abs_bucket s"
  shows "b_last (b s) \<le> b_last (b (qe_next (evaluateQer qer s charge now)))"
    "8000000 * charged (fst (abs_qer (evaluateQer qer s charge now))) (unat charge) +
       potential (b (qe_next (evaluateQer qer s charge now))) \<le>
     potential (b s) + (b_last (b (qe_next (evaluateQer qer s charge now))) - b_last (b s)) *
       unat (qer_rateBitsPerSecond qer)"
    "b_tokens (b (qe_next (evaluateQer qer s charge now))) \<le>
       max (b_tokens (b s)) (unat (qer_burstBytes qer))"
proof -
  have "qer_spec (qer_gate qer) (unat (qer_rateBitsPerSecond qer)) (unat (qer_burstBytes qer))
      (abs_bucket s) (unat charge) (unat now) =
    (fst (abs_qer (evaluateQer qer s charge now)), abs_bucket (qe_next (evaluateQer qer s charge now)))"
    by (simp add: evaluateQer_spec [symmetric] abs_qer_def)
  note step = qer_spec_step [OF this]
  show "b_last (b s) \<le> b_last (b (qe_next (evaluateQer qer s charge now)))"
    "8000000 * charged (fst (abs_qer (evaluateQer qer s charge now))) (unat charge) +
       potential (b (qe_next (evaluateQer qer s charge now))) \<le>
     potential (b s) + (b_last (b (qe_next (evaluateQer qer s charge now))) - b_last (b s)) *
       unat (qer_rateBitsPerSecond qer)"
    "b_tokens (b (qe_next (evaluateQer qer s charge now))) \<le>
       max (b_tokens (b s)) (unat (qer_burstBytes qer))"
    unfolding b_def by (rule step)+
qed

lemma qer_run_potential:
  "qer_run qer s packets = (vs, t) \<Longrightarrow> b_last (abs_bucket s) \<le> b_last (abs_bucket t) \<and>
     8000000 * admitted vs + potential (abs_bucket t) \<le> potential (abs_bucket s) +
       (b_last (abs_bucket t) - b_last (abs_bucket s)) * unat (qer_rateBitsPerSecond qer)"
proof (induction qer s packets arbitrary: vs t rule: qer_run.induct)
  case (1 qer s)
  then show ?case by (simp add: admitted_def)
next
  case (2 qer s charge now packets)
  define e where "e = evaluateQer qer s charge now"
  define n where "n = qe_next e"
  obtain vs' where rest: "qer_run qer n packets = (vs', t)"
    and vs: "vs = (fst (abs_qer e), charge) # vs'"
    using "2.prems" by (auto simp: Let_def e_def n_def split: prod.splits)
  note IH = "2.IH" [OF e_def rest [unfolded n_def]]
  note step = evaluateQer_step [where qer = qer and s = s and charge = charge and now = now,
      folded e_def, folded n_def]
  let ?r = "unat (qer_rateBitsPerSecond qer)"
  have "(b_last (abs_bucket n) - b_last (abs_bucket s)) * ?r +
      (b_last (abs_bucket t) - b_last (abs_bucket n)) * ?r =
      (b_last (abs_bucket t) - b_last (abs_bucket s)) * ?r"
    using step(1) IH by (simp add: n_def flip: distrib_right)
  moreover have "admitted vs = charged (fst (abs_qer e)) (unat charge) + admitted vs'"
    by (simp add: vs admitted_def)
  ultimately show ?case
    using step(1,2) IH by (simp add: n_def)
qed

text \<open>
  The rate bound of a token bucket: whatever packets arrive, the bytes a QER admits stay
  within the tokens it started with plus the configured rate times the simulated time that
  passed (8000000 bit-microseconds per byte).
\<close>

lemma qer_run_rate_bound:
  "8000000 * admitted (fst (qer_run qer s packets)) \<le> potential (abs_bucket s) +
     (b_last (abs_bucket (snd (qer_run qer s packets))) - b_last (abs_bucket s)) *
       unat (qer_rateBitsPerSecond qer)"
  using qer_run_potential [of qer s packets] by (cases "qer_run qer s packets") simp

text \<open>
  The bucket never holds more than the configured burst, once it starts within it.
\<close>

lemma qer_run_burst_bound:
  "unat (tb_tokensBytes (snd (qer_run qer s packets))) \<le>
     max (unat (tb_tokensBytes s)) (unat (qer_burstBytes qer))"
proof (induction qer s packets rule: qer_run.induct)
  case (2 qer s charge now packets)
  define e where "e = evaluateQer qer s charge now"
  have "unat (tb_tokensBytes (qe_next e)) \<le> max (unat (tb_tokensBytes s)) (unat (qer_burstBytes qer))"
    using evaluateQer_step(3) [of qer s charge now] by (simp add: e_def abs_bucket_def)
  with "2.IH" [OF e_def] show ?case
    by (auto simp: Let_def e_def split: prod.split)
qed simp

text \<open>
  A QER without burst never holds a token, so only packets without payload can pass it; those do
  pass an open gate.
\<close>

lemma zero_burst:
  assumes "qer_burstBytes qer = 0" "tb_tokensBytes s = 0"
  shows "tb_tokensBytes (qe_next (evaluateQer qer s charge now)) = 0"
    "qd_allowed (qe_decision (evaluateQer qer s charge now)) \<Longrightarrow> charge = 0"
  using assms by (auto simp: evaluateQer_def QerDecision_new_def Let_def word_gt_0 split: option.splits if_splits)

lemma zero_burst_empty_payload:
  assumes "qer_burstBytes qer = 0" "tb_tokensBytes s = 0" "qer_gate qer = OPEN" "tb_lastRefillMicros s = now"
  shows "qd_allowed (qe_decision (evaluateQer qer s 0 now))"
  using assms by (auto simp: evaluateQer_def QerDecision_new_def checkedMultiply_def checkedAdd_def Let_def
      word_n1_ge not_less split: option.splits if_splits)

text \<open>Refilling in two steps or in one gives the same bucket: no fraction is lost.\<close>

lemma numerator_split:
  assumes "b_last b \<le> t" "t \<le> u"
  shows "refill_numerator rate b u =
    8000000 * (refill_numerator rate b t div 8000000) +
      ((u - t) * rate + refill_numerator rate b t mod 8000000)"
proof -
  have "(u - b_last b) * rate = (t - b_last b) * rate + (u - t) * rate"
    using assms by (simp flip: distrib_right)
  then show ?thesis by (simp add: refill_numerator_def)
qed

lemma refilled_twice:
  assumes "b_last b \<le> t" "t \<le> u"
  shows "refilled rate burst (refilled rate burst b t) u = refilled rate burst b u"
proof -
  define q where "q = refill_numerator rate b t div 8000000"
  define r where "r = (u - t) * rate + refill_numerator rate b t mod 8000000"
  have once: "refill_numerator rate b u = 8000000 * q + r"
    using numerator_split [OF assms] by (simp add: q_def r_def)
  have twice: "refill_numerator rate (refilled rate burst b t) u = r"
    by (simp add: refill_numerator_def refilled_def r_def)
  have tokens: "max (max k (min burst (k + q))) (min burst (max k (min burst (k + q)) + r div 8000000)) =
      max k (min burst (k + (q + r div 8000000)))" for k
    by (simp add: min_def max_def)
  have "b_tokens (refilled rate burst b t) = max (b_tokens b) (min burst (b_tokens b + q))"
    by (simp add: refilled_def q_def)
  then show ?thesis
    using tokens [of "b_tokens b"] by (simp add: refilled_def [of _ _ _ u] once twice)
qed

lemma numerator_mono: "t \<le> u \<Longrightarrow> refill_numerator rate b t \<le> refill_numerator rate b u"
  by (simp add: refill_numerator_def diff_le_mono)

lemma numerator_after_refill:
  assumes "b_last b \<le> t" "t \<le> u"
  shows "refill_numerator rate (refilled rate burst b t) u \<le> refill_numerator rate b u"
  using numerator_split [OF assms] by (simp add: refilled_def refill_numerator_def)

text \<open>
  C16. Refill is exact: evaluating the bucket at an intermediate time with an empty packet does
  not change what a later packet sees, as long as the whole interval is within 64 bits.
\<close>

lemma evaluateQer_no_drift:
  assumes "qer_gate qer = OPEN" "tb_lastRefillMicros s \<le> t" "t \<le> u"
    and "refill_numerator (unat (qer_rateBitsPerSecond qer)) (abs_bucket s) (unat u) < 2 ^ 64"
  shows "abs_qer (evaluateQer qer (qe_next (evaluateQer qer s 0 t)) charge u) =
    abs_qer (evaluateQer qer s charge u)"
proof -
  let ?rate = "unat (qer_rateBitsPerSecond qer)" and ?burst = "unat (qer_burstBytes qer)"
  let ?b = "abs_bucket s"
  have order: "b_last ?b \<le> unat t" "unat t \<le> unat u"
    using assms(2,3) by (simp_all add: abs_bucket_def word_nat)
  have fits: "refill_numerator ?rate ?b (unat t) < 2 ^ 64"
    using numerator_mono [OF order(2), of ?rate ?b] assms(4) by linarith
  have fits': "refill_numerator ?rate (refilled ?rate ?burst ?b (unat t)) (unat u) < 2 ^ 64"
    using numerator_after_refill [OF order, of ?rate ?burst] assms(4) by linarith
  have probe: "abs_bucket (qe_next (evaluateQer qer s 0 t)) = refilled ?rate ?burst ?b (unat t)"
    using evaluateQer_spec [of qer s 0 t] assms(1) order(1) fits
    by (simp add: abs_qer_def qer_spec_def Let_def)
  show ?thesis
    using assms(1,4) order fits'
    by (simp add: evaluateQer_spec probe qer_spec_def Let_def refilled_twice [OF order])
qed


section \<open>Concrete instances\<close>

definition ul_bucket :: TokenBucketState where
  [model_defs]: "ul_bucket = TokenBucketState_new\<lparr>tb_tokensBytes := 20000\<rparr>"

lemma evaluateQer_no_drift_witness:
  "abs_qer (evaluateQer ul_qer (qe_next (evaluateQer ul_qer ul_bucket 0 3)) 1200 7) =
     abs_qer (evaluateQer ul_qer ul_bucket 1200 7)"
  by (rule evaluateQer_no_drift) (simp_all add: model_defs refill_numerator_def abs_bucket_def)


end
