(* ===== verification/Far_Engine.thy ===== *)
theory Far_Engine
  imports Fixtures
begin

text \<open>
  \<open>src/domain/far.cpp\<close>: forwarding. A FAR is applicable in one direction only; on the uplink
  it strips the tunnel, on the downlink it sets the configured one.
\<close>

record FarEvaluation =
  fe_valid :: bool
  fe_forwarded :: bool
  fe_destination :: Interface
  fe_packet :: Packet

definition evaluateFar :: "Far \<Rightarrow> Packet \<Rightarrow> FarEvaluation" where
  [model_defs]: "evaluateFar far packet =
     (let result = \<lparr>fe_valid = False, fe_forwarded = False, fe_destination = N6, fe_packet = packet\<rparr>
      in if far_action far = DROP
         then result\<lparr>fe_valid := far_destination far = None \<and> far_operation far = TUNNEL_NONE\<rparr>
         else (case far_destination far of
             None \<Rightarrow> result
           | Some destination \<Rightarrow>
               (let result = result\<lparr>fe_destination := destination\<rparr>
                in if pkt_ingress packet = N3 \<and> destination = N6 \<and> far_operation far = REMOVE
                   then result\<lparr>fe_packet := packet\<lparr>pkt_tunnel := None\<rparr>, fe_valid := True,
                     fe_forwarded := True\<rparr>
                   else if pkt_ingress packet = N6 \<and> destination = N3 \<and> far_operation far = ADD \<and>
                     far_tunnel far \<noteq> None
                   then result\<lparr>fe_packet := packet\<lparr>pkt_tunnel := far_tunnel far\<rparr>, fe_valid := True,
                     fe_forwarded := True\<rparr>
                   else result)))"

definition opposite :: "Interface \<Rightarrow> Interface" where
  "opposite i = (case i of N3 \<Rightarrow> N6 | N6 \<Rightarrow> N3)"

lemma evaluateFar_valid:
  "fe_valid (evaluateFar far packet) \<longleftrightarrow>
     (if far_action far = DROP then far_destination far = None \<and> far_operation far = TUNNEL_NONE
      else fe_forwarded (evaluateFar far packet))"
  by (simp add: evaluateFar_def Let_def split: option.split)

lemma evaluateFar_forwarded:
  "fe_forwarded (evaluateFar far packet) \<longleftrightarrow>
     far_action far = FORWARD \<and> far_destination far = Some (opposite (pkt_ingress packet)) \<and>
     (case pkt_ingress packet of
        N3 \<Rightarrow> far_operation far = REMOVE
      | N6 \<Rightarrow> far_operation far = ADD \<and> far_tunnel far \<noteq> None)"
  by (auto simp: evaluateFar_def Let_def opposite_def FarAction_other split: option.split Interface.split)

lemma evaluateFar_forwarding:
  assumes "fe_forwarded (evaluateFar far packet)"
  shows "fe_destination (evaluateFar far packet) = opposite (pkt_ingress packet)"
    "fe_packet (evaluateFar far packet) =
      packet\<lparr>pkt_tunnel := (case pkt_ingress packet of N3 \<Rightarrow> None | N6 \<Rightarrow> far_tunnel far)\<rparr>"
  using assms
  by (auto simp: evaluateFar_def Let_def opposite_def split: option.splits if_splits)

text \<open>
  Forwarding sends the packet to the other interface and changes nothing of it but the
  tunnel: an uplink packet loses its metadata, a downlink packet gets the FAR's; a FAR that does
  not forward leaves the packet as it came.
\<close>

lemma evaluateFar_effect:
  "fe_packet (evaluateFar far packet) =
     (if fe_forwarded (evaluateFar far packet)
      then packet\<lparr>pkt_tunnel := (case pkt_ingress packet of N3 \<Rightarrow> None | N6 \<Rightarrow> far_tunnel far)\<rparr>
      else packet) \<and>
   (fe_forwarded (evaluateFar far packet) \<longrightarrow>
      fe_destination (evaluateFar far packet) = opposite (pkt_ingress packet))"
  by (auto simp: evaluateFar_def Let_def opposite_def split: option.split Interface.split)

lemma evaluateFar_destination_of_drop:
  "far_action far = DROP \<Longrightarrow> fe_destination (evaluateFar far packet) = N6"
  by (simp add: evaluateFar_def Let_def)

text \<open>
  A FAR that fits a PDR of the packet's direction is always applicable, and it forwards
  exactly when its action says so; validation therefore rules out the invalid outcome.
\<close>

lemma evaluateFar_fits:
  assumes "far_fits pdr far" "pdr_sourceInterface pdr = pkt_ingress packet"
  shows "fe_valid (evaluateFar far packet) \<and>
    (fe_forwarded (evaluateFar far packet) \<longleftrightarrow> far_action far = FORWARD)"
  using assms
  by (auto simp: evaluateFar_valid evaluateFar_forwarded far_fits_def opposite_def
      split: FarAction.splits Interface.splits)

lemma evaluateFar_fits_witness:
  "fe_valid (evaluateFar ul_far ul_packet) \<and>
    (fe_forwarded (evaluateFar ul_far ul_packet) \<longleftrightarrow> far_action ul_far = FORWARD)"
  by (rule evaluateFar_fits [of ul_pdr]) (simp_all add: far_fits_def model_defs)

lemma evaluateFar_effect_witness:
  "pkt_tunnel (fe_packet (evaluateFar ul_far ul_packet)) = None"
proof -
  have "fe_forwarded (evaluateFar ul_far ul_packet)" by (simp add: model_defs)
  then show ?thesis
    using evaluateFar_effect [of ul_far ul_packet] by (simp add: ul_packet_def)
qed

end
