(* ===== verification/Urr_Engine.thy ===== *)
theory Urr_Engine
  imports Decisions Runtime_State Fixtures
begin

text \<open>
  \<open>src/domain/urr.cpp\<close>: usage counting with one threshold report per generation.
\<close>

section \<open>The code\<close>

record UrrEvaluation =
  ue_next :: UsageCounterState
  ue_decision :: UrrDecision
  ue_reportGenerated :: bool
  ue_overflow :: bool

definition UrrEvaluation_new :: UrrEvaluation where
  [model_defs]: "UrrEvaluation_new =
     \<lparr>ue_next = UsageCounterState_new, ue_decision = UrrDecision_new,
      ue_reportGenerated = False, ue_overflow = False\<rparr>"

definition report_id :: "string \<Rightarrow> u32 \<Rightarrow> u32 \<Rightarrow> u64 \<Rightarrow> string" where
  [model_defs]: "report_id sessionId urr generation version =
     sessionId @ ''-urr-'' @ decimal (unat urr) @ ''-g'' @ decimal (unat generation) @
       ''-v'' @ decimal (unat version)"

definition evaluateUrr ::
  "Urr \<Rightarrow> UsageCounterState \<Rightarrow> u64 \<Rightarrow> string \<Rightarrow> u64 \<Rightarrow> UrrEvaluation"
where
  [model_defs]: "evaluateUrr urr current payloadBytes sessionId rulesetVersion =
     (let decision = UrrDecision_new\<lparr>ud_applicable := True, ud_urrId := id_value (urr_id urr),
            ud_counted := True, ud_packetsBefore := uc_packets current,
            ud_bytesBefore := uc_payloadBytes current\<rparr>;
          overflow = \<lparr>ue_next = current, ue_decision = decision, ue_reportGenerated = False,
            ue_overflow = True\<rparr>
      in case checkedAdd (uc_packets current) 1 of
           None \<Rightarrow> overflow
         | Some packets \<Rightarrow>
             (case checkedAdd (uc_payloadBytes current) payloadBytes of
                None \<Rightarrow> overflow
              | Some volume \<Rightarrow>
                  (let next = current\<lparr>uc_packets := packets, uc_payloadBytes := volume\<rparr>;
                       decision = decision\<lparr>ud_packetsAfter := packets, ud_bytesAfter := volume\<rparr>
                   in if \<not> uc_reportEmitted current \<and> volume \<ge> urr_volumeThresholdBytes urr
                      then \<lparr>ue_next = next\<lparr>uc_reportEmitted := True\<rparr>,
                            ue_decision = decision\<lparr>
                              ud_reportId := report_id sessionId (id_value (urr_id urr))
                                (urr_generation urr) rulesetVersion,
                              ud_thresholdReached := True\<rparr>,
                            ue_reportGenerated = True, ue_overflow = False\<rparr>
                      else \<lparr>ue_next = next, ue_decision = decision, ue_reportGenerated = False,
                            ue_overflow = False\<rparr>)))"

section \<open>Report identifiers\<close>

lemma dash_not_digit: "\<not> is_digit (CHR ''-'')"
  by (simp add: is_digit_def)

text \<open>
  Within a session the report identifier determines the URR, its generation and the rule
  set version.
\<close>

lemma report_id_inj:
  "report_id sessionId u g v = report_id sessionId u' g' v' \<longleftrightarrow> u = u' \<and> g = g' \<and> v = v'"
proof
  assume eq: "report_id sessionId u g v = report_id sessionId u' g' v'"
  have digits: "\<forall>c \<in> set (decimal n). is_digit c" for n
    using decimal_all_digits by blast
  have first: "decimal (unat u) = decimal (unat u') \<and> CHR ''-'' = CHR ''-'' \<and>
      CHR ''g'' # decimal (unat g) @ ''-v'' @ decimal (unat v) =
      CHR ''g'' # decimal (unat g') @ ''-v'' @ decimal (unat v')"
    using eq by (intro digits_prefix_unique [OF _ digits digits dash_not_digit dash_not_digit])
      (simp add: report_id_def)
  then have second: "decimal (unat g) = decimal (unat g') \<and> CHR ''-'' = CHR ''-'' \<and>
      CHR ''v'' # decimal (unat v) = CHR ''v'' # decimal (unat v')"
    by (intro digits_prefix_unique [OF _ digits digits dash_not_digit dash_not_digit]) simp
  show "u = u' \<and> g = g' \<and> v = v'"
    using first second by (simp flip: word_unat_eq_iff)
qed simp

section \<open>Exact counting\<close>

text \<open>What a step does to the counters, by the two cases of the overflow test.\<close>

lemma evaluateUrr_overflow:
  "ue_overflow (evaluateUrr urr s n sid v) \<longleftrightarrow>
     2 ^ 64 \<le> unat (uc_packets s) + 1 \<or> 2 ^ 64 \<le> unat (uc_payloadBytes s) + unat n"
  by (cases rule: checkedAdd_cases [of "uc_packets s" 1];
      cases rule: checkedAdd_cases [of "uc_payloadBytes s" n])
    (auto simp: evaluateUrr_def Let_def)

lemma evaluateUrr_overflow_unchanged:
  "ue_overflow (evaluateUrr urr s n sid v) \<Longrightarrow>
   ue_next (evaluateUrr urr s n sid v) = s \<and> \<not> ue_reportGenerated (evaluateUrr urr s n sid v)"
  by (auto simp: evaluateUrr_def Let_def split: option.splits if_splits)

lemma evaluateUrr_counts:
  assumes "\<not> ue_overflow (evaluateUrr urr s n sid v)"
  defines "t \<equiv> ue_next (evaluateUrr urr s n sid v)"
  shows "unat (uc_packets t) = unat (uc_packets s) + 1"
    "unat (uc_payloadBytes t) = unat (uc_payloadBytes s) + unat n"
    "uc_reportEmitted t \<longleftrightarrow>
       uc_reportEmitted s \<or> urr_volumeThresholdBytes urr \<le> uc_payloadBytes t"
    "ue_reportGenerated (evaluateUrr urr s n sid v) \<longleftrightarrow>
       \<not> uc_reportEmitted s \<and> urr_volumeThresholdBytes urr \<le> uc_payloadBytes t"
proof -
  obtain p b where p: "checkedAdd (uc_packets s) 1 = Some p"
    and b: "checkedAdd (uc_payloadBytes s) n = Some b"
    using assms(1) by (auto simp: evaluateUrr_def Let_def split: option.splits)
  have "unat p = unat (uc_packets s) + 1" "unat b = unat (uc_payloadBytes s) + unat n"
    using p b by (simp_all add: checkedAdd_Some)
  then show "unat (uc_packets t) = unat (uc_packets s) + 1"
    "unat (uc_payloadBytes t) = unat (uc_payloadBytes s) + unat n"
    "uc_reportEmitted t \<longleftrightarrow>
       uc_reportEmitted s \<or> urr_volumeThresholdBytes urr \<le> uc_payloadBytes t"
    "ue_reportGenerated (evaluateUrr urr s n sid v) \<longleftrightarrow>
       \<not> uc_reportEmitted s \<and> urr_volumeThresholdBytes urr \<le> uc_payloadBytes t"
    by (simp_all add: t_def evaluateUrr_def Let_def p b)
qed

lemma evaluateUrr_report:
  "ue_reportGenerated (evaluateUrr urr s n sid v) \<Longrightarrow>
   ud_reportId (ue_decision (evaluateUrr urr s n sid v)) =
     report_id sid (id_value (urr_id urr)) (urr_generation urr) v"
  by (auto simp: evaluateUrr_def Let_def split: option.splits if_splits)

lemma evaluateUrr_no_report:
  "\<not> ue_reportGenerated (evaluateUrr urr s n sid v) \<Longrightarrow>
   ud_reportId (ue_decision (evaluateUrr urr s n sid v)) = ''''"
  by (auto simp: evaluateUrr_def Let_def UrrDecision_new_def split: option.splits if_splits)

section \<open>One report per generation\<close>

fun urr_run :: "Urr \<Rightarrow> string \<Rightarrow> u64 \<Rightarrow> UsageCounterState \<Rightarrow> u64 list \<Rightarrow> UrrEvaluation list \<times> UsageCounterState"
where
  "urr_run urr sid v s [] = ([], s)"
| "urr_run urr sid v s (n # ns) =
     (let e = evaluateUrr urr s n sid v; (es, t) = urr_run urr sid v (ue_next e) ns
      in (e # es, t))"

lemma urr_run_Cons [simp]:
  "fst (urr_run urr sid v s (n # ns)) =
     evaluateUrr urr s n sid v # fst (urr_run urr sid v (ue_next (evaluateUrr urr s n sid v)) ns)"
  "snd (urr_run urr sid v s (n # ns)) =
     snd (urr_run urr sid v (ue_next (evaluateUrr urr s n sid v)) ns)"
  by (simp_all add: Let_def split: prod.split)

declare urr_run.simps(2) [simp del]

definition report_pending :: "Urr \<Rightarrow> UsageCounterState \<Rightarrow> bool" where
  "report_pending urr s \<longleftrightarrow>
     (uc_reportEmitted s \<longleftrightarrow> urr_volumeThresholdBytes urr \<le> uc_payloadBytes s)"

lemma evaluateUrr_pending:
  assumes "report_pending urr s"
  shows "report_pending urr (ue_next (evaluateUrr urr s n sid v))"
    "ue_reportGenerated (evaluateUrr urr s n sid v) \<longleftrightarrow>
      \<not> uc_reportEmitted s \<and> uc_reportEmitted (ue_next (evaluateUrr urr s n sid v))"
    "uc_reportEmitted s \<Longrightarrow> uc_reportEmitted (ue_next (evaluateUrr urr s n sid v))"
proof -
  let ?e = "evaluateUrr urr s n sid v"
  have "report_pending urr (ue_next ?e) \<and>
    (ue_reportGenerated ?e \<longleftrightarrow> \<not> uc_reportEmitted s \<and> uc_reportEmitted (ue_next ?e)) \<and>
    (uc_reportEmitted s \<longrightarrow> uc_reportEmitted (ue_next ?e))"
  proof (cases "ue_overflow ?e")
    case True
    then show ?thesis using assms evaluateUrr_overflow_unchanged by auto
  next
    case False
    note counts = evaluateUrr_counts [OF False]
    have "uc_payloadBytes s \<le> uc_payloadBytes (ue_next ?e)"
      using counts(2) by (simp add: word_nat)
    then show ?thesis
      using assms counts(3,4) unfolding report_pending_def by (metis order_trans)
  qed
  then show "report_pending urr (ue_next ?e)"
    "ue_reportGenerated ?e \<longleftrightarrow> \<not> uc_reportEmitted s \<and> uc_reportEmitted (ue_next ?e)"
    "uc_reportEmitted s \<Longrightarrow> uc_reportEmitted (ue_next ?e)" by blast+
qed

text \<open>
  Over any sequence of packets counted on one URR generation at most one report is
  generated, and one is generated exactly when the volume first reaches the threshold.
\<close>

lemma urr_run_one_report:
  assumes "report_pending urr s"
  shows "length (filter ue_reportGenerated (fst (urr_run urr sid v s ns))) =
    (if \<not> uc_reportEmitted s \<and>
        urr_volumeThresholdBytes urr \<le> uc_payloadBytes (snd (urr_run urr sid v s ns)) then 1 else 0)"
proof -
  have "report_pending urr (snd (urr_run urr sid v s ns)) \<and>
    (uc_reportEmitted s \<longrightarrow> uc_reportEmitted (snd (urr_run urr sid v s ns))) \<and>
    length (filter ue_reportGenerated (fst (urr_run urr sid v s ns))) =
    (if \<not> uc_reportEmitted s \<and> uc_reportEmitted (snd (urr_run urr sid v s ns)) then 1 else 0)"
    using assms
  proof (induction ns arbitrary: s)
    case (Cons n ns)
    note step = evaluateUrr_pending [OF Cons.prems, of n sid v]
    from Cons.IH [OF step(1)] step(2,3) show ?case
      by auto
  qed simp
  then show ?thesis by (auto simp: report_pending_def)
qed

text \<open>
  The counters are exact: unless a count leaves 64 bits, a run adds one packet and the
  original payload bytes for every packet.
\<close>

lemma urr_run_exact:
  assumes "unat (uc_packets s) + length ns < 2 ^ 64"
    "unat (uc_payloadBytes s) + sum_list (map unat ns) < 2 ^ 64"
  shows "unat (uc_packets (snd (urr_run urr sid v s ns))) = unat (uc_packets s) + length ns \<and>
    unat (uc_payloadBytes (snd (urr_run urr sid v s ns))) =
      unat (uc_payloadBytes s) + sum_list (map unat ns)"
  using assms
proof (induction ns arbitrary: s)
  case (Cons n ns)
  let ?e = "evaluateUrr urr s n sid v"
  have no: "\<not> ue_overflow ?e" using Cons.prems by (simp add: evaluateUrr_overflow)
  note counts = evaluateUrr_counts(1,2) [OF no]
  have "unat (uc_packets (ue_next ?e)) + length ns < 2 ^ 64"
    "unat (uc_payloadBytes (ue_next ?e)) + sum_list (map unat ns) < 2 ^ 64"
    using Cons.prems counts by simp_all
  from Cons.IH [OF this] counts show ?case by simp
qed simp

section \<open>Concrete instances\<close>

lemma urr_run_one_report_witness:
  "length (filter ue_reportGenerated
     (fst (urr_run ul_urr ''session-1'' 3 UsageCounterState_new [6000, 6000, 6000]))) = 1"
proof -
  have "report_pending ul_urr UsageCounterState_new"
    by (simp add: report_pending_def model_defs)
  from urr_run_one_report [OF this, of "''session-1''" 3 "[6000, 6000, 6000]"] show ?thesis
    by (simp add: model_defs)
qed

lemma urr_run_exact_witness:
  "unat (uc_payloadBytes (snd (urr_run ul_urr ''session-1'' 3 UsageCounterState_new [1200, 900]))) = 2100"
  using urr_run_exact [of UsageCounterState_new "[1200, 900]" ul_urr "''session-1''" 3]
  by (simp add: UsageCounterState_new_def)

end
