(* ===== verification/Pipeline.thy ===== *)
theory Pipeline
  imports Matching Qer_Engine Far_Engine Urr_Engine
begin

text \<open>
  \<open>include/upf/application/packet_pipeline.hpp\<close> and \<open>src/application/packet_pipeline.cpp\<close>:
  installation of a rule set with migration of the runtime state, and the packet path.

  The class is a record of its members; \<open>std::vector\<close> is a list and grows at the end. A member
  function takes the pipeline and returns it updated. \<open>process\<close> dereferences the results of
  the rule lookups without testing them; the model returns \<open>None\<close> where the code would
  dereference a null pointer. The blocks of \<open>process\<close> are definitions of their own that
  either return from the function, continue, or hit a null pointer (\<open>flow\<close>).
\<close>

section \<open>State\<close>

record PacketPipeline =
  pp_limits :: CapacityLimits
  pp_rules :: "RuleSet option"
  pp_runtime :: RuntimeState
  pp_n3Sink :: "Packet list"
  pp_n6Sink :: "Packet list"
  pp_decisions :: "PacketDecision list"
  pp_reports :: "string list"
  pp_events :: "string list"
  pp_droppedEvents :: size_t

definition PacketPipeline_new :: "CapacityLimits \<Rightarrow> PacketPipeline" where
  [model_defs]: "PacketPipeline_new limits =
     \<lparr>pp_limits = limits, pp_rules = None, pp_runtime = RuntimeState_new, pp_n3Sink = [],
      pp_n6Sink = [], pp_decisions = [], pp_reports = [], pp_events = [], pp_droppedEvents = 0\<rparr>"

definition PacketPipeline_observabilityDegraded :: "PacketPipeline \<Rightarrow> bool" where
  [model_defs]: "PacketPipeline_observabilityDegraded p \<longleftrightarrow> pp_droppedEvents p \<noteq> 0"

section \<open>Retaining a decision\<close>

definition retain :: "PacketDecision \<Rightarrow> PacketPipeline \<Rightarrow> PacketDecision \<times> PacketPipeline" where
  [model_defs]: "retain decision p =
     (let (decision, p) =
        (if length (pp_events p) < unat (lim_events (pp_limits p))
         then (decision, p\<lparr>pp_events := pp_events p @ [terminalResultName (pd_terminalResult decision)]\<rparr>)
         else (decision\<lparr>pd_observabilityDegraded := True\<rparr>,
               if pp_droppedEvents p \<noteq> - 1
               then p\<lparr>pp_droppedEvents := pp_droppedEvents p + 1\<rparr> else p))
      in (decision, p\<lparr>pp_decisions := pp_decisions p @ [decision]\<rparr>))"

section \<open>Installing a rule set\<close>

text \<open>
  The loops over the QERs and URRs. The first component of the pair is \<open>runtime_\<close>, whose
  generation maps grow by default entries when \<open>operator[]\<close> misses; the second \<open>migrated\<close>.
\<close>

definition install_qer :: "RuntimeState \<times> RuntimeState \<Rightarrow> Qer \<Rightarrow> RuntimeState \<times> RuntimeState" where
  [model_defs]: "install_qer acc qer =
     (let (runtime, migrated) = acc;
          k = id_value (qer_id qer);
          (generation, generations) = map_index 0 (rt_qerGenerations runtime) k;
          runtime = runtime\<lparr>rt_qerGenerations := generations\<rparr>;
          (runtime, state) =
            (if generation = qer_generation qer \<and> rt_qers runtime k \<noteq> None
             then let (state, states) = map_index TokenBucketState_new (rt_qers runtime) k
                  in (runtime\<lparr>rt_qers := states\<rparr>, state)
             else (runtime, TokenBucketState_new\<lparr>tb_tokensBytes := qer_burstBytes qer\<rparr>))
      in (runtime, migrated\<lparr>rt_qers := (rt_qers migrated)(k \<mapsto> state),
            rt_qerGenerations := (rt_qerGenerations migrated)(k \<mapsto> qer_generation qer)\<rparr>))"

definition install_urr :: "RuntimeState \<times> RuntimeState \<Rightarrow> Urr \<Rightarrow> RuntimeState \<times> RuntimeState" where
  [model_defs]: "install_urr acc urr =
     (let (runtime, migrated) = acc;
          k = id_value (urr_id urr);
          (generation, generations) = map_index 0 (rt_urrGenerations runtime) k;
          runtime = runtime\<lparr>rt_urrGenerations := generations\<rparr>;
          (runtime, state) =
            (if generation = urr_generation urr \<and> rt_urrs runtime k \<noteq> None
             then let (state, states) = map_index UsageCounterState_new (rt_urrs runtime) k
                  in (runtime\<lparr>rt_urrs := states\<rparr>, state)
             else (runtime, UsageCounterState_new))
      in (runtime, migrated\<lparr>rt_urrs := (rt_urrs migrated)(k \<mapsto> state),
            rt_urrGenerations := (rt_urrGenerations migrated)(k \<mapsto> urr_generation urr)\<rparr>))"

definition install_migrate :: "RuleSet \<Rightarrow> RuntimeState \<Rightarrow> RuntimeState" where
  [model_defs]: "install_migrate rules runtime =
     snd (foldl install_urr (foldl install_qer (runtime, RuntimeState_new) (rs_qers rules))
       (rs_urrs rules))"

definition install :: "RuleSet \<Rightarrow> PacketPipeline \<Rightarrow> unit result_of \<times> PacketPipeline" where
  [model_defs]: "install rules p =
     (case validateRuleSet rules (pp_limits p) of
        Inl e \<Rightarrow> (failure e, p)
      | Inr _ \<Rightarrow> (success (), p\<lparr>pp_rules := Some rules,
          pp_runtime := install_migrate rules (pp_runtime p)\<rparr>))"

section \<open>The packet path\<close>

definition validPacket :: "Packet \<Rightarrow> bool" where
  [model_defs]: "validPacket packet \<longleftrightarrow>
     (if pkt_packetId packet = '''' \<or> pkt_sessionId packet = '''' then False
      else if family (pkt_sourceIp packet) \<noteq> family (pkt_destinationIp packet) then False
      else if pkt_ingress packet = N3
      then (case pkt_tunnel packet of None \<Rightarrow> False | Some t \<Rightarrow> TunnelMetadata_valid t)
      else pkt_tunnel packet = None)"

datatype 'a flow = Null_Dereference | Return "PacketDecision \<times> PacketPipeline" | Continue 'a

fun flow_then ::
  "'a flow \<Rightarrow> ('a \<Rightarrow> (PacketDecision \<times> PacketPipeline) option) \<Rightarrow> (PacketDecision \<times> PacketPipeline) option"
where
  "flow_then Null_Dereference k = None"
| "flow_then (Return result) k = Some result"
| "flow_then (Continue x) k = k x"

definition retain_as ::
  "TerminalResult \<Rightarrow> PacketDecision \<Rightarrow> PacketPipeline \<Rightarrow> PacketDecision \<times> PacketPipeline"
where
  [model_defs]: "retain_as r decision p = retain (decision\<lparr>pd_terminalResult := r\<rparr>) p"

definition decision_start ::
  "indeterminate \<Rightarrow> Packet \<Rightarrow> string \<Rightarrow> string \<Rightarrow> RuleSet option \<Rightarrow> PacketDecision"
where
  [model_defs]: "decision_start ind packet runId scenarioId rules =
     (let decision = (PacketDecision_new ind)\<lparr>pd_runId := runId, pd_scenarioId := scenarioId,
        pd_packetId := pkt_packetId packet, pd_sessionId := pkt_sessionId packet,
        pd_arrivalTimeMicros := pkt_arrivalTimeMicros packet, pd_ingress := pkt_ingress packet\<rparr>
      in case rules of None \<Rightarrow> decision
         | Some r \<Rightarrow> decision\<lparr>pd_rulesetVersion := rs_version r\<rparr>)"

text \<open>The QER block; the last component is the pending bucket update.\<close>

definition qer_block ::
  "RuleSet \<Rightarrow> Pdr \<Rightarrow> Packet \<Rightarrow> PacketDecision \<Rightarrow> PacketPipeline \<Rightarrow>
   (PacketDecision \<times> PacketPipeline \<times> (QerId \<times> TokenBucketState) option) flow"
where
  [model_defs]: "qer_block rules winner packet decision p =
     (case pdr_qerId winner of
        None \<Rightarrow> Continue (decision\<lparr>pd_qer := (pd_qer decision)\<lparr>qd_outcome := ''NOT_APPLICABLE'',
          qd_allowed := True\<rparr>\<rparr>, p, None)
      | Some i \<Rightarrow>
          (case findQer rules i of
             None \<Rightarrow> Null_Dereference
           | Some qer \<Rightarrow>
               (let k = id_value (qer_id qer);
                    (current, states) = map_index TokenBucketState_new (rt_qers (pp_runtime p)) k;
                    p = p\<lparr>pp_runtime := (pp_runtime p)\<lparr>rt_qers := states\<rparr>\<rparr>;
                    evaluation = evaluateQer qer current (ucast (pkt_payloadBytes packet))
                      (pkt_arrivalTimeMicros packet);
                    decision = decision\<lparr>pd_qer := qe_decision evaluation\<rparr>
                in if \<not> qd_allowed (qe_decision evaluation)
                   then let p = (if qe_failure evaluation = RATE_LIMITED
                          then p\<lparr>pp_runtime := (pp_runtime p)\<lparr>rt_qers :=
                            (rt_qers (pp_runtime p))(k \<mapsto> qe_next evaluation)\<rparr>\<rparr> else p)
                        in Return (retain_as (qe_failure evaluation) decision p)
                   else Continue (decision, p, Some (i, qe_next evaluation)))))"

definition far_block ::
  "RuleSet \<Rightarrow> Pdr \<Rightarrow> Packet \<Rightarrow> PacketDecision \<Rightarrow> PacketPipeline \<Rightarrow>
   (PacketDecision \<times> Far \<times> FarEvaluation) flow"
where
  [model_defs]: "far_block rules winner packet decision p =
     (case findFar rules (pdr_farId winner) of
        None \<Rightarrow> Null_Dereference
      | Some far \<Rightarrow>
          (let farEvaluation = evaluateFar far packet
           in if \<not> fe_valid farEvaluation then Return (retain_as MALFORMED_PACKET decision p)
              else Continue (decision\<lparr>pd_far := \<lparr>fd_applicable = True,
                  fd_farId = id_value (far_id far), fd_action = far_action far,
                  fd_destination = fe_destination farEvaluation, fd_before = pkt_tunnel packet,
                  fd_after = pkt_tunnel (fe_packet farEvaluation)\<rparr>\<rparr>, far, farEvaluation)))"

definition urr_block ::
  "RuleSet \<Rightarrow> Pdr \<Rightarrow> Packet \<Rightarrow> PacketDecision \<Rightarrow> PacketPipeline \<Rightarrow>
   (PacketDecision \<times> PacketPipeline \<times> (UrrId \<times> UrrEvaluation) option) flow"
where
  [model_defs]: "urr_block rules winner packet decision p =
     (case pdr_urrId winner of
        None \<Rightarrow> Continue (decision, p, None)
      | Some i \<Rightarrow>
          (case findUrr rules i of
             None \<Rightarrow> Null_Dereference
           | Some urr \<Rightarrow>
               (let (current, states) = map_index UsageCounterState_new (rt_urrs (pp_runtime p))
                      (id_value (urr_id urr));
                    p = p\<lparr>pp_runtime := (pp_runtime p)\<lparr>rt_urrs := states\<rparr>\<rparr>;
                    usage = evaluateUrr urr current (ucast (pkt_payloadBytes packet))
                      (rs_sessionId rules) (rs_version rules);
                    decision = decision\<lparr>pd_urr := ue_decision usage\<rparr>
                in if ue_overflow usage then Return (retain_as ARITHMETIC_ERROR decision p)
                   else if ue_reportGenerated usage \<and>
                     length (pp_reports p) \<ge> unat (lim_reports (pp_limits p))
                   then Return (retain_as CAPACITY_ERROR decision p)
                   else Continue (decision, p, Some (i, usage)))))"

text \<open>The sink check and the commit.\<close>

definition commit_block ::
  "(QerId \<times> TokenBucketState) option \<Rightarrow> (UrrId \<times> UrrEvaluation) option \<Rightarrow> Far \<Rightarrow> FarEvaluation \<Rightarrow>
   PacketDecision \<Rightarrow> PacketPipeline \<Rightarrow> PacketDecision \<times> PacketPipeline"
where
  [model_defs]: "commit_block tokens usage far farEvaluation decision p =
     (let toN3 = (fe_destination farEvaluation = N3);
          sink = (if toN3 then pp_n3Sink p else pp_n6Sink p)
      in if fe_forwarded farEvaluation \<and> length sink \<ge> unat (lim_sinkPackets (pp_limits p))
         then retain_as CAPACITY_ERROR decision p
         else let p = (case tokens of None \<Rightarrow> p | Some (i, next) \<Rightarrow>
                p\<lparr>pp_runtime := (pp_runtime p)\<lparr>rt_qers :=
                  (rt_qers (pp_runtime p))(id_value i \<mapsto> next)\<rparr>\<rparr>);
              p = (case usage of None \<Rightarrow> p | Some (i, u) \<Rightarrow>
                (let p = p\<lparr>pp_runtime := (pp_runtime p)\<lparr>rt_urrs :=
                   (rt_urrs (pp_runtime p))(id_value i \<mapsto> ue_next u)\<rparr>\<rparr>
                 in if ue_reportGenerated u
                    then p\<lparr>pp_reports := pp_reports p @ [ud_reportId (ue_decision u)]\<rparr> else p))
           in if far_action far = DROP then retain_as FAR_DROPPED decision p
              else let p = (if toN3
                     then p\<lparr>pp_n3Sink := sink @ [fe_packet farEvaluation]\<rparr>
                     else p\<lparr>pp_n6Sink := sink @ [fe_packet farEvaluation]\<rparr>);
                   decision = decision\<lparr>pd_transformedPresent := True,
                     pd_transformedPacket := fe_packet farEvaluation, pd_sinkPresent := True,
                     pd_sink := fe_destination farEvaluation\<rparr>
                in retain_as (if toN3 then FORWARDED_TO_N3 else FORWARDED_TO_N6) decision p)"

definition process ::
  "platform \<Rightarrow> indeterminate \<Rightarrow> Packet \<Rightarrow> string \<Rightarrow> string \<Rightarrow> PacketPipeline \<Rightarrow>
   (PacketDecision \<times> PacketPipeline) option"
where
  [model_defs]: "process pl ind packet runId scenarioId p =
     (let decision = decision_start ind packet runId scenarioId (pp_rules p)
      in if length (pp_decisions p) \<ge> unat (lim_results (pp_limits p))
         then Some (decision\<lparr>pd_terminalResult := CAPACITY_ERROR\<rparr>, p)
         else case pp_rules p of
           None \<Rightarrow> Some (retain_as NO_MATCH decision p)
         | Some rules \<Rightarrow>
             if \<not> validPacket packet \<or> pkt_sessionId packet \<noteq> rs_sessionId rules
             then Some (retain_as MALFORMED_PACKET decision p)
             else let (candidates, winner) = selectWinner pl (rs_pdrs rules) packet;
                    decision = decision\<lparr>pd_candidates := sortCandidates candidates\<rparr>
               in case winner of
                    None \<Rightarrow> Some (retain_as NO_MATCH decision p)
                  | Some pdr \<Rightarrow>
                      (let decision = decision\<lparr>pd_selectedPdrId := id_value (pdr_id pdr)\<rparr>
                       in flow_then (qer_block rules pdr packet decision p) (\<lambda>(decision, p, tokens).
                          flow_then (far_block rules pdr packet decision p)
                            (\<lambda>(decision, far, farEvaluation).
                          flow_then (urr_block rules pdr packet decision p) (\<lambda>(decision, p, usage).
                          Some (commit_block tokens usage far farEvaluation decision p))))))"

end
