(* ===== verification/Migration.thy ===== *)
theory Migration
  imports Runtime_State Validation
begin

text \<open>
  The contract of the loops that carry runtime state over to a new rule set. Both
  \<open>PacketPipeline::install\<close> and \<open>RuleService::update\<close> run one loop over the QERs and one over
  the URRs: a rule whose generation is unchanged keeps its state, any other starts fresh.

  \<open>step\<close> is one iteration on an accumulator that shows the old maps and the maps being built.
  The laws describe one iteration; the loop's result follows for rules with distinct
  identifiers.
\<close>

definition carried ::
  "(u32 \<rightharpoonup> u32) \<Rightarrow> (u32 \<rightharpoonup> 's) \<Rightarrow> u32 \<Rightarrow> u32 \<Rightarrow> 's \<Rightarrow> 's"
where
  "carried generations states k generation fresh =
     (if generations k = Some generation
      then (case states k of None \<Rightarrow> fresh | Some s \<Rightarrow> s) else fresh)"

definition agree_on :: "u32 \<Rightarrow> (u32 \<rightharpoonup> u32) \<Rightarrow> (u32 \<rightharpoonup> 's) \<Rightarrow> bool" where
  "agree_on k generations states \<longleftrightarrow> (generations k = None \<longleftrightarrow> states k = None)"

locale generation_migration =
  fixes step :: "'acc \<Rightarrow> 'r \<Rightarrow> 'acc"
    and key :: "'r \<Rightarrow> u32" and gen :: "'r \<Rightarrow> u32" and fresh :: "'r \<Rightarrow> 's"
    and old_states :: "'acc \<Rightarrow> (u32 \<rightharpoonup> 's)" and old_gens :: "'acc \<Rightarrow> (u32 \<rightharpoonup> u32)"
    and new_states :: "'acc \<Rightarrow> (u32 \<rightharpoonup> 's)" and new_gens :: "'acc \<Rightarrow> (u32 \<rightharpoonup> u32)"
  assumes step_gens: "new_gens (step acc r) = (new_gens acc)(key r \<mapsto> gen r)"
    and step_states: "agree_on (key r) (old_gens acc) (old_states acc) \<Longrightarrow>
      new_states (step acc r) = (new_states acc)(key r \<mapsto>
        carried (old_gens acc) (old_states acc) (key r) (gen r) (fresh r))"
    and step_old_gens: "k \<noteq> key r \<Longrightarrow> old_gens (step acc r) k = old_gens acc k"
    and step_old_states: "k \<noteq> key r \<Longrightarrow> old_states (step acc r) k = old_states acc k"
begin

lemma loop_gens:
  "distinct (map key rs) \<Longrightarrow>
   new_gens (foldl step acc rs) = new_gens acc ++ map_of (map (\<lambda>r. (key r, gen r)) rs)"
proof (induction rs arbitrary: acc)
  case (Cons r rs)
  have "map_of (map (\<lambda>r. (key r, gen r)) rs) (key r) = None"
    using Cons.prems by (intro map_of_map_None) auto
  then show ?case
    using Cons.IH [of "step acc r"] Cons.prems
    by (auto simp: step_gens fun_eq_iff map_add_def split: option.split)
qed simp

lemma loop_other_states:
  assumes "k \<notin> key ` set rs" "\<forall>r \<in> set rs. agree_on (key r) (old_gens acc) (old_states acc)"
    "distinct (map key rs)"
  shows "new_states (foldl step acc rs) k = new_states acc k"
  using assms
proof (induction rs arbitrary: acc)
  case (Cons r rs)
  have "\<forall>q \<in> set rs. agree_on (key q) (old_gens (step acc r)) (old_states (step acc r))"
    using Cons.prems by (auto simp: agree_on_def step_old_gens step_old_states image_iff)
  with Cons show ?case by (auto simp: step_states)
qed simp

lemma loop_states:
  assumes "r \<in> set rs" "\<forall>r \<in> set rs. agree_on (key r) (old_gens acc) (old_states acc)"
    "distinct (map key rs)"
  shows "new_states (foldl step acc rs) (key r) =
    Some (carried (old_gens acc) (old_states acc) (key r) (gen r) (fresh r))"
  using assms
proof (induction rs arbitrary: acc)
  case (Cons q rs)
  have agree: "\<forall>x \<in> set rs. agree_on (key x) (old_gens (step acc q)) (old_states (step acc q))"
    using Cons.prems by (auto simp: agree_on_def step_old_gens step_old_states image_iff)
  show ?case
  proof (cases "r = q")
    case True
    then have "key q \<notin> key ` set rs" using Cons.prems by auto
    then show ?thesis
      using loop_other_states [OF _ agree] Cons.prems True by (simp add: step_states)
  next
    case False
    then have "key r \<noteq> key q" "r \<in> set rs" using Cons.prems by (auto simp: image_iff)
    with Cons.IH [OF _ agree] Cons.prems show ?thesis
      by (simp add: carried_def step_old_gens step_old_states)
  qed
qed simp

end

text \<open>The runtime state that belongs to a rule set: one entry per QER and URR, no other.\<close>

abbreviation qer_key :: "Qer \<Rightarrow> u32" where "qer_key qer \<equiv> id_value (qer_id qer)"
abbreviation urr_key :: "Urr \<Rightarrow> u32" where "urr_key urr \<equiv> id_value (urr_id urr)"

definition runtime_for :: "RuleSet \<Rightarrow> RuntimeState \<Rightarrow> bool" where
  "runtime_for rules rt \<longleftrightarrow>
     dom (rt_qers rt) = qer_key ` set (rs_qers rules) \<and>
     rt_qerGenerations rt = map_of (map (\<lambda>r. (qer_key r, qer_generation r)) (rs_qers rules)) \<and>
     dom (rt_urrs rt) = urr_key ` set (rs_urrs rules) \<and>
     rt_urrGenerations rt = map_of (map (\<lambda>r. (urr_key r, urr_generation r)) (rs_urrs rules))"

definition runtime_consistent :: "RuntimeState \<Rightarrow> bool" where
  "runtime_consistent rt \<longleftrightarrow>
     dom (rt_qers rt) = dom (rt_qerGenerations rt) \<and> dom (rt_urrs rt) = dom (rt_urrGenerations rt)"

lemma runtime_for_consistent: "runtime_for rules rt \<Longrightarrow> runtime_consistent rt"
  by (auto simp: runtime_for_def runtime_consistent_def dom_map_of_conv_image_fst image_iff)

lemma runtime_consistent_agree:
  assumes "runtime_consistent rt"
  shows "agree_on k (rt_qerGenerations rt) (rt_qers rt)" "agree_on k (rt_urrGenerations rt) (rt_urrs rt)"
  using assms unfolding runtime_consistent_def agree_on_def by (metis domIff)+

lemma runtime_new_fields [simp]:
  "rt_qers RuntimeState_new = Map.empty" "rt_urrs RuntimeState_new = Map.empty"
  "rt_qerGenerations RuntimeState_new = Map.empty" "rt_urrGenerations RuntimeState_new = Map.empty"
  by (simp_all add: RuntimeState_new_def)

lemma runtime_new_consistent: "runtime_consistent RuntimeState_new"
  by (simp add: runtime_consistent_def RuntimeState_new_def)

lemma runtime_for_bucket:
  "runtime_for rules rt \<Longrightarrow> qer \<in> set (rs_qers rules) \<Longrightarrow> \<exists>s. rt_qers rt (qer_key qer) = Some s"
  by (auto simp: runtime_for_def dom_def set_eq_iff)

lemma runtime_for_counter:
  "runtime_for rules rt \<Longrightarrow> urr \<in> set (rs_urrs rules) \<Longrightarrow> \<exists>s. rt_urrs rt (urr_key urr) = Some s"
  by (auto simp: runtime_for_def dom_def set_eq_iff)

text \<open>Overwriting an existing entry keeps the state in step with the rules.\<close>

lemma runtime_for_set_bucket:
  "runtime_for rules rt \<Longrightarrow> rt_qers rt k \<noteq> None \<Longrightarrow>
   runtime_for rules (rt\<lparr>rt_qers := (rt_qers rt)(k \<mapsto> s)\<rparr>)"
  by (auto simp: runtime_for_def)

lemma runtime_for_set_counter:
  "runtime_for rules rt \<Longrightarrow> rt_urrs rt k \<noteq> None \<Longrightarrow>
   runtime_for rules (rt\<lparr>rt_urrs := (rt_urrs rt)(k \<mapsto> s)\<rparr>)"
  by (auto simp: runtime_for_def)

section \<open>The migrated state\<close>

lemma unique_keys: "uniqueIds ident rs \<Longrightarrow> distinct (map (\<lambda>r. id_value (ident r)) rs)"
  by (auto simp: uniqueIds_iff distinct_map inj_on_def RuleId.expand)

text \<open>The result of a migration, independent of the code that computes it.\<close>

definition migrated :: "RuleSet \<Rightarrow> RuntimeState \<Rightarrow> RuntimeState \<Rightarrow> bool" where
  "migrated rules old new \<longleftrightarrow> runtime_for rules new \<and>
     (\<forall>qer \<in> set (rs_qers rules). rt_qers new (qer_key qer) =
        Some (carried (rt_qerGenerations old) (rt_qers old) (qer_key qer) (qer_generation qer)
          (TokenBucketState_new\<lparr>tb_tokensBytes := qer_burstBytes qer\<rparr>))) \<and>
     (\<forall>urr \<in> set (rs_urrs rules). rt_urrs new (urr_key urr) =
        Some (carried (rt_urrGenerations old) (rt_urrs old) (urr_key urr) (urr_generation urr)
          UsageCounterState_new))"

lemma map_eq_on_dom:
  assumes "dom m = K" "dom n = K" "\<And>k. k \<in> K \<Longrightarrow> m k = n k"
  shows "m = n"
proof
  fix k show "m k = n k" using assms by (cases "k \<in> K") (auto simp: domIff)
qed

lemma migrated_unique:
  assumes "migrated rules old a" "migrated rules old b"
  shows "a = b"
proof -
  have "rt_qers a = rt_qers b"
    using assms by (intro map_eq_on_dom [where K = "qer_key ` set (rs_qers rules)"])
      (auto simp: migrated_def runtime_for_def)
  moreover have "rt_urrs a = rt_urrs b"
    using assms by (intro map_eq_on_dom [where K = "urr_key ` set (rs_urrs rules)"])
      (auto simp: migrated_def runtime_for_def)
  ultimately show ?thesis
    using assms by (simp add: migrated_def runtime_for_def)
qed

lemma dom_from_loop:
  assumes "\<And>r. r \<in> set rs \<Longrightarrow> m (key r) \<noteq> None" "\<And>k. k \<notin> key ` set rs \<Longrightarrow> m k = None"
  shows "dom m = key ` set rs"
  using assms by (force simp: dom_def)

section \<open>Both loops together\<close>

text \<open>
  A migration runs the QER loop and then the URR loop on a pair of the old and the new runtime
  state. Given the contract of each loop, and that neither touches the other kind's maps, the
  result is the migrated state.
\<close>

locale runtime_migration =
  q: generation_migration qstep qer_key qer_generation
    "\<lambda>qer. TokenBucketState_new\<lparr>tb_tokensBytes := qer_burstBytes qer\<rparr>"
    "\<lambda>acc. rt_qers (fst acc)" "\<lambda>acc. rt_qerGenerations (fst acc)"
    "\<lambda>acc. rt_qers (snd acc)" "\<lambda>acc. rt_qerGenerations (snd acc)" +
  u: generation_migration ustep urr_key urr_generation "\<lambda>urr. UsageCounterState_new"
    "\<lambda>acc. rt_urrs (fst acc)" "\<lambda>acc. rt_urrGenerations (fst acc)"
    "\<lambda>acc. rt_urrs (snd acc)" "\<lambda>acc. rt_urrGenerations (snd acc)"
  for qstep :: "RuntimeState \<times> RuntimeState \<Rightarrow> Qer \<Rightarrow> RuntimeState \<times> RuntimeState"
    and ustep :: "RuntimeState \<times> RuntimeState \<Rightarrow> Urr \<Rightarrow> RuntimeState \<times> RuntimeState" +
  assumes qstep_frame:
      "rt_urrs (fst (qstep acc qer)) = rt_urrs (fst acc)"
      "rt_urrs (snd (qstep acc qer)) = rt_urrs (snd acc)"
      "rt_urrGenerations (fst (qstep acc qer)) = rt_urrGenerations (fst acc)"
      "rt_urrGenerations (snd (qstep acc qer)) = rt_urrGenerations (snd acc)"
    and ustep_frame:
      "rt_qers (snd (ustep acc urr)) = rt_qers (snd acc)"
      "rt_qerGenerations (snd (ustep acc urr)) = rt_qerGenerations (snd acc)"
begin

lemma qloop_frame:
  "rt_urrs (fst (foldl qstep acc qers)) = rt_urrs (fst acc)"
  "rt_urrs (snd (foldl qstep acc qers)) = rt_urrs (snd acc)"
  "rt_urrGenerations (fst (foldl qstep acc qers)) = rt_urrGenerations (fst acc)"
  "rt_urrGenerations (snd (foldl qstep acc qers)) = rt_urrGenerations (snd acc)"
  by (induction qers arbitrary: acc) (simp_all add: qstep_frame)

lemma uloop_frame:
  "rt_qers (snd (foldl ustep acc urrs)) = rt_qers (snd acc)"
  "rt_qerGenerations (snd (foldl ustep acc urrs)) = rt_qerGenerations (snd acc)"
  by (induction urrs arbitrary: acc) (simp_all add: ustep_frame)

lemma loops_migrate:
  assumes "uniqueIds qer_id (rs_qers rules)" "uniqueIds urr_id (rs_urrs rules)" "runtime_consistent rt"
  shows "migrated rules rt
    (snd (foldl ustep (foldl qstep (rt, RuntimeState_new) (rs_qers rules)) (rs_urrs rules)))"
proof -
  let ?acc = "(rt, RuntimeState_new)" and ?qacc = "foldl qstep (rt, RuntimeState_new) (rs_qers rules)"
  let ?new = "snd (foldl ustep ?qacc (rs_urrs rules))"
  note keys = unique_keys [OF assms(1)] unique_keys [OF assms(2)]
  have agree: "\<forall>r \<in> set (rs_qers rules). agree_on (qer_key r) (rt_qerGenerations (fst ?acc)) (rt_qers (fst ?acc))"
    "\<forall>r \<in> set (rs_urrs rules). agree_on (urr_key r) (rt_urrGenerations (fst ?qacc)) (rt_urrs (fst ?qacc))"
    using runtime_consistent_agree [OF assms(3)] by (simp_all add: qloop_frame)
  note frames = qloop_frame uloop_frame
  note facts = q.loop_gens [OF keys(1), of ?acc] q.loop_states [OF _ agree(1) keys(1)]
    q.loop_other_states [OF _ agree(1) keys(1)] u.loop_gens [OF keys(2), of ?qacc]
    u.loop_states [OF _ agree(2) keys(2)] u.loop_other_states [OF _ agree(2) keys(2)]
  have dq: "dom (rt_qers ?new) = qer_key ` set (rs_qers rules)"
    by (rule dom_from_loop) (simp_all add: frames facts)
  have du: "dom (rt_urrs ?new) = urr_key ` set (rs_urrs rules)"
    by (rule dom_from_loop) (simp_all add: frames facts)
  show ?thesis
    unfolding migrated_def runtime_for_def dq du by (simp add: frames facts)
qed

end

section \<open>Stores of a rule set\<close>

text \<open>
  Two objects hold a rule set with its runtime state, \<open>PacketPipeline\<close> and \<open>RuleService\<close>.
  \<open>put\<close> replaces the rule set; what either promises is that a success installs a valid snapshot
  with migrated state and a failure changes nothing.
\<close>

locale ruleset_store =
  fixes put :: "RuleSet \<Rightarrow> 's \<Rightarrow> unit result_of \<times> 's" and current :: "'s \<Rightarrow> RuleSet option"
    and runtime :: "'s \<Rightarrow> RuntimeState" and limits :: "'s \<Rightarrow> CapacityLimits"
  assumes put_success: "runtime_consistent (runtime s) \<Longrightarrow> ok (fst (put rules s)) \<Longrightarrow>
      current (snd (put rules s)) = Some rules \<and> ruleset_valid rules \<and> ruleset_fits (limits s) rules \<and>
      migrated rules (runtime s) (runtime (snd (put rules s)))"
    and put_failure: "\<not> ok (fst (put rules s)) \<Longrightarrow> snd (put rules s) = s"
    and put_limits: "limits (snd (put rules s)) = limits s"
begin

definition sound :: "'s \<Rightarrow> bool" where
  "sound s \<longleftrightarrow> runtime_consistent (runtime s) \<and>
     (\<forall>rules. current s = Some rules \<longrightarrow>
        ruleset_valid rules \<and> ruleset_fits (limits s) rules \<and> runtime_for rules (runtime s))"

lemma put_sound: "sound s \<Longrightarrow> sound (snd (put rules s))"
  using put_success [of s rules] put_failure [of rules s] put_limits [of rules s] runtime_for_consistent
  by (cases "ok (fst (put rules s))") (auto simp: sound_def migrated_def)

text \<open>After any sequence of attempts the store holds the last rule set it accepted.\<close>

lemma puts_sound: "sound s \<Longrightarrow> sound (foldl (\<lambda>s rules. snd (put rules s)) s rulesets)"
  by (induction rulesets arbitrary: s) (simp_all add: put_sound)

lemma puts_current:
  assumes "sound s" "current (foldl (\<lambda>s rules. snd (put rules s)) s rulesets) = Some rules"
  shows "rules \<in> set rulesets \<or> current s = Some rules"
  using assms
proof (induction rulesets arbitrary: s)
  case (Cons r rulesets)
  have "rules \<in> set rulesets \<or> current (snd (put r s)) = Some rules"
    using Cons.prems(2) by (intro Cons.IH [OF put_sound [OF Cons.prems(1), of r]]) simp
  moreover have "current (snd (put r s)) = Some rules \<Longrightarrow> rules = r \<or> current s = Some rules"
    using put_success [of s r] put_failure [of r s] Cons.prems(1)
    by (cases "ok (fst (put r s))") (auto simp: sound_def)
  ultimately show ?case by auto
qed simp

end

end
