(* ===== verification/Pipeline_Install.thy ===== *)
theory Pipeline_Install
  imports Pipeline Migration
begin

text \<open>
  What \<open>PacketPipeline::install\<close> does to the runtime state: both loops satisfy the migration
  contract, so an installed rule set has exactly one bucket per QER and one counter per URR,
  carried over where the generation is unchanged.
\<close>

section \<open>The loops satisfy the contract\<close>

lemma install_qer_simps:
  fixes qer
  defines "k \<equiv> qer_key qer"
  shows "rt_qerGenerations (snd (install_qer acc qer)) =
      (rt_qerGenerations (snd acc))(k \<mapsto> qer_generation qer)"
    "agree_on k (rt_qerGenerations (fst acc)) (rt_qers (fst acc)) \<Longrightarrow>
      rt_qers (snd (install_qer acc qer)) = (rt_qers (snd acc))(k \<mapsto>
        carried (rt_qerGenerations (fst acc)) (rt_qers (fst acc)) k (qer_generation qer)
          (TokenBucketState_new\<lparr>tb_tokensBytes := qer_burstBytes qer\<rparr>))"
    "j \<noteq> k \<Longrightarrow> rt_qerGenerations (fst (install_qer acc qer)) j = rt_qerGenerations (fst acc) j"
    "j \<noteq> k \<Longrightarrow> rt_qers (fst (install_qer acc qer)) j = rt_qers (fst acc) j"
  by (auto simp: install_qer_def Let_def k_def carried_def agree_on_def map_index_def
      split: prod.splits option.splits)

lemma install_urr_simps:
  fixes urr
  defines "k \<equiv> urr_key urr"
  shows "rt_urrGenerations (snd (install_urr acc urr)) =
      (rt_urrGenerations (snd acc))(k \<mapsto> urr_generation urr)"
    "agree_on k (rt_urrGenerations (fst acc)) (rt_urrs (fst acc)) \<Longrightarrow>
      rt_urrs (snd (install_urr acc urr)) = (rt_urrs (snd acc))(k \<mapsto>
        carried (rt_urrGenerations (fst acc)) (rt_urrs (fst acc)) k (urr_generation urr)
          UsageCounterState_new)"
    "j \<noteq> k \<Longrightarrow> rt_urrGenerations (fst (install_urr acc urr)) j = rt_urrGenerations (fst acc) j"
    "j \<noteq> k \<Longrightarrow> rt_urrs (fst (install_urr acc urr)) j = rt_urrs (fst acc) j"
  by (auto simp: install_urr_def Let_def k_def carried_def agree_on_def map_index_def
      split: prod.splits option.splits)

interpretation im: runtime_migration install_qer install_urr
proof unfold_locales
  fix acc qer
  show "rt_urrs (fst (install_qer acc qer)) = rt_urrs (fst acc)"
    "rt_urrs (snd (install_qer acc qer)) = rt_urrs (snd acc)"
    "rt_urrGenerations (fst (install_qer acc qer)) = rt_urrGenerations (fst acc)"
    "rt_urrGenerations (snd (install_qer acc qer)) = rt_urrGenerations (snd acc)"
    by (auto simp: install_qer_def Let_def split: prod.splits)
next
  fix acc urr
  show "rt_qers (snd (install_urr acc urr)) = rt_qers (snd acc)"
    "rt_qerGenerations (snd (install_urr acc urr)) = rt_qerGenerations (snd acc)"
    by (auto simp: install_urr_def Let_def split: prod.splits)
qed (simp_all add: install_qer_simps install_urr_simps)

section \<open>The effect of install\<close>

lemma install_migrate_migrated:
  "uniqueIds qer_id (rs_qers rules) \<Longrightarrow> uniqueIds urr_id (rs_urrs rules) \<Longrightarrow> runtime_consistent rt \<Longrightarrow>
   migrated rules rt (install_migrate rules rt)"
  unfolding install_migrate_def by (rule im.loops_migrate)

lemma install_effect_cases:
  assumes "runtime_consistent (pp_runtime p)"
  shows "if ruleset_valid rules \<and> ruleset_fits (pp_limits p) rules
    then \<exists>rt. install rules p = (success (), p\<lparr>pp_rules := Some rules, pp_runtime := rt\<rparr>) \<and>
      migrated rules (pp_runtime p) rt
    else \<exists>e. install rules p = (failure e, p)"
proof (cases "validateRuleSet rules (pp_limits p)")
  case (Inl e)
  then have "\<not> (ruleset_valid rules \<and> ruleset_fits (pp_limits p) rules)"
    using validateRuleSet_accepts [of rules "pp_limits p"] by simp
  moreover have "install rules p = (failure e, p)" using Inl by (simp add: install_def)
  ultimately show ?thesis by simp
next
  case (Inr u)
  then have valid: "ruleset_valid rules \<and> ruleset_fits (pp_limits p) rules"
    using validateRuleSet_accepts [of rules "pp_limits p"] by simp
  then have "migrated rules (pp_runtime p) (install_migrate rules (pp_runtime p))"
    using assms by (intro install_migrate_migrated) (auto simp: ruleset_valid_def)
  with valid Inr show ?thesis
    by (auto simp: install_def intro!: exI [of _ "install_migrate rules (pp_runtime p)"])
qed

interpretation pstore: ruleset_store install pp_rules pp_runtime pp_limits
proof unfold_locales
  fix p rules
  assume "runtime_consistent (pp_runtime p)" "ok (fst (install rules p))"
  with install_effect_cases [OF this(1), of rules]
  show "pp_rules (snd (install rules p)) = Some rules \<and> ruleset_valid rules \<and>
      ruleset_fits (pp_limits p) rules \<and> migrated rules (pp_runtime p) (pp_runtime (snd (install rules p)))"
    by (auto split: if_splits)
qed (auto simp: install_def split: sum.splits)

text \<open>
  C18. A successful \<open>install\<close> activates the whole rule set and gives it exactly its own
  runtime state: a QER or URR whose generation is unchanged keeps its bucket or counter, any
  other starts with a full bucket or a zero counter. A failed one changes nothing.
\<close>

lemma install_effect:
  assumes "runtime_consistent (pp_runtime p)"
  shows "if ruleset_valid rules \<and> ruleset_fits (pp_limits p) rules
    then \<exists>rt. install rules p = (success (), p\<lparr>pp_rules := Some rules, pp_runtime := rt\<rparr>) \<and>
      migrated rules (pp_runtime p) rt
    else \<exists>e. install rules p = (failure e, p)"
  by (rule install_effect_cases [OF assms])

lemma install_effect_witness:
  "\<exists>rt. install ul_rules (PacketPipeline_new CapacityLimits_default) =
     (success (), (PacketPipeline_new CapacityLimits_default)\<lparr>pp_rules := Some ul_rules, pp_runtime := rt\<rparr>) \<and>
   migrated ul_rules RuntimeState_new rt"
proof -
  let ?p = "PacketPipeline_new CapacityLimits_default"
  have "runtime_consistent (pp_runtime ?p)"
    by (simp add: PacketPipeline_new_def runtime_new_consistent)
  from install_effect [OF this, of ul_rules] show ?thesis
    using ul_validates validateRuleSet_accepts [of ul_rules CapacityLimits_default]
    by (simp add: PacketPipeline_new_def)
qed

end
