(* ===== verification/Pipeline_Outcomes.thy ===== *)
theory Pipeline_Outcomes
  imports Pipeline_Install
begin

text \<open>
  The contract of \<open>PacketPipeline::process\<close> as a step relation. \<open>packet_outcome packet p r
  delivery q\<close> lists the ways a packet can end: the terminal result \<open>r\<close>, what reaches a sink, and
  the pipeline \<open>q\<close> the step leaves behind, before the decision is retained. One rule per
  result, with the condition under which it arises.

  \<open>process_refines\<close> shows that on a pipeline satisfying the invariant \<open>process\<close> always
  returns, never dereferences a null pointer, and takes one of these steps.
\<close>

section \<open>The invariant\<close>

definition pipeline_bounded :: "PacketPipeline \<Rightarrow> bool" where
  "pipeline_bounded p \<longleftrightarrow>
     length (pp_n3Sink p) \<le> unat (lim_sinkPackets (pp_limits p)) \<and>
     length (pp_n6Sink p) \<le> unat (lim_sinkPackets (pp_limits p)) \<and>
     length (pp_reports p) \<le> unat (lim_reports (pp_limits p)) \<and>
     length (pp_events p) \<le> unat (lim_events (pp_limits p)) \<and>
     length (pp_decisions p) \<le> unat (lim_results (pp_limits p))"

text \<open>Every retained decision left an event or was counted as a dropped event.\<close>

definition pipeline_accounted :: "PacketPipeline \<Rightarrow> bool" where
  "pipeline_accounted p \<longleftrightarrow>
     length (pp_events p) + unat (pp_droppedEvents p) = length (pp_decisions p)"

definition pipeline_ruled :: "PacketPipeline \<Rightarrow> bool" where
  "pipeline_ruled p \<longleftrightarrow> runtime_consistent (pp_runtime p) \<and>
     (\<forall>rules. pp_rules p = Some rules \<longrightarrow>
        ruleset_valid rules \<and> ruleset_fits (pp_limits p) rules \<and> runtime_for rules (pp_runtime p))"

definition pipeline_inv :: "PacketPipeline \<Rightarrow> bool" where
  "pipeline_inv p \<longleftrightarrow> pipeline_ruled p \<and> pipeline_bounded p \<and> pipeline_accounted p"

lemma pipeline_inv_new: "pipeline_inv (PacketPipeline_new limits)"
  by (simp add: pipeline_inv_def pipeline_ruled_def pipeline_bounded_def pipeline_accounted_def
      PacketPipeline_new_def runtime_new_consistent)

lemma install_inv:
  assumes "pipeline_inv p"
  shows "pipeline_inv (snd (install rules p))"
proof -
  have "runtime_consistent (pp_runtime p)"
    using assms by (simp add: pipeline_inv_def pipeline_ruled_def)
  from install_effect_cases [OF this, of rules] assms show ?thesis
    by (auto simp: pipeline_inv_def pipeline_ruled_def pipeline_bounded_def pipeline_accounted_def
        migrated_def intro: runtime_for_consistent split: if_splits)
qed

section \<open>Steps\<close>

definition is_winner :: "RuleSet \<Rightarrow> Packet \<Rightarrow> Pdr \<Rightarrow> bool" where
  "is_winner rules packet w \<longleftrightarrow> best_match packet (rs_pdrs rules) = Some w"

lemma is_winnerD:
  assumes "is_winner rules packet w"
  shows "w \<in> set (rs_pdrs rules)" "pdr_matches w packet"
  using best_match_SomeD assms by (auto simp: is_winner_def)

definition accepted :: "Packet \<Rightarrow> PacketPipeline \<Rightarrow> RuleSet \<Rightarrow> bool" where
  "accepted packet p rules \<longleftrightarrow> pp_rules p = Some rules \<and> validPacket packet \<and>
     pkt_sessionId packet = rs_sessionId rules"

definition selected :: "Packet \<Rightarrow> PacketPipeline \<Rightarrow> RuleSet \<Rightarrow> Pdr \<Rightarrow> bool" where
  "selected packet p rules w \<longleftrightarrow> accepted packet p rules \<and> is_winner rules packet w"

text \<open>The winner's QER and URR, evaluated on the current runtime state; \<open>None\<close> without one.\<close>

definition qer_outcome :: "RuleSet \<Rightarrow> Pdr \<Rightarrow> Packet \<Rightarrow> RuntimeState \<Rightarrow> QerEvaluation option" where
  "qer_outcome rules w packet rt =
     (case pdr_qerId w of None \<Rightarrow> None
      | Some i \<Rightarrow> (case (findQer rules i, rt_qers rt (id_value i)) of
          (Some qer, Some s) \<Rightarrow> Some (evaluateQer qer s (ucast (pkt_payloadBytes packet))
            (pkt_arrivalTimeMicros packet))
        | _ \<Rightarrow> None))"

definition urr_outcome :: "RuleSet \<Rightarrow> Pdr \<Rightarrow> Packet \<Rightarrow> RuntimeState \<Rightarrow> UrrEvaluation option" where
  "urr_outcome rules w packet rt =
     (case pdr_urrId w of None \<Rightarrow> None
      | Some i \<Rightarrow> (case (findUrr rules i, rt_urrs rt (id_value i)) of
          (Some urr, Some s) \<Rightarrow> Some (evaluateUrr urr s (ucast (pkt_payloadBytes packet))
            (rs_sessionId rules) (rs_version rules))
        | _ \<Rightarrow> None))"

definition admits :: "QerEvaluation option \<Rightarrow> bool" where
  "admits e \<longleftrightarrow> (\<forall>x. e = Some x \<longrightarrow> qd_allowed (qe_decision x))"

definition reportable :: "PacketPipeline \<Rightarrow> UrrEvaluation option \<Rightarrow> bool" where
  "reportable p u \<longleftrightarrow> (\<forall>x. u = Some x \<longrightarrow> \<not> ue_overflow x \<and>
     (ue_reportGenerated x \<longrightarrow> length (pp_reports p) < unat (lim_reports (pp_limits p))))"

definition with_bucket :: "Pdr \<Rightarrow> QerEvaluation option \<Rightarrow> PacketPipeline \<Rightarrow> PacketPipeline" where
  "with_bucket w e p =
     (case (pdr_qerId w, e) of
        (Some i, Some x) \<Rightarrow> p\<lparr>pp_runtime := (pp_runtime p)\<lparr>rt_qers :=
          (rt_qers (pp_runtime p))(id_value i \<mapsto> qe_next x)\<rparr>\<rparr>
      | _ \<Rightarrow> p)"

definition with_usage :: "Pdr \<Rightarrow> UrrEvaluation option \<Rightarrow> PacketPipeline \<Rightarrow> PacketPipeline" where
  "with_usage w u p =
     (case (pdr_urrId w, u) of
        (Some i, Some x) \<Rightarrow>
          (let p = p\<lparr>pp_runtime := (pp_runtime p)\<lparr>rt_urrs :=
             (rt_urrs (pp_runtime p))(id_value i \<mapsto> ue_next x)\<rparr>\<rparr>
           in if ue_reportGenerated x
              then p\<lparr>pp_reports := pp_reports p @ [ud_reportId (ue_decision x)]\<rparr> else p)
      | _ \<Rightarrow> p)"

definition sink_of :: "Interface \<Rightarrow> PacketPipeline \<Rightarrow> Packet list" where
  "sink_of i p = (case i of N3 \<Rightarrow> pp_n3Sink p | N6 \<Rightarrow> pp_n6Sink p)"

definition deliver :: "Interface \<Rightarrow> Packet \<Rightarrow> PacketPipeline \<Rightarrow> PacketPipeline" where
  "deliver i packet p =
     (case i of N3 \<Rightarrow> p\<lparr>pp_n3Sink := pp_n3Sink p @ [packet]\<rparr>
      | N6 \<Rightarrow> p\<lparr>pp_n6Sink := pp_n6Sink p @ [packet]\<rparr>)"

definition transformed :: "Far \<Rightarrow> Packet \<Rightarrow> Packet" where
  "transformed far packet = packet\<lparr>pkt_tunnel :=
     (case pkt_ingress packet of N3 \<Rightarrow> None | N6 \<Rightarrow> far_tunnel far)\<rparr>"

definition forwarded_result :: "Interface \<Rightarrow> TerminalResult" where
  "forwarded_result i = (case i of N3 \<Rightarrow> FORWARDED_TO_N3 | N6 \<Rightarrow> FORWARDED_TO_N6)"

inductive packet_outcome ::
  "Packet \<Rightarrow> PacketPipeline \<Rightarrow> TerminalResult \<Rightarrow> (Interface \<times> Packet) option \<Rightarrow> PacketPipeline \<Rightarrow> bool"
  for packet p
where
  no_rules: "pp_rules p = None \<Longrightarrow> packet_outcome packet p NO_MATCH None p"
| malformed: "pp_rules p = Some rules \<Longrightarrow>
    \<not> validPacket packet \<or> pkt_sessionId packet \<noteq> rs_sessionId rules \<Longrightarrow>
    packet_outcome packet p MALFORMED_PACKET None p"
| no_match: "accepted packet p rules \<Longrightarrow> \<forall>x \<in> set (rs_pdrs rules). \<not> pdr_matches x packet \<Longrightarrow>
    packet_outcome packet p NO_MATCH None p"
| denied: "selected packet p rules w \<Longrightarrow> qer_outcome rules w packet (pp_runtime p) = Some e \<Longrightarrow>
    \<not> qd_allowed (qe_decision e) \<Longrightarrow> qe_failure e \<in> {GATE_CLOSED, ARITHMETIC_ERROR} \<Longrightarrow>
    packet_outcome packet p (qe_failure e) None p"
| limited: "selected packet p rules w \<Longrightarrow> qer_outcome rules w packet (pp_runtime p) = Some e \<Longrightarrow>
    \<not> qd_allowed (qe_decision e) \<Longrightarrow> qe_failure e = RATE_LIMITED \<Longrightarrow>
    packet_outcome packet p RATE_LIMITED None (with_bucket w (Some e) p)"
| uncountable: "selected packet p rules w \<Longrightarrow> admits (qer_outcome rules w packet (pp_runtime p)) \<Longrightarrow>
    urr_outcome rules w packet (pp_runtime p) = Some u \<Longrightarrow> ue_overflow u \<Longrightarrow>
    packet_outcome packet p ARITHMETIC_ERROR None p"
| reports_full: "selected packet p rules w \<Longrightarrow> admits (qer_outcome rules w packet (pp_runtime p)) \<Longrightarrow>
    urr_outcome rules w packet (pp_runtime p) = Some u \<Longrightarrow> ue_reportGenerated u \<Longrightarrow>
    length (pp_reports p) \<ge> unat (lim_reports (pp_limits p)) \<Longrightarrow>
    packet_outcome packet p CAPACITY_ERROR None p"
| sink_full: "selected packet p rules w \<Longrightarrow> admits (qer_outcome rules w packet (pp_runtime p)) \<Longrightarrow>
    reportable p (urr_outcome rules w packet (pp_runtime p)) \<Longrightarrow>
    findFar rules (pdr_farId w) = Some far \<Longrightarrow> far_action far = FORWARD \<Longrightarrow>
    length (sink_of (opposite (pkt_ingress packet)) p) \<ge> unat (lim_sinkPackets (pp_limits p)) \<Longrightarrow>
    packet_outcome packet p CAPACITY_ERROR None p"
| dropped: "selected packet p rules w \<Longrightarrow> e = qer_outcome rules w packet (pp_runtime p) \<Longrightarrow>
    admits e \<Longrightarrow> u = urr_outcome rules w packet (pp_runtime p) \<Longrightarrow> reportable p u \<Longrightarrow>
    findFar rules (pdr_farId w) = Some far \<Longrightarrow> far_action far = DROP \<Longrightarrow>
    packet_outcome packet p FAR_DROPPED None (with_usage w u (with_bucket w e p))"
| forwarded: "selected packet p rules w \<Longrightarrow> e = qer_outcome rules w packet (pp_runtime p) \<Longrightarrow>
    admits e \<Longrightarrow> u = urr_outcome rules w packet (pp_runtime p) \<Longrightarrow> reportable p u \<Longrightarrow>
    findFar rules (pdr_farId w) = Some far \<Longrightarrow> far_action far = FORWARD \<Longrightarrow>
    i = opposite (pkt_ingress packet) \<Longrightarrow>
    length (sink_of i p) < unat (lim_sinkPackets (pp_limits p)) \<Longrightarrow>
    packet_outcome packet p (forwarded_result i) (Some (i, transformed far packet))
      (deliver i (transformed far packet) (with_usage w u (with_bucket w e p)))"

section \<open>The blocks of process on a pipeline with installed rules\<close>

lemma runtime_self [simp]:
  "p\<lparr>pp_runtime := (pp_runtime p)\<lparr>rt_qers := rt_qers (pp_runtime p)\<rparr>\<rparr> = p"
  "p\<lparr>pp_runtime := (pp_runtime p)\<lparr>rt_urrs := rt_urrs (pp_runtime p)\<rparr>\<rparr> = p"
  by (cases p; cases "pp_runtime p"; simp)+

text \<open>The part of a decision the blocks before the commit leave as \<open>decision_start\<close> set it.\<close>

definition head_of :: "PacketDecision \<Rightarrow> string \<times> string \<times> u64 \<times> bool \<times> bool" where
  "head_of d = (pd_packetId d, pd_sessionId d, pd_rulesetVersion d, pd_sinkPresent d,
     pd_transformedPresent d)"

lemma qer_lookup:
  assumes "pipeline_ruled p" "pp_rules p = Some rules" "w \<in> set (rs_pdrs rules)" "pdr_qerId w = Some i"
  obtains qer s where "findQer rules i = Some qer" "qer_id qer = i"
    "rt_qers (pp_runtime p) (id_value i) = Some s"
proof -
  have valid: "ruleset_valid rules" and rt: "runtime_for rules (pp_runtime p)"
    using assms by (auto simp: pipeline_ruled_def)
  obtain qer where qer: "findQer rules i = Some qer"
    using valid_pdr_complete [OF valid assms(3)] assms(4) by (auto simp: pdr_complete_def)
  note found = qers.lookup_mem [OF qer] qers.lookup_ident [OF qer]
  obtain s where "rt_qers (pp_runtime p) (qer_key qer) = Some s"
    using runtime_for_bucket [OF rt found(1)] by blast
  with qer found(2) that show ?thesis by simp
qed

lemma urr_lookup:
  assumes "pipeline_ruled p" "pp_rules p = Some rules" "w \<in> set (rs_pdrs rules)" "pdr_urrId w = Some i"
  obtains urr s where "findUrr rules i = Some urr" "urr_id urr = i"
    "rt_urrs (pp_runtime p) (id_value i) = Some s"
proof -
  have valid: "ruleset_valid rules" and rt: "runtime_for rules (pp_runtime p)"
    using assms by (auto simp: pipeline_ruled_def)
  obtain urr where urr: "findUrr rules i = Some urr"
    using valid_pdr_complete [OF valid assms(3)] assms(4) by (auto simp: pdr_complete_def)
  note found = urrs.lookup_mem [OF urr] urrs.lookup_ident [OF urr]
  obtain s where "rt_urrs (pp_runtime p) (urr_key urr) = Some s"
    using runtime_for_counter [OF rt found(1)] by blast
  with urr found(2) that show ?thesis by simp
qed

text \<open>What the blocks write into the decision.\<close>

definition qer_facts :: "QerEvaluation option \<Rightarrow> QerDecision" where
  "qer_facts e = (case e of
     None \<Rightarrow> QerDecision_new\<lparr>qd_outcome := ''NOT_APPLICABLE'', qd_allowed := True\<rparr>
   | Some x \<Rightarrow> qe_decision x)"

definition far_facts :: "Far \<Rightarrow> Packet \<Rightarrow> FarDecision" where
  "far_facts far packet = \<lparr>fd_applicable = True, fd_farId = id_value (far_id far),
     fd_action = far_action far, fd_destination = fe_destination (evaluateFar far packet),
     fd_before = pkt_tunnel packet, fd_after = pkt_tunnel (fe_packet (evaluateFar far packet))\<rparr>"

definition urr_facts :: "UrrEvaluation option \<Rightarrow> UrrDecision" where
  "urr_facts u = (case u of None \<Rightarrow> UrrDecision_new | Some x \<Rightarrow> ue_decision x)"

definition blank :: "PacketDecision \<Rightarrow> bool" where
  "blank d \<longleftrightarrow> pd_qer d = QerDecision_new \<and> pd_far d = FarDecision_new \<and> pd_urr d = UrrDecision_new"

text \<open>The update a block leaves to the commit.\<close>

definition pending :: "RuleId option \<Rightarrow> 'a option \<Rightarrow> (RuleId \<times> 'a) option" where
  "pending i x = (case (i, x) of (Some i, Some x) \<Rightarrow> Some (i, x) | _ \<Rightarrow> None)"

lemma qer_block_cases:
  fixes packet
  assumes "pipeline_ruled p" "pp_rules p = Some rules" "w \<in> set (rs_pdrs rules)" "blank d"
  defines "e \<equiv> qer_outcome rules w packet (pp_runtime p)"
  obtains (denied) x where "e = Some x" "\<not> qd_allowed (qe_decision x)"
      "qer_block rules w packet d p = Return (retain_as (qe_failure x) (d\<lparr>pd_qer := qe_decision x\<rparr>)
        (if qe_failure x = RATE_LIMITED then with_bucket w e p else p))"
  | (admitted) "admits e"
      "qer_block rules w packet d p =
        Continue (d\<lparr>pd_qer := qer_facts e\<rparr>, p, pending (pdr_qerId w) (map_option qe_next e))"
proof (cases "pdr_qerId w")
  case None
  then show ?thesis
    using assms(4) by (intro that(2))
      (simp_all add: pending_def qer_block_def e_def qer_outcome_def admits_def qer_facts_def blank_def)
next
  case (Some i)
  obtain qer s where look: "findQer rules i = Some qer" "qer_id qer = i"
    "rt_qers (pp_runtime p) (id_value i) = Some s"
    by (rule qer_lookup [OF assms(1-3) Some])
  define x where "x = evaluateQer qer s (ucast (pkt_payloadBytes packet)) (pkt_arrivalTimeMicros packet)"
  have e: "e = Some x" by (simp add: e_def qer_outcome_def Some look x_def)
  show ?thesis
  proof (cases "qd_allowed (qe_decision x)")
    case True
    show ?thesis
      by (rule that(2))
        (use True in \<open>simp_all add: pending_def e qer_facts_def admits_def qer_block_def Some look x_def [symmetric]\<close>)
  next
    case False
    show ?thesis
      by (rule that(1) [OF e False])
        (simp add: qer_block_def Some look x_def [symmetric] False with_bucket_def e)
  qed
qed

lemma qer_failure_kinds:
  "qe_failure (evaluateQer qer s n now) \<in> {GATE_CLOSED, ARITHMETIC_ERROR, RATE_LIMITED}"
  by (simp add: evaluateQer_def Let_def split: option.split)

lemma urr_block_cases:
  fixes packet
  assumes "pipeline_ruled p" "pp_rules p = Some rules" "w \<in> set (rs_pdrs rules)" "pd_urr d = UrrDecision_new"
  defines "u \<equiv> urr_outcome rules w packet (pp_runtime p)"
  obtains (overflow) x where "u = Some x" "ue_overflow x"
      "urr_block rules w packet d p = Return (retain_as ARITHMETIC_ERROR (d\<lparr>pd_urr := ue_decision x\<rparr>) p)"
  | (full) x where "u = Some x" "ue_reportGenerated x"
      "length (pp_reports p) \<ge> unat (lim_reports (pp_limits p))"
      "urr_block rules w packet d p = Return (retain_as CAPACITY_ERROR (d\<lparr>pd_urr := ue_decision x\<rparr>) p)"
  | (counted) "reportable p u"
      "urr_block rules w packet d p =
        Continue (d\<lparr>pd_urr := urr_facts u\<rparr>, p, pending (pdr_urrId w) u)"
proof (cases "pdr_urrId w")
  case None
  then show ?thesis
    using that(3) assms(4)
    by (cases d) (simp add: pending_def urr_block_def u_def urr_outcome_def reportable_def urr_facts_def)
next
  case (Some i)
  obtain urr s where look: "findUrr rules i = Some urr" "urr_id urr = i"
    "rt_urrs (pp_runtime p) (id_value i) = Some s"
    by (rule urr_lookup [OF assms(1-3) Some])
  define x where "x = evaluateUrr urr s (ucast (pkt_payloadBytes packet)) (rs_sessionId rules) (rs_version rules)"
  have u: "u = Some x" by (simp add: u_def urr_outcome_def Some look x_def)
  note block = urr_block_def Some look x_def [symmetric]
  consider (o) "ue_overflow x"
    | (f) "\<not> ue_overflow x" "ue_reportGenerated x" "length (pp_reports p) \<ge> unat (lim_reports (pp_limits p))"
    | (c) "reportable p u"
    unfolding reportable_def u by (metis not_le_imp_less option.inject)
  then show ?thesis
  proof cases
    case o
    then show ?thesis by (intro that(1) [OF u]) (simp_all add: block)
  next
    case f
    then show ?thesis by (intro that(2) [OF u]) (simp_all add: block)
  next
    case c
    then show ?thesis
      by (intro that(3)) (auto simp: pending_def block u reportable_def urr_facts_def)
  qed
qed

lemma far_block_continues:
  assumes "pipeline_ruled p" "pp_rules p = Some rules" "w \<in> set (rs_pdrs rules)" "pdr_matches w packet"
  obtains far where "findFar rules (pdr_farId w) = Some far"
    "\<And>d. far_block rules w packet d p = Continue (d\<lparr>pd_far := far_facts far packet\<rparr>, far, evaluateFar far packet)"
    "fe_forwarded (evaluateFar far packet) \<longleftrightarrow> far_action far = FORWARD"
proof -
  have valid: "ruleset_valid rules" using assms by (auto simp: pipeline_ruled_def)
  obtain far where far: "findFar rules (pdr_farId w) = Some far" "far_fits w far"
    using valid_pdr_complete [OF valid assms(3)] by (auto simp: pdr_complete_def)
  have eval: "fe_valid (evaluateFar far packet)"
    "fe_forwarded (evaluateFar far packet) \<longleftrightarrow> far_action far = FORWARD"
    using far(2) assms(4)
    by (auto simp: far_fits_def pdr_matches_def evaluateFar_valid evaluateFar_forwarded opposite_def
        split: FarAction.splits Interface.splits)
  show ?thesis
    by (rule that [OF far(1) _ eval(2)]) (simp add: far_block_def far_facts_def Let_def far(1) eval(1))
qed

text \<open>The commit, on the pending updates the blocks hand over.\<close>

lemma opposite_N3 [simp]: "opposite i = N3 \<longleftrightarrow> i = N6"
  by (cases i) (simp_all add: opposite_def)

lemma with_frames [frame_simps]:
  "pp_rules (with_bucket w e p) = pp_rules p" "pp_rules (with_usage w u p) = pp_rules p"
  "pp_limits (with_bucket w e p) = pp_limits p" "pp_limits (with_usage w u p) = pp_limits p"
  "pp_n3Sink (with_bucket w e p) = pp_n3Sink p" "pp_n3Sink (with_usage w u p) = pp_n3Sink p"
  "pp_n6Sink (with_bucket w e p) = pp_n6Sink p" "pp_n6Sink (with_usage w u p) = pp_n6Sink p"
  "pp_decisions (with_bucket w e p) = pp_decisions p" "pp_decisions (with_usage w u p) = pp_decisions p"
  "pp_events (with_bucket w e p) = pp_events p" "pp_events (with_usage w u p) = pp_events p"
  "pp_droppedEvents (with_bucket w e p) = pp_droppedEvents p"
  "pp_droppedEvents (with_usage w u p) = pp_droppedEvents p"
  "pp_reports (with_bucket w e p) = pp_reports p"
  by (simp_all add: with_bucket_def with_usage_def Let_def split: option.split)

lemma with_bucket_pending:
  "(case pending (pdr_qerId w) (map_option qe_next e) of None \<Rightarrow> p | Some (i, next) \<Rightarrow>
     p\<lparr>pp_runtime := (pp_runtime p)\<lparr>rt_qers := (rt_qers (pp_runtime p))(id_value i \<mapsto> next)\<rparr>\<rparr>) =
   with_bucket w e p"
  by (simp add: pending_def with_bucket_def split: option.split)

lemma with_usage_pending:
  "(case pending (pdr_urrId w) u of None \<Rightarrow> p | Some (i, x) \<Rightarrow>
     (let p = p\<lparr>pp_runtime := (pp_runtime p)\<lparr>rt_urrs := (rt_urrs (pp_runtime p))(id_value i \<mapsto> ue_next x)\<rparr>\<rparr>
      in if ue_reportGenerated x then p\<lparr>pp_reports := pp_reports p @ [ud_reportId (ue_decision x)]\<rparr> else p)) =
   with_usage w u p"
  by (simp add: pending_def with_usage_def split: option.split)

text \<open>How a decision records a delivery, and the delivery a decision records.\<close>

definition with_delivery :: "Interface \<Rightarrow> Packet \<Rightarrow> PacketDecision \<Rightarrow> PacketDecision" where
  "with_delivery i packet d = d\<lparr>pd_transformedPresent := True, pd_transformedPacket := packet,
     pd_sinkPresent := True, pd_sink := i\<rparr>"

definition delivery_of :: "PacketDecision \<Rightarrow> (Interface \<times> Packet) option" where
  "delivery_of d = (if pd_sinkPresent d \<and> pd_transformedPresent d
     then Some (pd_sink d, pd_transformedPacket d) else None)"

lemma commit_block_drop:
  assumes "far_action far = DROP" "fe_forwarded (evaluateFar far packet) \<longleftrightarrow> far_action far = FORWARD"
  shows "commit_block (pending (pdr_qerId w) (map_option qe_next e)) (pending (pdr_urrId w) u)
    far (evaluateFar far packet) d p = retain_as FAR_DROPPED d (with_usage w u (with_bucket w e p))"
  using assms by (simp add: commit_block_def with_bucket_pending with_usage_pending)

lemma commit_block_forward:
  assumes "far_action far = FORWARD" "fe_forwarded (evaluateFar far packet) \<longleftrightarrow> far_action far = FORWARD"
  defines "i \<equiv> opposite (pkt_ingress packet)"
  shows "commit_block (pending (pdr_qerId w) (map_option qe_next e)) (pending (pdr_urrId w) u)
      far (evaluateFar far packet) d p =
    (if length (sink_of i p) \<ge> unat (lim_sinkPackets (pp_limits p)) then retain_as CAPACITY_ERROR d p
     else retain_as (forwarded_result i) (with_delivery i (transformed far packet) d)
       (deliver i (transformed far packet) (with_usage w u (with_bucket w e p))))"
proof -
  have fwd: "fe_forwarded (evaluateFar far packet)" using assms by simp
  note eval = evaluateFar_forwarding [OF fwd, folded i_def transformed_def]
  show ?thesis
    using assms(1) fwd
    by (cases i) (simp_all add: commit_block_def eval with_bucket_pending with_usage_pending
        sink_of_def deliver_def forwarded_result_def with_delivery_def frame_simps Let_def)
qed

section \<open>Refinement\<close>

lemma decision_start_head:
  "head_of (decision_start ind packet runId scenarioId rules) =
    (pkt_packetId packet, pkt_sessionId packet,
     case rules of None \<Rightarrow> 0 | Some r \<Rightarrow> rs_version r, False, False)"
  by (simp add: head_of_def decision_start_def PacketDecision_new_def Let_def split: option.split)

lemma decision_start_blank:
  "pd_selectedPdrId (decision_start ind packet runId scenarioId rules) = 0 \<and>
   blank (decision_start ind packet runId scenarioId rules)"
  by (simp add: blank_def decision_start_def PacketDecision_new_def Let_def split: option.split)

lemma head_delivery: "head_of d = (a, b, c, False, False) \<Longrightarrow> delivery_of d = None"
  by (simp add: head_of_def delivery_of_def)

text \<open>
  A decision explains a step when it names the selected PDR and holds what the engines computed
  for it, up to the one that stopped the packet; a packet without a PDR leaves it blank.
\<close>

definition explains :: "Packet \<Rightarrow> PacketPipeline \<Rightarrow> PacketDecision \<Rightarrow> bool" where
  "explains packet p d \<longleftrightarrow>
     ((\<nexists>rules w. selected packet p rules w) \<longrightarrow> pd_selectedPdrId d = 0 \<and> blank d) \<and>
     (\<forall>rules w. selected packet p rules w \<longrightarrow>
        pd_selectedPdrId d = id_value (pdr_id w) \<and>
        pd_qer d = qer_facts (qer_outcome rules w packet (pp_runtime p)) \<and>
        (if admits (qer_outcome rules w packet (pp_runtime p))
         then pd_urr d = urr_facts (urr_outcome rules w packet (pp_runtime p)) \<and>
           (\<exists>far. findFar rules (pdr_farId w) = Some far \<and> pd_far d = far_facts far packet)
         else pd_urr d = UrrDecision_new \<and> pd_far d = FarDecision_new))"

lemma selected_unique:
  assumes "selected packet p rules w" "selected packet p rules' w'"
  shows "rules' = rules \<and> w' = w"
  using assms by (auto simp: selected_def accepted_def is_winner_def)

lemma selected_iff: "selected packet p rules w \<Longrightarrow> selected packet p r v \<longleftrightarrow> r = rules \<and> v = w"
  using selected_unique by blast

lemma explains_blank:
  "\<nexists>rules w. selected packet p rules w \<Longrightarrow> pd_selectedPdrId d = 0 \<Longrightarrow> blank d \<Longrightarrow> explains packet p d"
  by (auto simp: explains_def)

lemma explains_denied:
  assumes "selected packet p rules w" "qer_outcome rules w packet (pp_runtime p) = Some x"
    "\<not> qd_allowed (qe_decision x)" "pd_selectedPdrId d = id_value (pdr_id w)" "blank d"
  shows "explains packet p (d\<lparr>pd_qer := qe_decision x\<rparr>)"
  using assms(2-) by (auto simp: explains_def selected_iff [OF assms(1)] qer_facts_def admits_def blank_def)

lemma explains_admitted:
  assumes "selected packet p rules w" "admits (qer_outcome rules w packet (pp_runtime p))"
    "findFar rules (pdr_farId w) = Some far" "pd_selectedPdrId d = id_value (pdr_id w)"
  shows "explains packet p (d\<lparr>pd_qer := qer_facts (qer_outcome rules w packet (pp_runtime p)),
    pd_far := far_facts far packet, pd_urr := urr_facts (urr_outcome rules w packet (pp_runtime p))\<rparr>)"
  using assms(2-) by (auto simp: explains_def selected_iff [OF assms(1)])

lemma explains_retained [frame_simps]:
  "explains packet p (fst (retain_as r d q)) = explains packet p d"
  "explains packet p (with_delivery i t d) = explains packet p d"
  by (simp_all add: explains_def blank_def retain_as_def retain_def with_delivery_def Let_def)

text \<open>
  What a run of \<open>process\<close> amounts to: the decision carries the packet's identity, the version of
  the installed rule set and the delivery of the step, explains it, and is then retained.
\<close>

definition run_outcome ::
  "Packet \<Rightarrow> PacketPipeline \<Rightarrow> TerminalResult \<Rightarrow> (Interface \<times> Packet) option \<Rightarrow> PacketPipeline \<Rightarrow>
   (PacketDecision \<times> PacketPipeline) option \<Rightarrow> bool"
where
  "run_outcome packet p r delivery q result \<longleftrightarrow> packet_outcome packet p r delivery q \<and>
     (\<exists>d. result = Some (retain_as r d q) \<and> delivery_of d = delivery \<and> explains packet p d \<and>
        pd_packetId d = pkt_packetId packet \<and> pd_sessionId d = pkt_sessionId packet \<and>
        pd_rulesetVersion d = (case pp_rules p of None \<Rightarrow> 0 | Some rules \<Rightarrow> rs_version rules))"

lemma run_outcome_undelivered:
  assumes "packet_outcome packet p r None q"
    and "head_of d = head_of (decision_start ind packet runId scenarioId (pp_rules p))" "explains packet p d"
  shows "run_outcome packet p r None q (Some (retain_as r d q))"
proof -
  have "head_of d = (pkt_packetId packet, pkt_sessionId packet,
      case pp_rules p of None \<Rightarrow> 0 | Some r \<Rightarrow> rs_version r, False, False)"
    using assms(2) by (simp add: decision_start_head)
  then show ?thesis
    using assms(1,3) head_delivery by (auto simp: run_outcome_def head_of_def)
qed

lemma run_outcome_delivered:
  assumes "packet_outcome packet p r (Some (i, t)) q"
    and "head_of d = head_of (decision_start ind packet runId scenarioId (pp_rules p))" "explains packet p d"
  shows "run_outcome packet p r (Some (i, t)) q (Some (retain_as r (with_delivery i t d) q))"
proof -
  have "head_of d = (pkt_packetId packet, pkt_sessionId packet,
      case pp_rules p of None \<Rightarrow> 0 | Some r \<Rightarrow> rs_version r, False, False)"
    using assms(2) by (simp add: decision_start_head)
  then have "delivery_of (with_delivery i t d) = Some (i, t)"
    "pd_packetId (with_delivery i t d) = pkt_packetId packet"
    "pd_sessionId (with_delivery i t d) = pkt_sessionId packet"
    "pd_rulesetVersion (with_delivery i t d) = (case pp_rules p of None \<Rightarrow> 0 | Some r \<Rightarrow> rs_version r)"
    by (simp_all add: head_of_def with_delivery_def delivery_of_def)
  with assms(1,3) show ?thesis unfolding run_outcome_def by (metis explains_retained(2))
qed

text \<open>The part of \<open>process\<close> after the winner is known.\<close>

lemma selected_outcome:
  assumes inv: "pipeline_ruled p" and sel: "selected packet p rules w"
    and head: "head_of d = head_of (decision_start ind packet runId scenarioId (pp_rules p))"
    and pdr: "pd_selectedPdrId d = id_value (pdr_id w)" and blank: "blank d"
  shows "\<exists>r delivery q. run_outcome packet p r delivery q
    (flow_then (qer_block rules w packet d p) (\<lambda>(d, p, tokens).
     flow_then (far_block rules w packet d p) (\<lambda>(d, far, farEvaluation).
     flow_then (urr_block rules w packet d p) (\<lambda>(d, p, usage).
     Some (commit_block tokens usage far farEvaluation d p)))))" (is "\<exists>r delivery q. run_outcome packet p r delivery q ?run")
proof -
  have rules: "pp_rules p = Some rules" and w: "w \<in> set (rs_pdrs rules)" "pdr_matches w packet"
    using sel by (auto simp: selected_def accepted_def dest: is_winnerD)
  define e where "e = qer_outcome rules w packet (pp_runtime p)"
  define u where "u = urr_outcome rules w packet (pp_runtime p)"
  show ?thesis
  proof (cases rule: qer_block_cases [OF inv rules w(1) blank, of packet, consumes 0, case_names denied admitted])
    case (denied x)
    have head': "head_of (d\<lparr>pd_qer := qe_decision x\<rparr>) =
        head_of (decision_start ind packet runId scenarioId (pp_rules p))"
      using head by (simp add: head_of_def)
    obtain qer s n now where "x = evaluateQer qer s n now"
      using denied(1) by (auto simp: qer_outcome_def split: option.splits)
    then have kinds: "qe_failure x \<in> {GATE_CLOSED, ARITHMETIC_ERROR, RATE_LIMITED}"
      using qer_failure_kinds by simp
    have "packet_outcome packet p (qe_failure x) None
        (if qe_failure x = RATE_LIMITED then with_bucket w (Some x) p else p)"
      using packet_outcome.limited [OF sel denied(1,2)] packet_outcome.denied [OF sel denied(1,2)] kinds
      by auto
    note step = run_outcome_undelivered [OF this head' explains_denied [OF sel denied(1,2) pdr blank]]
    have run: "?run = Some (retain_as (qe_failure x) (d\<lparr>pd_qer := qe_decision x\<rparr>)
        (if qe_failure x = RATE_LIMITED then with_bucket w (Some x) p else p))"
      using denied(1,3) by simp
    show ?thesis unfolding run by (intro exI, rule step)
  next
    case admitted
    obtain far where far: "findFar rules (pdr_farId w) = Some far"
      "\<And>d. far_block rules w packet d p = Continue (d\<lparr>pd_far := far_facts far packet\<rparr>, far, evaluateFar far packet)"
      "fe_forwarded (evaluateFar far packet) \<longleftrightarrow> far_action far = FORWARD"
      by (rule far_block_continues [OF inv rules w]) (rule that)
    define d2 where "d2 = d\<lparr>pd_qer := qer_facts e, pd_far := far_facts far packet\<rparr>"
    define d3 where "d3 = d2\<lparr>pd_urr := urr_facts u\<rparr>"
    have urr: "pd_urr d2 = UrrDecision_new" using blank by (simp add: d2_def blank_def)
    have head3: "head_of d3 = head_of (decision_start ind packet runId scenarioId (pp_rules p))"
      using head by (simp add: d3_def d2_def head_of_def)
    have explained: "explains packet p d3"
      using explains_admitted [OF sel admitted(1) far(1) pdr] by (simp add: d3_def d2_def e_def u_def)
    have upto: "?run = flow_then (urr_block rules w packet d2 p) (\<lambda>(d, p, usage). Some (commit_block
        (pending (pdr_qerId w) (map_option qe_next e)) usage far (evaluateFar far packet) d p))"
      using admitted(2) far(2) by (simp add: e_def d2_def)
    show ?thesis
    proof (cases rule: urr_block_cases [OF inv rules w(1) urr, of packet, consumes 0, case_names overflow full counted])
      case (overflow x)
      have "?run = Some (retain_as ARITHMETIC_ERROR d3 p)"
        using overflow unfolding upto by (simp add: d3_def u_def urr_facts_def)
      with run_outcome_undelivered [OF packet_outcome.uncountable [OF sel admitted(1) overflow(1,2)] head3 explained]
      show ?thesis by auto
    next
      case (full x)
      have "?run = Some (retain_as CAPACITY_ERROR d3 p)"
        using full unfolding upto by (simp add: d3_def u_def urr_facts_def)
      with run_outcome_undelivered [OF packet_outcome.reports_full [OF sel admitted(1) full(1-3)] head3 explained]
      show ?thesis by auto
    next
      case counted
      have run: "?run = Some (commit_block (pending (pdr_qerId w) (map_option qe_next e)) (pending (pdr_urrId w) u)
          far (evaluateFar far packet) d3 p)"
        using counted(2) unfolding upto by (simp add: u_def d3_def)
      note fits = sel e_def admitted(1) [folded e_def] u_def counted(1) [folded u_def] far(1)
      show ?thesis
      proof (cases "far_action far")
        case DROP
        show ?thesis
          unfolding run commit_block_drop [OF DROP far(3)]
          using run_outcome_undelivered [OF packet_outcome.dropped [OF fits DROP] head3 explained] by blast
      next
        case FORWARD
        let ?i = "opposite (pkt_ingress packet)"
        show ?thesis
        proof (cases "length (sink_of ?i p) \<ge> unat (lim_sinkPackets (pp_limits p))")
          case True
          from run_outcome_undelivered
            [OF packet_outcome.sink_full [OF sel admitted(1) counted(1) far(1) FORWARD True] head3 explained]
          show ?thesis
            using True unfolding run commit_block_forward [OF FORWARD far(3)] by auto
        next
          case False
          then have room: "length (sink_of ?i p) < unat (lim_sinkPackets (pp_limits p))" by simp
          from run_outcome_delivered [OF packet_outcome.forwarded [OF fits FORWARD refl room] head3 explained]
          show ?thesis
            using False unfolding run commit_block_forward [OF FORWARD far(3)] by auto
        qed
      qed
    qed
  qed
qed

text \<open>
  While the result capacity lasts, processing a packet on a pipeline that satisfies the
  invariant never dereferences a null pointer: it takes one of the steps of \<open>packet_outcome\<close>
  and returns the retained decision, which names the packet, the session and the version of the
  installed rule set, and records exactly the delivery the step made.
\<close>

lemma process_refines_step:
  assumes "pipeline_inv p" "length (pp_decisions p) < unat (lim_results (pp_limits p))"
  shows "\<exists>r delivery q. run_outcome packet p r delivery q (process pl ind packet runId scenarioId p)"
proof (cases "pp_rules p")
  case None
  have "explains packet p (decision_start ind packet runId scenarioId (pp_rules p))"
    using None decision_start_blank by (intro explains_blank) (auto simp: selected_def accepted_def)
  from run_outcome_undelivered [OF packet_outcome.no_rules [OF None] refl this] None show ?thesis
    using assms(2) by (simp add: process_def Let_def) blast
next
  case (Some rules)
  let ?d = "decision_start ind packet runId scenarioId (pp_rules p)"
  have ruled: "pipeline_ruled p" using assms(1) by (simp add: pipeline_inv_def)
  show ?thesis
  proof (cases "\<not> validPacket packet \<or> pkt_sessionId packet \<noteq> rs_sessionId rules")
    case True
    have "explains packet p ?d"
      using Some True decision_start_blank by (intro explains_blank) (auto simp: selected_def accepted_def)
    from run_outcome_undelivered [OF packet_outcome.malformed [OF Some True] refl this] Some True show ?thesis
      using assms(2) by (simp add: process_def Let_def) blast
  next
    case False
    then have acc: "accepted packet p rules" using Some by (simp add: accepted_def)
    define d where "d = ?d\<lparr>pd_candidates := sortCandidates (fst (selectWinner pl (rs_pdrs rules) packet))\<rparr>"
    have head: "head_of d = head_of ?d" by (simp add: d_def head_of_def)
    have blank: "blank d" "pd_selectedPdrId d = 0"
      using decision_start_blank [of ind packet runId scenarioId "pp_rules p"] by (simp_all add: d_def blank_def)
    have run: "process pl ind packet runId scenarioId p =
      (case snd (selectWinner pl (rs_pdrs rules) packet) of
         None \<Rightarrow> Some (retain_as NO_MATCH d p)
       | Some w \<Rightarrow> flow_then (qer_block rules w packet (d\<lparr>pd_selectedPdrId := id_value (pdr_id w)\<rparr>) p)
           (\<lambda>(d, p, tokens). flow_then (far_block rules w packet d p) (\<lambda>(d, far, farEvaluation).
            flow_then (urr_block rules w packet d p) (\<lambda>(d, p, usage).
            Some (commit_block tokens usage far farEvaluation d p)))))"
      using assms(2) Some False
      by (cases "selectWinner pl (rs_pdrs rules) packet") (simp add: process_def Let_def d_def not_le split: option.split)
    show ?thesis
    proof (cases "snd (selectWinner pl (rs_pdrs rules) packet)")
      case None
      then have "\<forall>x \<in> set (rs_pdrs rules). \<not> pdr_matches x packet" by (simp add: selectWinner_None)
      moreover have "explains packet p d"
        using None Some blank by (intro explains_blank)
          (auto simp: selected_def accepted_def is_winner_def selectWinner_reference)
      ultimately have "run_outcome packet p NO_MATCH None p (Some (retain_as NO_MATCH d p))"
        using run_outcome_undelivered [OF packet_outcome.no_match [OF acc] head] by blast
      then show ?thesis
        by (simp add: run None) blast
    next
      case (Some w)
      then have sel: "selected packet p rules w"
        using acc by (simp add: selected_def is_winner_def selectWinner_reference)
      have "head_of (d\<lparr>pd_selectedPdrId := id_value (pdr_id w)\<rparr>) = head_of ?d"
        using head by (simp add: head_of_def)
      from selected_outcome [OF ruled sel this] blank show ?thesis by (simp add: run Some blank_def)
    qed
  qed
qed

lemma process_at_capacity:
  assumes "length (pp_decisions p) \<ge> unat (lim_results (pp_limits p))"
  shows "\<exists>d. process pl ind packet runId scenarioId p = Some (d, p) \<and>
    pd_terminalResult d = CAPACITY_ERROR \<and> delivery_of d = None"
  using assms
  by (simp add: process_def Let_def delivery_of_def decision_start_def PacketDecision_new_def split: option.split)

end
