(* ===== verification/Pipeline_Safety.thy ===== *)
theory Pipeline_Safety
  imports Pipeline_Outcomes
begin

text \<open>
  What the step relation of \<open>Pipeline_Outcomes\<close> gives on every pipeline the program can build:
  the pipelines reachable from the constructor by \<open>install\<close> and \<open>process\<close>
  (\<open>pipeline_reach\<close>). The invariant holds there, so \<open>process\<close> is total, its effects are
  atomic, a packet is delivered at most once and to the other side, and usage is counted exactly.
\<close>

section \<open>Retaining\<close>

lemma retain_as_frames [frame_simps]:
  "pp_rules (snd (retain_as r d p)) = pp_rules p"
  "pp_limits (snd (retain_as r d p)) = pp_limits p"
  "pp_runtime (snd (retain_as r d p)) = pp_runtime p"
  "pp_n3Sink (snd (retain_as r d p)) = pp_n3Sink p"
  "pp_n6Sink (snd (retain_as r d p)) = pp_n6Sink p"
  "pp_reports (snd (retain_as r d p)) = pp_reports p"
  "pp_decisions (snd (retain_as r d p)) = pp_decisions p @ [fst (retain_as r d p)]"
  by (simp_all add: retain_as_def retain_def Let_def)

lemma retain_as_decision [frame_simps]:
  "pd_terminalResult (fst (retain_as r d p)) = r"
  "delivery_of (fst (retain_as r d p)) = delivery_of d"
  "pd_packetId (fst (retain_as r d p)) = pd_packetId d"
  "pd_sessionId (fst (retain_as r d p)) = pd_sessionId d"
  "pd_rulesetVersion (fst (retain_as r d p)) = pd_rulesetVersion d"
  by (simp_all add: retain_as_def retain_def delivery_of_def Let_def)

text \<open>
  The event list and the drop counter together account for every retained decision; the counter
  cannot saturate, because the number of decisions is bounded by a \<open>size_t\<close>.
\<close>

lemma retain_as_accounts:
  assumes "pipeline_accounted p" "length (pp_decisions p) < unat (lim_results (pp_limits p))"
    and "length (pp_events p) \<le> unat (lim_events (pp_limits p))"
  shows "pipeline_accounted (snd (retain_as r d p)) \<and>
    length (pp_events (snd (retain_as r d p))) \<le> unat (lim_events (pp_limits p))"
proof (cases "length (pp_events p) < unat (lim_events (pp_limits p))")
  case True
  then show ?thesis
    using assms by (simp add: retain_as_def retain_def pipeline_accounted_def)
next
  case False
  have "unat (pp_droppedEvents p) < unat (lim_results (pp_limits p))"
    using assms(1,2) by (simp add: pipeline_accounted_def)
  then have small: "unat (pp_droppedEvents p) + 1 < 2 ^ 64"
    using unat_u64_bound [of "lim_results (pp_limits p)"] by linarith
  then have "pp_droppedEvents p \<noteq> - 1"
    by (metis Suc_eq_plus1 less_irrefl unat_max_u64 Suc_pred' zero_less_numeral zero_less_power)
  moreover have "unat (pp_droppedEvents p + 1) = unat (pp_droppedEvents p) + 1"
    using unat_add_exact [of "pp_droppedEvents p" 1] small by simp
  ultimately show ?thesis
    using assms False by (simp add: retain_as_def retain_def pipeline_accounted_def)
qed

section \<open>Steps keep the invariant\<close>

lemma deliver_frames [frame_simps]:
  "pp_rules (deliver i t p) = pp_rules p" "pp_limits (deliver i t p) = pp_limits p"
  "pp_runtime (deliver i t p) = pp_runtime p" "pp_reports (deliver i t p) = pp_reports p"
  "pp_decisions (deliver i t p) = pp_decisions p" "pp_events (deliver i t p) = pp_events p"
  "pp_droppedEvents (deliver i t p) = pp_droppedEvents p"
  by (simp_all add: deliver_def split: Interface.split)

lemma sink_of_frames [frame_simps]:
  "sink_of j (with_bucket w e p) = sink_of j p" "sink_of j (with_usage w u p) = sink_of j p"
  "sink_of j (deliver i t p) = sink_of j p @ (if j = i then [t] else [])"
  "sink_of j (snd (retain_as r d p)) = sink_of j p"
  by (simp_all add: sink_of_def frame_simps deliver_def split: Interface.split)

lemma outcome_frames:
  "packet_outcome packet p r delivery q \<Longrightarrow>
   pp_rules q = pp_rules p \<and> pp_limits q = pp_limits p \<and> pp_decisions q = pp_decisions p \<and>
   pp_events q = pp_events p \<and> pp_droppedEvents q = pp_droppedEvents p"
  by (induction rule: packet_outcome.induct) (simp_all add: frame_simps)

text \<open>The runtime state of a rule set stays the runtime state of that rule set.\<close>

lemma runtime_with_bucket:
  assumes "runtime_for rules (pp_runtime p)" "e = qer_outcome rules' w packet (pp_runtime p)"
  shows "runtime_for rules (pp_runtime (with_bucket w e p))"
  using assms
  by (auto simp: with_bucket_def qer_outcome_def intro!: runtime_for_set_bucket split: option.splits)

lemma with_bucket_urrs [frame_simps]:
  "rt_urrs (pp_runtime (with_bucket w e p)) = rt_urrs (pp_runtime p)"
  by (simp add: with_bucket_def split: option.split)

lemma with_usage_qers [frame_simps]:
  "rt_qers (pp_runtime (with_usage w u p)) = rt_qers (pp_runtime p)"
  by (simp add: with_usage_def Let_def split: option.split)

lemma runtime_with_usage:
  assumes "runtime_for rules (pp_runtime q)" "rt_urrs (pp_runtime p) = rt_urrs (pp_runtime q)"
    and "u = urr_outcome rules' w packet (pp_runtime p)"
  shows "runtime_for rules (pp_runtime (with_usage w u q))"
  using assms
  by (auto simp: with_usage_def urr_outcome_def Let_def intro!: runtime_for_set_counter
      split: option.splits)

lemmas runtime_step = runtime_with_usage [OF runtime_with_bucket with_bucket_urrs [symmetric]]

lemma reportable_bound:
  "reportable p u \<Longrightarrow> length (pp_reports p) \<le> unat (lim_reports (pp_limits p)) \<Longrightarrow>
   length (pp_reports (with_usage w u (with_bucket w e p))) \<le> unat (lim_reports (pp_limits p))"
  by (auto simp: with_usage_def reportable_def frame_simps Let_def split: option.splits)

lemma selected_rules: "selected packet p rules w \<Longrightarrow> pp_rules p = Some rules"
  by (simp add: selected_def accepted_def)

lemma outcome_runtime:
  assumes "packet_outcome packet p r delivery q" "pp_rules p = Some rules" "runtime_for rules (pp_runtime p)"
  shows "runtime_for rules (pp_runtime q)"
  using assms
  by (induction rule: packet_outcome.induct)
    (auto dest: selected_rules simp: frame_simps intro: runtime_step runtime_with_bucket [OF _ sym])

lemma outcome_ruled:
  assumes "packet_outcome packet p r delivery q" "pipeline_ruled p"
  shows "pipeline_ruled q"
proof (cases "pp_rules p")
  case None
  have "q = p"
    using assms(1) None by (cases rule: packet_outcome.cases)
      (auto dest: selected_rules simp: accepted_def)
  then show ?thesis using assms(2) by simp
next
  case (Some rules)
  then have "runtime_for rules (pp_runtime q)"
    using outcome_runtime [OF assms(1) Some] assms(2) by (simp add: pipeline_ruled_def)
  then show ?thesis
    using outcome_frames [OF assms(1)] assms(2) Some runtime_for_consistent
    by (auto simp: pipeline_ruled_def)
qed

definition stores_bounded :: "PacketPipeline \<Rightarrow> bool" where
  "stores_bounded p \<longleftrightarrow> (\<forall>i. length (sink_of i p) \<le> unat (lim_sinkPackets (pp_limits p))) \<and>
     length (pp_reports p) \<le> unat (lim_reports (pp_limits p))"

lemma bounded_stores:
  "pipeline_bounded p \<longleftrightarrow> stores_bounded p \<and>
     length (pp_events p) \<le> unat (lim_events (pp_limits p)) \<and>
     length (pp_decisions p) \<le> unat (lim_results (pp_limits p))"
  by (auto simp: pipeline_bounded_def stores_bounded_def sink_of_def split: Interface.splits)

lemma outcome_stores:
  assumes "packet_outcome packet p r delivery q" "stores_bounded p"
  shows "stores_bounded q"
  using assms
  by (induction rule: packet_outcome.induct)
    (auto simp: stores_bounded_def frame_simps intro: reportable_bound)

section \<open>Runs\<close>

text \<open>
  One call of \<open>process\<close>: either the result capacity is exhausted and nothing happens, or a step
  is taken and its decision retained.
\<close>

lemma process_cases:
  assumes "pipeline_inv p" "process pl ind packet runId scenarioId p = Some (d, q)"
  obtains (capacity) "length (pp_decisions p) = unat (lim_results (pp_limits p))" "q = p"
      "pd_terminalResult d = CAPACITY_ERROR" "delivery_of d = None"
  | (step) d0 q0 where "length (pp_decisions p) < unat (lim_results (pp_limits p))"
      "packet_outcome packet p (pd_terminalResult d) (delivery_of d) q0"
      "d = fst (retain_as (pd_terminalResult d) d0 q0)" "q = snd (retain_as (pd_terminalResult d) d0 q0)"
      "pd_rulesetVersion d = (case pp_rules p of None \<Rightarrow> 0 | Some rules \<Rightarrow> rs_version rules)"
      "explains packet p d"
proof (cases "length (pp_decisions p) < unat (lim_results (pp_limits p))")
  case True
  obtain r delivery q0 where run: "run_outcome packet p r delivery q0 (Some (d, q))"
    using process_refines_step [OF assms(1) True, of packet pl ind runId scenarioId] assms(2) by auto
  then obtain d0 where d0: "(d, q) = retain_as r d0 q0" "delivery_of d0 = delivery"
    "pd_rulesetVersion d0 = (case pp_rules p of None \<Rightarrow> 0 | Some rules \<Rightarrow> rs_version rules)"
    "explains packet p d0"
    by (auto simp: run_outcome_def)
  have dq: "d = fst (retain_as r d0 q0)" "q = snd (retain_as r d0 q0)"
    using d0(1) by (simp_all flip: d0(1))
  have r: "pd_terminalResult d = r" "delivery_of d = delivery"
    by (simp_all add: dq(1) frame_simps d0(2))
  show ?thesis
    using run dq d0(3,4) by (intro that(2) [OF True, of q0 d0, unfolded r])
      (simp_all add: run_outcome_def frame_simps)
next
  case False
  then have "length (pp_decisions p) = unat (lim_results (pp_limits p))"
    using assms(1) by (simp add: pipeline_inv_def pipeline_bounded_def)
  then show ?thesis
    using that(1) process_at_capacity [of p pl ind packet runId scenarioId] assms(2) by auto
qed

lemma process_inv:
  assumes inv: "pipeline_inv p" and run: "process pl ind packet runId scenarioId p = Some (d, q)"
  shows "pipeline_inv q"
proof (cases rule: process_cases [OF inv run, consumes 0, case_names capacity step])
  case capacity
  then show ?thesis using inv by simp
next
  case (step d0 q0)
  note frames = outcome_frames [OF step(2)]
  note q = step(4) and inv = inv [unfolded pipeline_inv_def bounded_stores]
  have "pipeline_ruled q0" "stores_bounded q0"
    using outcome_ruled [OF step(2)] outcome_stores [OF step(2)] inv by auto
  then have "pipeline_ruled q" "stores_bounded q"
    unfolding q pipeline_ruled_def stores_bounded_def frame_simps by auto
  moreover have "pipeline_accounted q0" "length (pp_events q0) \<le> unat (lim_events (pp_limits q0))"
    "length (pp_decisions q0) < unat (lim_results (pp_limits q0))"
    using inv frames step(1) by (auto simp: pipeline_accounted_def)
  with retain_as_accounts
  have "pipeline_accounted q" "length (pp_events q) \<le> unat (lim_events (pp_limits q))"
    "length (pp_decisions q) \<le> unat (lim_results (pp_limits q))"
    unfolding q frame_simps by auto
  ultimately show ?thesis by (simp add: pipeline_inv_def bounded_stores)
qed

inductive pipeline_reach :: "platform \<Rightarrow> indeterminate \<Rightarrow> PacketPipeline \<Rightarrow> bool" for pl ind where
  new: "pipeline_reach pl ind (PacketPipeline_new limits)"
| install: "pipeline_reach pl ind p \<Longrightarrow> pipeline_reach pl ind (snd (install rules p))"
| process: "pipeline_reach pl ind p \<Longrightarrow> process pl ind packet runId scenarioId p = Some (d, q) \<Longrightarrow>
    pipeline_reach pl ind q"

lemma reach_inv: "pipeline_reach pl ind p \<Longrightarrow> pipeline_inv p"
  by (induction rule: pipeline_reach.induct) (auto intro: pipeline_inv_new install_inv process_inv)

section \<open>Properties of reachable pipelines\<close>

text \<open>
  C1. Processing a packet never dereferences a null pointer. While the result capacity lasts it
  takes one of the steps of \<open>packet_outcome\<close> and retains a decision that names the packet, the
  session and the version of the installed rule set, records exactly the delivery made and holds
  what the engines computed; then it rejects the packet and changes nothing.
\<close>

lemma process_total:
  assumes "pipeline_reach pl ind p"
  shows "if length (pp_decisions p) < unat (lim_results (pp_limits p))
    then \<exists>r delivery q. run_outcome packet p r delivery q (process pl ind packet runId scenarioId p)
    else \<exists>d. process pl ind packet runId scenarioId p = Some (d, p) \<and>
      pd_terminalResult d = CAPACITY_ERROR \<and> delivery_of d = None"
  using process_refines_step [OF reach_inv [OF assms]] process_at_capacity by simp

text \<open>
  C5. No store outgrows its limit, every retained decision left an event or a counted drop, and
  the runtime state is that of the installed, valid rule set.
\<close>

lemma reach_stores_bounded:
  assumes "pipeline_reach pl ind p"
  shows "pipeline_bounded p \<and> pipeline_accounted p \<and>
    (\<forall>rules. pp_rules p = Some rules \<longrightarrow> ruleset_valid rules \<and> runtime_for rules (pp_runtime p))"
  using reach_inv [OF assms] by (auto simp: pipeline_inv_def pipeline_ruled_def)

lemma outcome_delivery:
  assumes "packet_outcome packet p r delivery q" "pipeline_ruled p"
  shows "case delivery of
      None \<Rightarrow> (\<forall>i. sink_of i q = sink_of i p \<and> r \<noteq> forwarded_result i)
    | Some (i, t) \<Rightarrow> i = opposite (pkt_ingress packet) \<and> r = forwarded_result i \<and>
        sink_of i q = sink_of i p @ [t] \<and>
        sink_of (pkt_ingress packet) q = sink_of (pkt_ingress packet) p \<and>
        (\<exists>rules w far. selected packet p rules w \<and> findFar rules (pdr_farId w) = Some far \<and>
           t = transformed far packet \<and>
           (i = N3 \<longrightarrow> (\<exists>m. pkt_tunnel t = Some m \<and> TunnelMetadata_valid m)))"
  using assms
proof (cases rule: packet_outcome.cases)
  case (forwarded rules w e u far i)
  have valid: "ruleset_valid rules" and w: "w \<in> set (rs_pdrs rules)" "pdr_matches w packet"
    using forwarded(4) assms(2) by (auto simp: selected_def accepted_def pipeline_ruled_def dest: is_winnerD)
  have "far_fits w far" using valid_pdr_complete [OF valid w(1)] forwarded(9) by (simp add: pdr_complete_def)
  then have "i = N3 \<longrightarrow> (\<exists>m. pkt_tunnel (transformed far packet) = Some m \<and> TunnelMetadata_valid m)"
    using forwarded(10,11) w(2)
    by (auto simp: far_fits_def pdr_matches_def transformed_def split: Interface.splits)
  moreover have "i \<noteq> pkt_ingress packet"
    using forwarded(11) by (cases "pkt_ingress packet") (auto simp: opposite_def)
  ultimately show ?thesis
    using forwarded by (auto simp: frame_simps)
qed (auto simp: frame_simps forwarded_result_def split: Interface.split)

text \<open>
  C3. A packet reaches a sink exactly when its decision says it was forwarded: then the sink
  opposite to its ingress grows by the packet as the selected PDR's FAR transforms it (a downlink
  packet by valid tunnel metadata), and the other sink stays as it was.
\<close>

lemma process_delivery:
  assumes "pipeline_reach pl ind p" "process pl ind packet runId scenarioId p = Some (d, q)"
  shows "case delivery_of d of
      None \<Rightarrow> (\<forall>i. sink_of i q = sink_of i p \<and> pd_terminalResult d \<noteq> forwarded_result i)
    | Some (i, t) \<Rightarrow> i = opposite (pkt_ingress packet) \<and> pd_terminalResult d = forwarded_result i \<and>
        sink_of i q = sink_of i p @ [t] \<and>
        sink_of (pkt_ingress packet) q = sink_of (pkt_ingress packet) p \<and>
        (\<exists>rules w far. selected packet p rules w \<and> findFar rules (pdr_farId w) = Some far \<and>
           t = transformed far packet \<and>
           (i = N3 \<longrightarrow> (\<exists>m. pkt_tunnel t = Some m \<and> TunnelMetadata_valid m)))"
proof (cases rule: process_cases [OF reach_inv [OF assms(1)] assms(2), consumes 0, case_names capacity step])
  case capacity
  then show ?thesis by (simp add: forwarded_result_def split: Interface.split)
next
  case (step d0 q0)
  have "pipeline_ruled p" using reach_inv [OF assms(1)] by (simp add: pipeline_inv_def)
  from outcome_delivery [OF step(2) this] show ?thesis
    unfolding step(4) frame_simps .
qed

lemma outcome_atomic:
  assumes "packet_outcome packet p r delivery q"
  shows "(r \<notin> {FORWARDED_TO_N3, FORWARDED_TO_N6, FAR_DROPPED, RATE_LIMITED} \<longrightarrow>
      pp_runtime q = pp_runtime p \<and> pp_reports q = pp_reports p) \<and>
    (r = RATE_LIMITED \<longrightarrow> pp_reports q = pp_reports p \<and> rt_urrs (pp_runtime q) = rt_urrs (pp_runtime p) \<and>
      (\<exists>rules w e i. selected packet p rules w \<and> pdr_qerId w = Some i \<and>
         qer_outcome rules w packet (pp_runtime p) = Some e \<and>
         rt_qers (pp_runtime q) = (rt_qers (pp_runtime p))(id_value i \<mapsto> qe_next e)))"
  using assms
proof (cases rule: packet_outcome.cases)
  case (limited rules w e)
  then obtain i where i: "pdr_qerId w = Some i" by (auto simp: qer_outcome_def split: option.splits)
  then show ?thesis using limited by (auto simp: frame_simps with_bucket_def)
qed (auto simp: forwarded_result_def split: Interface.splits)

text \<open>
  C2. A rejected packet leaves no trace but its decision: unless it was forwarded, dropped by its
  FAR or rate limited, buckets, counters and reports are as before, also when the rejection comes
  after the QER and the URR were evaluated; a rate limited packet changes only the bucket of its
  PDR's QER.
\<close>

lemma process_atomic:
  assumes "pipeline_reach pl ind p" "process pl ind packet runId scenarioId p = Some (d, q)"
  shows "(pd_terminalResult d \<notin> {FORWARDED_TO_N3, FORWARDED_TO_N6, FAR_DROPPED, RATE_LIMITED} \<longrightarrow>
      pp_runtime q = pp_runtime p \<and> pp_reports q = pp_reports p) \<and>
    (pd_terminalResult d = RATE_LIMITED \<longrightarrow>
      pp_reports q = pp_reports p \<and> rt_urrs (pp_runtime q) = rt_urrs (pp_runtime p) \<and>
      (\<exists>rules w e i. selected packet p rules w \<and> pdr_qerId w = Some i \<and>
         qer_outcome rules w packet (pp_runtime p) = Some e \<and>
         rt_qers (pp_runtime q) = (rt_qers (pp_runtime p))(id_value i \<mapsto> qe_next e)))"
proof (cases rule: process_cases [OF reach_inv [OF assms(1)] assms(2), consumes 0, case_names capacity step])
  case capacity
  then show ?thesis by simp
next
  case (step d0 q0)
  from outcome_atomic [OF step(2)] show ?thesis unfolding step(4) frame_simps .
qed

text \<open>What the commit does to the URR of the selected PDR.\<close>

definition usage_committed ::
  "RuleSet \<Rightarrow> Pdr \<Rightarrow> Packet \<Rightarrow> PacketPipeline \<Rightarrow> PacketPipeline \<Rightarrow> bool"
where
  "usage_committed rules w packet p q \<longleftrightarrow>
     (case pdr_urrId w of
        None \<Rightarrow> rt_urrs (pp_runtime q) = rt_urrs (pp_runtime p) \<and> pp_reports q = pp_reports p
      | Some i \<Rightarrow> \<exists>urr s t. findUrr rules i = Some urr \<and> rt_urrs (pp_runtime p) (id_value i) = Some s \<and>
          rt_urrs (pp_runtime q) = (rt_urrs (pp_runtime p))(id_value i \<mapsto> t) \<and>
          unat (uc_packets t) = unat (uc_packets s) + 1 \<and>
          unat (uc_payloadBytes t) = unat (uc_payloadBytes s) + unat (pkt_payloadBytes packet) \<and>
          pp_reports q = pp_reports p @
            (if uc_reportEmitted t \<and> \<not> uc_reportEmitted s
             then [report_id (rs_sessionId rules) (id_value i) (urr_generation urr) (rs_version rules)]
             else []))"

lemma usage_committed_step:
  assumes "pipeline_ruled p" "selected packet p rules w" "u = urr_outcome rules w packet (pp_runtime p)"
    and "reportable p u"
  shows "usage_committed rules w packet p (with_usage w u (with_bucket w e p))"
proof (cases "pdr_urrId w")
  case None
  then show ?thesis by (simp add: usage_committed_def with_usage_def frame_simps)
next
  case (Some i)
  have rules: "pp_rules p = Some rules" "w \<in> set (rs_pdrs rules)"
    using assms(2) by (auto simp: selected_def accepted_def dest: is_winnerD)
  obtain urr s where look: "findUrr rules i = Some urr" "urr_id urr = i"
    "rt_urrs (pp_runtime p) (id_value i) = Some s"
    by (rule urr_lookup [OF assms(1) rules Some])
  define x where "x = evaluateUrr urr s (ucast (pkt_payloadBytes packet)) (rs_sessionId rules) (rs_version rules)"
  have u: "u = Some x" using assms(3) by (simp add: urr_outcome_def Some look x_def)
  then have "\<not> ue_overflow x" using assms(4) by (simp add: reportable_def)
  note counts = evaluateUrr_counts [OF this [unfolded x_def], folded x_def]
  have "ue_reportGenerated x \<Longrightarrow> ud_reportId (ue_decision x) =
      report_id (rs_sessionId rules) (id_value i) (urr_generation urr) (rs_version rules)"
    unfolding x_def by (simp add: evaluateUrr_report look(2))
  then show ?thesis
    using counts by (auto simp: usage_committed_def Some look u with_usage_def Let_def frame_simps
        unat_u32_le_u64)
qed

text \<open>
  C4. Exactly the packets that are forwarded or dropped by their FAR are counted: the URR of the
  selected PDR gains one packet and the payload, without wrapping, every other counter keeps its
  value, and a report is added exactly when the URR's report flag rises. No other packet touches
  a counter.
\<close>

lemma process_counts:
  assumes "pipeline_reach pl ind p" "process pl ind packet runId scenarioId p = Some (d, q)"
  shows "if pd_terminalResult d \<in> {FORWARDED_TO_N3, FORWARDED_TO_N6, FAR_DROPPED}
    then \<exists>rules w. selected packet p rules w \<and> usage_committed rules w packet p q
    else rt_urrs (pp_runtime q) = rt_urrs (pp_runtime p) \<and> pp_reports q = pp_reports p"
proof (cases rule: process_cases [OF reach_inv [OF assms(1)] assms(2), consumes 0, case_names capacity step])
  case capacity
  then show ?thesis by simp
next
  case (step d0 q0)
  have ruled: "pipeline_ruled p" using reach_inv [OF assms(1)] by (simp add: pipeline_inv_def)
  have *: "if pd_terminalResult d \<in> {FORWARDED_TO_N3, FORWARDED_TO_N6, FAR_DROPPED}
    then \<exists>rules w. selected packet p rules w \<and> usage_committed rules w packet p q0
    else rt_urrs (pp_runtime q0) = rt_urrs (pp_runtime p) \<and> pp_reports q0 = pp_reports p"
    using step(2)
  proof (cases rule: packet_outcome.cases)
    case (dropped rules w e u far)
    then show ?thesis using usage_committed_step [OF ruled dropped(4,7,8), of e] by auto
  next
    case (forwarded rules w e u far i)
    have "usage_committed rules w packet p q0"
      using usage_committed_step [OF ruled forwarded(4,7,8), of e]
      unfolding forwarded(3) usage_committed_def frame_simps .
    then show ?thesis using forwarded(1,4)
      by (auto simp: forwarded_result_def split: Interface.splits)
  qed (auto simp: frame_simps)
  then show ?thesis
    unfolding step(4) frame_simps usage_committed_def .
qed

section \<open>The retained decisions explain the sinks and the events\<close>

definition log_explains :: "PacketPipeline \<Rightarrow> bool" where
  "log_explains p \<longleftrightarrow>
     (\<forall>i. sink_of i p = map pd_transformedPacket
        (filter (\<lambda>d. pd_terminalResult d = forwarded_result i) (pp_decisions p))) \<and>
     pp_events p = map (\<lambda>d. terminalResultName (pd_terminalResult d))
       (take (unat (lim_events (pp_limits p))) (pp_decisions p))"

lemma retain_as_log:
  assumes "pp_events p = map (\<lambda>d. terminalResultName (pd_terminalResult d))
    (take (unat (lim_events (pp_limits p))) (pp_decisions p))"
  shows "pp_events (snd (retain_as r d p)) = map (\<lambda>d. terminalResultName (pd_terminalResult d))
    (take (unat (lim_events (pp_limits p))) (pp_decisions p @ [fst (retain_as r d p)]))"
proof -
  have "length (pp_events p) = min (length (pp_decisions p)) (unat (lim_events (pp_limits p)))"
    using assms by simp
  then show ?thesis
    using assms by (auto simp: retain_as_def retain_def Let_def min_def split: if_splits)
qed

lemma forwarded_result_inj: "forwarded_result i = forwarded_result j \<longleftrightarrow> i = j"
  by (cases i; cases j) (simp_all add: forwarded_result_def)

lemma process_log_step:
  assumes inv: "pipeline_inv p" and run: "process pl ind packet runId scenarioId p = Some (d, q)"
  shows "sink_of i q = sink_of i p @
    map pd_transformedPacket (filter (\<lambda>d. pd_terminalResult d = forwarded_result i) [d])"
proof (cases rule: process_cases [OF inv run, consumes 0, case_names capacity step])
  case capacity
  then show ?thesis by (simp add: forwarded_result_def split: Interface.split)
next
  case (step d0 q0)
  have sink: "sink_of j q = sink_of j q0" for j using step(4) by (metis sink_of_frames(4))
  have ruled: "pipeline_ruled p" using inv by (simp add: pipeline_inv_def)
  show ?thesis
    using outcome_delivery [OF step(2) ruled]
    by (cases "pkt_ingress packet"; cases i)
      (auto simp: sink forwarded_result_inj opposite_def
        delivery_of_def split: option.splits if_splits Interface.splits)
qed

lemma process_names:
  assumes inv: "pipeline_inv p" and run: "process pl ind packet runId scenarioId p = Some (d, q)"
  shows "pd_packetId d = pkt_packetId packet \<and> pd_sessionId d = pkt_sessionId packet \<and>
    pd_rulesetVersion d = (case pp_rules p of None \<Rightarrow> 0 | Some rules \<Rightarrow> rs_version rules)"
proof (cases "length (pp_decisions p) < unat (lim_results (pp_limits p))")
  case True
  with process_refines_step [OF inv, of packet pl ind runId scenarioId] run show ?thesis
    by (auto simp: run_outcome_def) (metis fst_conv retain_as_decision(3-5))+
next
  case False
  with run show ?thesis
    by (auto simp: process_def decision_start_def PacketDecision_new_def Let_def split: option.splits)
qed

lemma process_rules:
  assumes inv: "pipeline_inv p" and run: "process pl ind packet runId scenarioId p = Some (d, q)"
  shows "pp_rules q = pp_rules p"
proof (cases rule: process_cases [OF inv run, consumes 0, case_names capacity step])
  case (step d0 q0)
  with outcome_frames [OF step(2)] show ?thesis by (metis retain_as_frames(1))
qed simp

lemma process_returns:
  assumes "pipeline_inv p"
  obtains d q where "process pl ind packet runId scenarioId p = Some (d, q)"
proof (cases "length (pp_decisions p) < unat (lim_results (pp_limits p))")
  case True
  with process_refines_step [OF assms, of packet pl ind runId scenarioId] that show ?thesis
    by (auto simp: run_outcome_def) (metis prod.exhaust)
next
  case False
  with process_at_capacity [of p pl ind packet runId scenarioId] that show ?thesis by auto
qed

lemma process_log:
  assumes inv: "pipeline_inv p" and log: "log_explains p"
    and run: "process pl ind packet runId scenarioId p = Some (d, q)"
  shows "log_explains q"
proof (cases rule: process_cases [OF inv run, consumes 0, case_names capacity step])
  case capacity
  then show ?thesis using log by simp
next
  case (step d0 q0)
  note frames = outcome_frames [OF step(2)]
  have decisions: "pp_decisions q = pp_decisions p @ [d]"
    using step(3,4) frames by (metis retain_as_frames(7))
  have limits: "pp_limits q = pp_limits p"
    using step(4) frames by (metis retain_as_frames(2))
  have "pp_events q = map (\<lambda>d. terminalResultName (pd_terminalResult d))
      (take (unat (lim_events (pp_limits q))) (pp_decisions q))"
    using retain_as_log [of q0 "pd_terminalResult d" d0, folded step(3,4)] log frames decisions limits
    by (simp add: log_explains_def)
  moreover have "sink_of i q = map pd_transformedPacket
      (filter (\<lambda>d. pd_terminalResult d = forwarded_result i) (pp_decisions q))" for i
    using process_log_step [OF inv run, of i] log by (simp add: decisions log_explains_def)
  ultimately show ?thesis by (simp add: log_explains_def)
qed

lemma install_log: "log_explains p \<Longrightarrow> log_explains (snd (install rules p))"
  by (auto simp: install_def log_explains_def sink_of_def split: Interface.splits sum.splits)

text \<open>
  C6. The retained decisions are a complete record: each sink holds exactly the transformed
  packets of the decisions that report its delivery, in order, and the event list holds the names
  of the first decisions, up to its limit.
\<close>

lemma reach_log:
  assumes "pipeline_reach pl ind p"
  shows "log_explains p"
  using assms
proof (induction rule: pipeline_reach.induct)
  case (new limits)
  show ?case
    by (simp add: log_explains_def PacketPipeline_new_def sink_of_def split: Interface.split)
next
  case (install p rules)
  then show ?case by (intro install_log)
next
  case (process p packet runId scenarioId d q)
  show ?case by (rule process_log [OF reach_inv [OF process.hyps(1)] process.IH process.hyps(2)])
qed

section \<open>The uplink scenario as an instance\<close>

definition ul_start :: PacketPipeline where
  "ul_start = snd (install ul_rules (PacketPipeline_new CapacityLimits_default))"

lemma ul_start_reach: "pipeline_reach dotted_platform zero_memory ul_start"
  unfolding ul_start_def by (intro pipeline_reach.install pipeline_reach.new)

definition ul_run :: "PacketDecision \<times> PacketPipeline" where
  "ul_run = the (process dotted_platform zero_memory ul_packet ''upf-demo-001'' ''uplink-forward'' ul_start)"

lemma ul_run_process:
  "process dotted_platform zero_memory ul_packet ''upf-demo-001'' ''uplink-forward'' ul_start =
    Some (fst ul_run, snd ul_run)"
  by (simp add: ul_run_def ul_start_def model_defs)

lemma ul_run_result:
  "pd_terminalResult (fst ul_run) = FORWARDED_TO_N6"
  "delivery_of (fst ul_run) = Some (N6, ul_packet\<lparr>pkt_tunnel := None\<rparr>)"
  by (simp_all add: ul_run_def ul_start_def delivery_of_def model_defs)

lemma process_delivery_witness:
  "sink_of N6 (snd ul_run) = sink_of N6 ul_start @ [ul_packet\<lparr>pkt_tunnel := None\<rparr>]"
  using process_delivery [OF ul_start_reach ul_run_process] by (simp add: ul_run_result)

lemma ul_start_room: "length (pp_decisions ul_start) < unat (lim_results (pp_limits ul_start))"
  by (simp add: ul_start_def model_defs)

lemma process_total_witness:
  "\<exists>r delivery q. run_outcome ul_packet ul_start r delivery q
    (process dotted_platform zero_memory ul_packet ''upf-demo-001'' ''uplink-forward'' ul_start)"
  using process_total [OF ul_start_reach] ul_start_room by auto

lemma ul_run_reach: "pipeline_reach dotted_platform zero_memory (snd ul_run)"
  by (rule pipeline_reach.process [OF ul_start_reach ul_run_process])

lemma reach_stores_bounded_witness: "pipeline_bounded (snd ul_run) \<and> pipeline_accounted (snd ul_run)"
  using reach_stores_bounded [OF ul_run_reach] by simp

lemma process_counts_witness:
  "\<exists>rules w. selected ul_packet ul_start rules w \<and> usage_committed rules w ul_packet ul_start (snd ul_run)"
  using process_counts [OF ul_start_reach ul_run_process] by (simp add: ul_run_result)

lemma reach_log_witness: "log_explains (snd ul_run)"
  by (rule reach_log [OF ul_run_reach])

text \<open>A packet larger than the burst is rate limited.\<close>

definition ul_large_run :: "PacketDecision \<times> PacketPipeline" where
  "ul_large_run = the (process dotted_platform zero_memory (ul_packet\<lparr>pkt_payloadBytes := 30000\<rparr>)
     ''upf-demo-001'' ''uplink-forward'' ul_start)"

lemma ul_large_run_process:
  "process dotted_platform zero_memory (ul_packet\<lparr>pkt_payloadBytes := 30000\<rparr>) ''upf-demo-001''
    ''uplink-forward'' ul_start = Some (fst ul_large_run, snd ul_large_run)"
  by (simp add: ul_large_run_def ul_start_def model_defs)

lemma ul_large_run_result: "pd_terminalResult (fst ul_large_run) = RATE_LIMITED"
  by (simp add: ul_large_run_def ul_start_def model_defs)

lemma process_atomic_witness:
  "pp_reports (snd ul_large_run) = pp_reports ul_start \<and>
   rt_urrs (pp_runtime (snd ul_large_run)) = rt_urrs (pp_runtime ul_start)"
  using process_atomic [OF ul_start_reach ul_large_run_process] by (simp add: ul_large_run_result)

end
