(* ===== verification/Rule_Service.thy ===== *)
theory Rule_Service
  imports Pipeline_Safety
begin

text \<open>
  \<open>include/upf/application/rule_service.hpp\<close> and \<open>src/application/rule_service.cpp\<close>: the control
  side's copy of the rules, its version discipline and the convergence status.

  A \<open>shared_ptr<const RuleSet>\<close> is an optional snapshot; the pointees are never written. The
  migration loops differ from those of \<open>PacketPipeline::install\<close> in how they look up the old
  generation; both satisfy \<open>runtime_migration\<close>, so both compute the same state.
\<close>

section \<open>The code\<close>

record RuleService =
  sv_limits :: CapacityLimits
  sv_intended :: "RuleSet option"
  sv_active :: "RuleSet option"
  sv_appliedVersion :: u64
  sv_latestUpdateId :: string
  sv_runtime :: RuntimeState

definition RuleService_new :: "CapacityLimits \<Rightarrow> RuleService" where
  [model_defs]: "RuleService_new limits =
     \<lparr>sv_limits = limits, sv_intended = None, sv_active = None, sv_appliedVersion = 0,
      sv_latestUpdateId = '''', sv_runtime = RuntimeState_new\<rparr>"

text \<open>The loops; the pair holds \<open>runtime_\<close> and \<open>migrated\<close>.\<close>

definition update_qer :: "RuntimeState \<times> RuntimeState \<Rightarrow> Qer \<Rightarrow> RuntimeState \<times> RuntimeState" where
  [model_defs]: "update_qer acc qer =
     (let (runtime, migrated) = acc;
          k = id_value (qer_id qer);
          (runtime, state) =
            (if rt_qerGenerations runtime k = Some (qer_generation qer)
             then let (state, states) = map_index TokenBucketState_new (rt_qers runtime) k
                  in (runtime\<lparr>rt_qers := states\<rparr>, state)
             else (runtime, TokenBucketState_new\<lparr>tb_tokensBytes := qer_burstBytes qer\<rparr>))
      in (runtime, migrated\<lparr>rt_qers := (rt_qers migrated)(k \<mapsto> state),
            rt_qerGenerations := (rt_qerGenerations migrated)(k \<mapsto> qer_generation qer)\<rparr>))"

definition update_urr :: "RuntimeState \<times> RuntimeState \<Rightarrow> Urr \<Rightarrow> RuntimeState \<times> RuntimeState" where
  [model_defs]: "update_urr acc urr =
     (let (runtime, migrated) = acc;
          k = id_value (urr_id urr);
          (runtime, state) =
            (if rt_urrGenerations runtime k = Some (urr_generation urr)
             then let (state, states) = map_index UsageCounterState_new (rt_urrs runtime) k
                  in (runtime\<lparr>rt_urrs := states\<rparr>, state)
             else (runtime, UsageCounterState_new))
      in (runtime, migrated\<lparr>rt_urrs := (rt_urrs migrated)(k \<mapsto> state),
            rt_urrGenerations := (rt_urrGenerations migrated)(k \<mapsto> urr_generation urr)\<rparr>))"

definition update_migrate :: "RuleSet \<Rightarrow> RuntimeState \<Rightarrow> RuntimeState" where
  [model_defs]: "update_migrate candidate runtime =
     snd (foldl update_urr (foldl update_qer (runtime, RuntimeState_new) (rs_qers candidate))
       (rs_urrs candidate))"

definition update :: "string \<Rightarrow> RuleSet \<Rightarrow> RuleService \<Rightarrow> unit result_of \<times> RuleService" where
  [model_defs]: "update updateId candidate s =
     (if updateId = '''' then (failure ''update ID required'', s)
      else if (case sv_active s of None \<Rightarrow> False | Some a \<Rightarrow> rs_version candidate \<le> rs_version a)
      then (failure ''ruleset version must increase'', s)
      else case validateRuleSet candidate (sv_limits s) of
             Inl e \<Rightarrow> (failure e, s)
           | Inr _ \<Rightarrow> (success (), s\<lparr>sv_runtime := update_migrate candidate (sv_runtime s),
               sv_intended := Some candidate, sv_active := Some candidate,
               sv_latestUpdateId := updateId\<rparr>))"

definition remove :: "string \<Rightarrow> u64 \<Rightarrow> RuleService \<Rightarrow> unit result_of \<times> RuleService" where
  [model_defs]: "remove updateId version s =
     (if (case sv_active s of None \<Rightarrow> True
          | Some a \<Rightarrow> updateId = '''' \<or> version \<le> rs_version a)
      then (failure ''invalid delete'', s)
      else (success (), s\<lparr>sv_intended := None, sv_active := None, sv_latestUpdateId := updateId\<rparr>))"

definition convergence :: "RuleService \<Rightarrow> ConvergenceStatus" where
  [model_defs]: "convergence s =
     (if sv_intended s = None \<and> sv_appliedVersion s = 0 then EMPTY
      else if (case sv_intended s of None \<Rightarrow> False | Some r \<Rightarrow> rs_version r = sv_appliedVersion s)
      then CONVERGED else DIVERGENT)"

definition markApplied :: "string \<Rightarrow> u64 \<Rightarrow> RuleService \<Rightarrow> RuleService" where
  [model_defs]: "markApplied updateId version s =
     (if (case sv_intended s of None \<Rightarrow> False
          | Some r \<Rightarrow> updateId = sv_latestUpdateId s \<and> version = rs_version r)
      then s\<lparr>sv_appliedVersion := version\<rparr> else s)"

section \<open>Migration\<close>

lemma update_qer_simps:
  fixes qer
  defines "k \<equiv> qer_key qer"
  shows "rt_qerGenerations (snd (update_qer acc qer)) =
      (rt_qerGenerations (snd acc))(k \<mapsto> qer_generation qer)"
    "agree_on k (rt_qerGenerations (fst acc)) (rt_qers (fst acc)) \<Longrightarrow>
      rt_qers (snd (update_qer acc qer)) = (rt_qers (snd acc))(k \<mapsto>
        carried (rt_qerGenerations (fst acc)) (rt_qers (fst acc)) k (qer_generation qer)
          (TokenBucketState_new\<lparr>tb_tokensBytes := qer_burstBytes qer\<rparr>))"
    "rt_qerGenerations (fst (update_qer acc qer)) = rt_qerGenerations (fst acc)"
    "j \<noteq> k \<Longrightarrow> rt_qers (fst (update_qer acc qer)) j = rt_qers (fst acc) j"
  by (auto simp: update_qer_def Let_def k_def carried_def agree_on_def map_index_def
      split: prod.splits option.splits)

lemma update_urr_simps:
  fixes urr
  defines "k \<equiv> urr_key urr"
  shows "rt_urrGenerations (snd (update_urr acc urr)) =
      (rt_urrGenerations (snd acc))(k \<mapsto> urr_generation urr)"
    "agree_on k (rt_urrGenerations (fst acc)) (rt_urrs (fst acc)) \<Longrightarrow>
      rt_urrs (snd (update_urr acc urr)) = (rt_urrs (snd acc))(k \<mapsto>
        carried (rt_urrGenerations (fst acc)) (rt_urrs (fst acc)) k (urr_generation urr)
          UsageCounterState_new)"
    "rt_urrGenerations (fst (update_urr acc urr)) = rt_urrGenerations (fst acc)"
    "j \<noteq> k \<Longrightarrow> rt_urrs (fst (update_urr acc urr)) j = rt_urrs (fst acc) j"
  by (auto simp: update_urr_def Let_def k_def carried_def agree_on_def map_index_def
      split: prod.splits option.splits)

interpretation um: runtime_migration update_qer update_urr
proof unfold_locales
  fix acc qer
  show "rt_urrs (fst (update_qer acc qer)) = rt_urrs (fst acc)"
    "rt_urrs (snd (update_qer acc qer)) = rt_urrs (snd acc)"
    "rt_urrGenerations (fst (update_qer acc qer)) = rt_urrGenerations (fst acc)"
    "rt_urrGenerations (snd (update_qer acc qer)) = rt_urrGenerations (snd acc)"
    by (auto simp: update_qer_def Let_def split: prod.splits)
next
  fix acc urr
  show "rt_qers (snd (update_urr acc urr)) = rt_qers (snd acc)"
    "rt_qerGenerations (snd (update_urr acc urr)) = rt_qerGenerations (snd acc)"
    by (auto simp: update_urr_def Let_def split: prod.splits)
qed (simp_all add: update_qer_simps update_urr_simps)

lemma update_migrate_migrated:
  "uniqueIds qer_id (rs_qers rules) \<Longrightarrow> uniqueIds urr_id (rs_urrs rules) \<Longrightarrow> runtime_consistent rt \<Longrightarrow>
   migrated rules rt (update_migrate rules rt)"
  unfolding update_migrate_def by (rule um.loops_migrate)

lemma update_migrate_eq:
  assumes "ruleset_valid rules" "runtime_consistent rt"
  shows "update_migrate rules rt = install_migrate rules rt"
proof -
  have "uniqueIds qer_id (rs_qers rules)" "uniqueIds urr_id (rs_urrs rules)"
    using assms(1) by (auto simp: ruleset_valid_def)
  then show ?thesis
    by (intro migrated_unique [OF update_migrate_migrated install_migrate_migrated] assms(2))
qed

lemma update_cases:
  obtains (no_id) "updateId = ''''" "update updateId candidate s = (failure ''update ID required'', s)"
  | (stale) a where "updateId \<noteq> ''''" "sv_active s = Some a" "rs_version candidate \<le> rs_version a"
      "update updateId candidate s = (failure ''ruleset version must increase'', s)"
  | (invalid) e where "\<not> (ruleset_valid candidate \<and> ruleset_fits (sv_limits s) candidate)"
      "update updateId candidate s = (failure e, s)"
  | (updated) "updateId \<noteq> ''''" "\<forall>a. sv_active s = Some a \<longrightarrow> rs_version a < rs_version candidate"
      "ruleset_valid candidate" "ruleset_fits (sv_limits s) candidate"
      "update updateId candidate s = (success (), s\<lparr>sv_runtime := update_migrate candidate (sv_runtime s),
         sv_intended := Some candidate, sv_active := Some candidate, sv_latestUpdateId := updateId\<rparr>)"
proof (cases "updateId = ''''")
  case True
  then show ?thesis using that(1) by (simp add: update_def)
next
  case id: False
  show ?thesis
  proof (cases "\<exists>a. sv_active s = Some a \<and> rs_version candidate \<le> rs_version a")
    case True
    then show ?thesis using that(2) id by (auto simp: update_def)
  next
    case False
    then have fresh: "\<forall>a. sv_active s = Some a \<longrightarrow> rs_version a < rs_version candidate"
      by (auto simp: not_le)
    then have "(case sv_active s of None \<Rightarrow> False | Some a \<Rightarrow> rs_version candidate \<le> rs_version a) = False"
      by (auto simp: not_le split: option.split)
    then show ?thesis
      using that(3,4) id fresh validateRuleSet_accepts [of candidate "sv_limits s"]
      by (cases "validateRuleSet candidate (sv_limits s)") (auto simp: update_def)
  qed
qed

interpretation sstore: ruleset_store "update updateId" sv_active sv_runtime sv_limits for updateId
proof unfold_locales
  fix s rules
  assume runtime: "runtime_consistent (sv_runtime s)" and ok: "ok (fst (update updateId rules s))"
  show "sv_active (snd (update updateId rules s)) = Some rules \<and> ruleset_valid rules \<and>
    ruleset_fits (sv_limits s) rules \<and>
    migrated rules (sv_runtime s) (sv_runtime (snd (update updateId rules s)))"
  proof (cases rule: update_cases [of updateId rules s, case_names no_id stale invalid updated])
    case updated
    have "migrated rules (sv_runtime s) (update_migrate rules (sv_runtime s))"
      using updated(3) runtime by (intro update_migrate_migrated) (auto simp: ruleset_valid_def)
    with updated show ?thesis by simp
  qed (use ok in auto)
next
  fix s rules
  show "\<not> ok (fst (update updateId rules s)) \<Longrightarrow> snd (update updateId rules s) = s"
    "sv_limits (snd (update updateId rules s)) = sv_limits s"
    by (cases rule: update_cases [of updateId rules s]; auto)+
qed

section \<open>Reachable services\<close>

inductive service_reach :: "CapacityLimits \<Rightarrow> RuleService \<Rightarrow> bool" for limits where
  new: "service_reach limits (RuleService_new limits)"
| update: "service_reach limits s \<Longrightarrow> service_reach limits (snd (update u candidate s))"
| remove: "service_reach limits s \<Longrightarrow> service_reach limits (snd (remove u v s))"
| mark: "service_reach limits s \<Longrightarrow> service_reach limits (markApplied u v s)"

definition service_inv :: "CapacityLimits \<Rightarrow> RuleService \<Rightarrow> bool" where
  "service_inv limits s \<longleftrightarrow> sv_limits s = limits \<and> sv_intended s = sv_active s \<and> sstore.sound s"

lemma service_reach_inv: "service_reach limits s \<Longrightarrow> service_inv limits s"
proof (induction rule: service_reach.induct)
  case new
  show ?case
    by (simp add: service_inv_def sstore.sound_def RuleService_new_def runtime_new_consistent)
next
  case (update s u candidate)
  then have "sstore.sound (snd (update u candidate s))"
    using sstore.put_sound by (simp add: service_inv_def)
  moreover have "sv_intended (snd (update u candidate s)) = sv_active (snd (update u candidate s))"
    using update.IH by (cases rule: update_cases [of u candidate s]) (auto simp: service_inv_def)
  ultimately show ?case using update.IH sstore.put_limits [of u candidate s] by (simp add: service_inv_def)
next
  case (remove s u v)
  then show ?case by (auto simp: service_inv_def sstore.sound_def remove_def)
next
  case (mark s u v)
  then show ?case by (auto simp: service_inv_def sstore.sound_def markApplied_def)
qed

lemma service_reach_facts:
  assumes "service_reach limits s"
  shows "sv_limits s = limits" "sv_intended s = sv_active s" "runtime_consistent (sv_runtime s)"
    "sv_active s = Some rules \<Longrightarrow> ruleset_valid rules"
    "sv_active s = Some rules \<Longrightarrow> ruleset_fits limits rules"
    "sv_active s = Some rules \<Longrightarrow> runtime_for rules (sv_runtime s)"
  using service_reach_inv [OF assms] by (auto simp: service_inv_def sstore.sound_def)

section \<open>Properties\<close>

text \<open>
  C23. In every reachable service the intended and the active snapshot are the same, and an
  active snapshot is a valid rule set within the limits with exactly its own runtime state.
\<close>

lemma service_consistent:
  assumes "service_reach limits s"
  shows "sv_intended s = sv_active s \<and>
    (\<forall>rules. sv_active s = Some rules \<longrightarrow>
       ruleset_valid rules \<and> ruleset_fits limits rules \<and> runtime_for rules (sv_runtime s))"
  using service_reach_facts [OF assms] by blast

text \<open>
  C22. An update succeeds exactly when it has an identifier, its version is above the active one
  and the rule set is valid within the limits. It then replaces both snapshots, records the
  identifier and migrates the runtime state, and leaves the applied version; a failed update
  changes nothing.
\<close>

lemma update_effect:
  assumes "service_reach limits s"
  shows "if u \<noteq> '''' \<and> (\<forall>a. sv_active s = Some a \<longrightarrow> rs_version a < rs_version rules) \<and>
      ruleset_valid rules \<and> ruleset_fits limits rules
    then \<exists>rt. update u rules s = (success (), s\<lparr>sv_runtime := rt, sv_intended := Some rules,
        sv_active := Some rules, sv_latestUpdateId := u\<rparr>) \<and> migrated rules (sv_runtime s) rt
    else \<exists>e. update u rules s = (failure e, s)"
proof (cases rule: update_cases [of u rules s, case_names no_id stale invalid updated])
  case updated
  have "migrated rules (sv_runtime s) (update_migrate rules (sv_runtime s))"
    using updated(3) service_reach_facts(3) [OF assms]
    by (intro update_migrate_migrated) (auto simp: ruleset_valid_def)
  with updated show ?thesis using service_reach_facts(1) [OF assms] by auto
qed (auto simp: service_reach_facts(1) [OF assms])

text \<open>
  C21. The control side and the packet side agree: when a rule set passes \<open>RuleService::update\<close>,
  a pipeline with the same limits and runtime state installs it and ends with the same rules and
  the same runtime state, although the two migrations are coded differently.
\<close>

lemma update_agrees_with_install:
  assumes "service_reach limits s" "pp_limits p = limits" "pp_runtime p = sv_runtime s"
    and "update u rules s = (success (), s')"
  shows "\<exists>q. install rules p = (success (), q) \<and> pp_rules q = sv_active s' \<and> pp_runtime q = sv_runtime s'"
proof (cases rule: update_cases [of u rules s, case_names no_id stale invalid updated])
  case updated
  note facts = service_reach_facts [OF assms(1)]
  have runtime: "runtime_consistent (pp_runtime p)" using facts(3) assms(3) by simp
  have valid: "ruleset_valid rules \<and> ruleset_fits (pp_limits p) rules"
    using updated facts(1) assms(2) by simp
  have s': "s' = s\<lparr>sv_runtime := update_migrate rules (sv_runtime s), sv_intended := Some rules,
      sv_active := Some rules, sv_latestUpdateId := u\<rparr>"
    using updated(5) assms(4) by simp
  have "validateRuleSet rules (pp_limits p) = success ()"
    using validateRuleSet_accepts valid by blast
  then have "install rules p = (success (), p\<lparr>pp_rules := Some rules,
      pp_runtime := install_migrate rules (pp_runtime p)\<rparr>)"
    by (simp add: install_def)
  with s' update_migrate_eq [OF updated(3) facts(3)] assms(3) show ?thesis by simp
qed (use assms(4) in auto)


text \<open>
  C25. A removal forgets the version it removed: any version may come next, and when it is the
  last applied one the service reports convergence at once, though nothing was applied after the
  removal.
\<close>

lemma readd_reports_converged:
  assumes "service_reach limits s" "sv_active s = Some a" "u \<noteq> ''''" "rs_version a < v" "u' \<noteq> ''''"
    and "ruleset_valid rules" "ruleset_fits limits rules" "rs_version rules = sv_appliedVersion s"
  shows "let s1 = snd (remove u v s); s2 = snd (update u' rules s1) in
    fst (remove u v s) = success () \<and> fst (update u' rules s1) = success () \<and>
    sv_latestUpdateId s2 = u' \<and> convergence s2 = CONVERGED"
proof -
  have s1: "remove u v s = (success (), s\<lparr>sv_intended := None, sv_active := None, sv_latestUpdateId := u\<rparr>)"
    using assms(2-4) by (simp add: remove_def not_le)
  have "validateRuleSet rules limits = success ()"
    using assms(6,7) validateRuleSet_accepts by blast
  then show ?thesis
    using assms(5,8) by (simp add: s1 update_def convergence_def service_reach_facts(1) [OF assms(1)])
qed

section \<open>Instances\<close>

definition ul_service :: RuleService where
  "ul_service = snd (update ''update-3'' ul_rules (RuleService_new CapacityLimits_default))"

lemma ul_service_reach: "service_reach CapacityLimits_default ul_service"
  unfolding ul_service_def by (intro service_reach.intros)

lemma ul_update: "update ''update-3'' ul_rules (RuleService_new CapacityLimits_default) = (success (), ul_service)"
  by (simp add: ul_service_def model_defs)

lemma ul_service_active: "sv_active ul_service = Some ul_rules"
  by (simp add: ul_service_def model_defs)

lemma ul_valid: "ruleset_valid ul_rules" "ruleset_fits CapacityLimits_default ul_rules"
  using ul_validates validateRuleSet_accepts by blast+

lemma service_consistent_witness: "ruleset_valid ul_rules \<and> runtime_for ul_rules (sv_runtime ul_service)"
  using service_consistent [OF ul_service_reach] ul_service_active by simp

lemma update_effect_witness:
  "\<exists>rt. update ''update-3'' ul_rules (RuleService_new CapacityLimits_default) =
     (success (), (RuleService_new CapacityLimits_default)\<lparr>sv_runtime := rt, sv_intended := Some ul_rules,
        sv_active := Some ul_rules, sv_latestUpdateId := ''update-3''\<rparr>) \<and>
     migrated ul_rules RuntimeState_new rt"
  using update_effect [OF service_reach.new [of CapacityLimits_default], of "''update-3''" ul_rules] ul_valid
  by (simp add: RuleService_new_def)

lemma update_agrees_with_install_witness:
  "\<exists>q. install ul_rules (PacketPipeline_new CapacityLimits_default) = (success (), q) \<and>
     pp_rules q = Some ul_rules \<and> pp_runtime q = sv_runtime ul_service"
  using update_agrees_with_install [OF service_reach.new _ _ ul_update,
      of "PacketPipeline_new CapacityLimits_default"] ul_service_active
  by (simp add: PacketPipeline_new_def RuleService_new_def)


definition ul_applied :: RuleService where
  "ul_applied = markApplied ''update-3'' 3 ul_service"

lemma readd_reports_converged_witness:
  "convergence (snd (update ''update-5'' ul_rules (snd (remove ''update-4'' 4 ul_applied)))) = CONVERGED"
proof -
  have "service_reach CapacityLimits_default ul_applied"
    unfolding ul_applied_def by (intro service_reach.mark ul_service_reach)
  moreover have "sv_active ul_applied = Some ul_rules" "sv_appliedVersion ul_applied = 3"
    by (simp_all add: ul_applied_def ul_service_def model_defs)
  ultimately show ?thesis
    using readd_reports_converged [of CapacityLimits_default ul_applied ul_rules "''update-4''" 4
        "''update-5''" ul_rules] ul_valid
    by (simp add: Let_def ul_rules_def)
qed

end
