(* ===== verification/Dataplane.thy ===== *)
theory Dataplane
  imports Core_Types
begin

text \<open>
  \<open>include/upf/ports/dataplane_adapter.hpp\<close> and \<open>src/adapters/simulated_dataplane.cpp\<close>: a data
  plane that answers from a script of outcomes and remembers what it applied.

  \<open>dataplane_adapter\<close> is the port as its client sees it: an application may fail for a while, but
  only finitely often in a row, and a success is remembered. The simulated data plane interprets
  it.
\<close>

section \<open>The code\<close>

record AdapterResult =
  ar_outcome :: AdapterOutcome
  ar_dueTimeMicros :: u64

definition AdapterResult_new :: "AdapterOutcome \<Rightarrow> AdapterResult" where
  [model_defs]: "AdapterResult_new outcome = \<lparr>ar_outcome = outcome, ar_dueTimeMicros = 0\<rparr>"

record SimulatedDataplane =
  dp_outcomes :: "AdapterResult list"
  dp_next :: size_t
  dp_applied :: "string set"
  dp_delayed :: "string set"

definition SimulatedDataplane_new :: "AdapterResult list \<Rightarrow> SimulatedDataplane" where
  [model_defs]: "SimulatedDataplane_new outcomes =
     \<lparr>dp_outcomes = outcomes, dp_next = 0, dp_applied = {}, dp_delayed = {}\<rparr>"

definition dataplane_key :: "string \<Rightarrow> u64 \<Rightarrow> string" where
  [model_defs]: "dataplane_key updateId version = updateId @ '':'' @ decimal (unat version)"

definition dataplane_apply ::
  "string \<Rightarrow> u64 \<Rightarrow> u32 \<Rightarrow> SimulatedDataplane \<Rightarrow> AdapterResult \<times> SimulatedDataplane"
where
  [model_defs]: "dataplane_apply updateId version attempt dp =
     (let identity = dataplane_key updateId version
      in if identity \<in> dp_applied dp then (AdapterResult_new SUCCESS, dp)
         else let (result, dp) =
                (if unat (dp_next dp) < length (dp_outcomes dp)
                 then (dp_outcomes dp ! unat (dp_next dp), dp\<lparr>dp_next := dp_next dp + 1\<rparr>)
                 else (AdapterResult_new SUCCESS, dp));
              dp = (if ar_outcome result = SUCCESS
                then dp\<lparr>dp_applied := insert identity (dp_applied dp)\<rparr> else dp);
              dp = (if ar_outcome result = DELAYED_SUCCESS
                then dp\<lparr>dp_delayed := insert identity (dp_delayed dp)\<rparr> else dp)
           in (result, dp))"

definition completeDelayed ::
  "string \<Rightarrow> u64 \<Rightarrow> string \<Rightarrow> u64 \<Rightarrow> SimulatedDataplane \<Rightarrow> bool \<times> SimulatedDataplane"
where
  [model_defs]: "completeDelayed updateId version latestUpdateId latestVersion dp =
     (let identity = dataplane_key updateId version
      in if identity \<in> dp_applied dp then (True, dp)
         else if updateId \<noteq> latestUpdateId \<or> version \<noteq> latestVersion \<or> identity \<notin> dp_delayed dp
         then (False, dp)
         else (True, dp\<lparr>dp_applied := insert identity (dp_applied dp),
                        dp_delayed := dp_delayed dp - {identity}\<rparr>))"

section \<open>Identities\<close>

lemma colon_not_digit: "\<not> is_digit (CHR '':'')"
  by (simp add: is_digit_def)

lemma dataplane_key_eq:
  "dataplane_key u v = dataplane_key u' v' \<longleftrightarrow> u = u' \<and> v = v'"
proof
  assume eq: "dataplane_key u v = dataplane_key u' v'"
  have digits: "\<forall>c \<in> set (decimal n). is_digit c" for n
    using decimal_all_digits by blast
  have "u = u' \<and> CHR '':'' = CHR '':'' \<and> decimal (unat v) = decimal (unat v')"
    using eq by (intro digits_suffix_unique [OF _ digits digits colon_not_digit colon_not_digit])
      (simp add: dataplane_key_def)
  then show "u = u' \<and> v = v'" by (simp flip: word_unat_eq_iff)
qed simp

section \<open>The adapter contract\<close>

text \<open>
  \<open>budget\<close> bounds the outcomes other than success the adapter can still give; \<open>done\<close> says that
  an update is applied. The laws are what reconciliation relies on.
\<close>

locale dataplane_adapter =
  fixes apply_update :: "string \<Rightarrow> u64 \<Rightarrow> u32 \<Rightarrow> 'a \<Rightarrow> AdapterResult \<times> 'a"
    and applied :: "string \<Rightarrow> u64 \<Rightarrow> 'a \<Rightarrow> bool"
    and budget :: "'a \<Rightarrow> nat" and valid :: "'a \<Rightarrow> bool"
  assumes apply_valid: "valid a \<Longrightarrow> valid (snd (apply_update u v n a))"
    and apply_success: "valid a \<Longrightarrow>
      ar_outcome (fst (apply_update u v n a)) = SUCCESS \<longleftrightarrow> applied u v (snd (apply_update u v n a))"
    and apply_budget: "valid a \<Longrightarrow> ar_outcome (fst (apply_update u v n a)) \<noteq> SUCCESS \<Longrightarrow>
      budget (snd (apply_update u v n a)) < budget a"
    and apply_applied: "valid a \<Longrightarrow> applied u v a \<Longrightarrow>
      ar_outcome (fst (apply_update u v n a)) = SUCCESS \<and> snd (apply_update u v n a) = a"
begin

text \<open>Applying an update twice is applying it once.\<close>

lemma apply_idempotent:
  assumes "valid a" "ar_outcome (fst (apply_update u v n a)) = SUCCESS"
  shows "snd (apply_update u v m (snd (apply_update u v n a))) = snd (apply_update u v n a)"
  using apply_applied [OF apply_valid [OF assms(1)]] apply_success [OF assms(1)] assms(2) by simp

lemma exhausted_succeeds: "valid a \<Longrightarrow> budget a = 0 \<Longrightarrow> ar_outcome (fst (apply_update u v n a)) = SUCCESS"
  using apply_budget [of a u v n] by fastforce

end

definition dataplane_valid :: "SimulatedDataplane \<Rightarrow> bool" where
  "dataplane_valid dp \<longleftrightarrow> unat (dp_next dp) \<le> length (dp_outcomes dp) \<and> length (dp_outcomes dp) < 2 ^ 64"

definition dataplane_applied :: "string \<Rightarrow> u64 \<Rightarrow> SimulatedDataplane \<Rightarrow> bool" where
  "dataplane_applied u v dp \<longleftrightarrow> dataplane_key u v \<in> dp_applied dp"

definition dataplane_budget :: "SimulatedDataplane \<Rightarrow> nat" where
  "dataplane_budget dp = length (dp_outcomes dp) - unat (dp_next dp)"

lemma dataplane_next:
  assumes "dataplane_valid dp" "unat (dp_next dp) < length (dp_outcomes dp)"
  shows "unat (dp_next dp + 1) = unat (dp_next dp) + 1"
  using assms unat_add_exact [of "dp_next dp" 1] by (simp add: dataplane_valid_def)

interpretation sd: dataplane_adapter dataplane_apply dataplane_applied dataplane_budget dataplane_valid
proof unfold_locales
  fix dp u v n
  assume valid: "dataplane_valid dp"
  note step = dataplane_next [OF valid]
  show "dataplane_valid (snd (dataplane_apply u v n dp))"
    using valid step by (auto simp: dataplane_apply_def dataplane_valid_def Let_def)
  show "ar_outcome (fst (dataplane_apply u v n dp)) = SUCCESS \<longleftrightarrow>
      dataplane_applied u v (snd (dataplane_apply u v n dp))"
    by (auto simp: dataplane_apply_def dataplane_applied_def AdapterResult_new_def Let_def)
  show "ar_outcome (fst (dataplane_apply u v n dp)) \<noteq> SUCCESS \<Longrightarrow>
      dataplane_budget (snd (dataplane_apply u v n dp)) < dataplane_budget dp"
    using step by (auto simp: dataplane_apply_def dataplane_budget_def AdapterResult_new_def Let_def
        split: if_splits)
  show "dataplane_applied u v dp \<Longrightarrow> ar_outcome (fst (dataplane_apply u v n dp)) = SUCCESS \<and>
      snd (dataplane_apply u v n dp) = dp"
    by (simp add: dataplane_apply_def dataplane_applied_def AdapterResult_new_def Let_def)
qed

section \<open>Properties\<close>

text \<open>
  The identity under which the data plane remembers an application determines the update
  identifier and the version, whatever the identifier contains, colons and digits included.
\<close>

lemma dataplane_key_inj: "dataplane_key u v = dataplane_key u' v' \<longleftrightarrow> u = u' \<and> v = v'"
  by (rule dataplane_key_eq)

text \<open>
  C30. A delayed completion takes effect only for an update that is applied already, or that is
  both the latest one and announced as delayed; then it is applied afterwards. A stale or
  unannounced completion changes nothing, and no other update is affected.
\<close>

lemma completeDelayed_effect:
  "(fst (completeDelayed u v lu lv dp) \<longleftrightarrow> dataplane_applied u v dp \<or>
      u = lu \<and> v = lv \<and> dataplane_key u v \<in> dp_delayed dp) \<and>
   (if fst (completeDelayed u v lu lv dp) then dataplane_applied u v (snd (completeDelayed u v lu lv dp))
    else snd (completeDelayed u v lu lv dp) = dp) \<and>
   ((u', v') = (u, v) \<or>
      dataplane_applied u' v' (snd (completeDelayed u v lu lv dp)) = dataplane_applied u' v' dp)"
  by (auto simp: completeDelayed_def dataplane_applied_def Let_def dataplane_key_eq)

end
