(* ===== verification/Reconciliation.thy ===== *)
theory Reconciliation
  imports Rule_Service Dataplane
begin

text \<open>
  \<open>include/upf/application/reconciliation.hpp\<close> and \<open>src/application/reconciliation.cpp\<close>: the
  bounded retry loop that brings the intended rules to the data plane.

  The adapter is the parameter \<open>apply\<close> on a state of any type. The loop counter is a \<open>u32\<close> that
  wraps, so the loop is a \<open>partial_function\<close>: \<open>None\<close> is a run that never returns. The
  specification \<open>retry\<close> recurses over the number of attempts that are left.
\<close>

section \<open>The code\<close>

record ReconciliationStatus =
  st_converged :: bool
  st_attempts :: u32
  st_delayed :: bool

definition ReconciliationStatus_new :: ReconciliationStatus where
  [model_defs]: "ReconciliationStatus_new =
     \<lparr>st_converged = False, st_attempts = 0, st_delayed = False\<rparr>"

type_synonym 'a adapter = "string \<Rightarrow> u64 \<Rightarrow> u32 \<Rightarrow> 'a \<Rightarrow> AdapterResult \<times> 'a"

partial_function (option) reconcile_loop ::
  "'a adapter \<Rightarrow> RuleSet \<Rightarrow> u32 \<Rightarrow> u32 \<Rightarrow> ReconciliationStatus \<Rightarrow> RuleService \<Rightarrow> 'a \<Rightarrow>
   (ReconciliationStatus \<times> RuleService \<times> 'a) option"
where
  "reconcile_loop apply intended maximumAttempts attempt status s a =
     (if attempt \<le> maximumAttempts
      then let status = status\<lparr>st_attempts := st_attempts status + 1\<rparr>;
               (result, a) = apply (sv_latestUpdateId s) (rs_version intended) attempt a
           in if ar_outcome result = SUCCESS
              then Some (status\<lparr>st_converged := True\<rparr>,
                markApplied (sv_latestUpdateId s) (rs_version intended) s, a)
              else if ar_outcome result = DELAYED_SUCCESS
              then Some (status\<lparr>st_delayed := True\<rparr>, s, a)
              else if ar_outcome result = PERMANENT_FAILURE then Some (status, s, a)
              else reconcile_loop apply intended maximumAttempts (attempt + 1) status s a
      else Some (status, s, a))"

definition reconcile ::
  "'a adapter \<Rightarrow> u32 \<Rightarrow> RuleService \<Rightarrow> 'a \<Rightarrow> (ReconciliationStatus \<times> RuleService \<times> 'a) option"
where
  "reconcile apply maximumAttempts s a =
     (case sv_intended s of
        None \<Rightarrow> Some (ReconciliationStatus_new, s, a)
      | Some intended \<Rightarrow>
          if maximumAttempts = 0 then Some (ReconciliationStatus_new, s, a)
          else reconcile_loop apply intended maximumAttempts 1 ReconciliationStatus_new s a)"

text \<open>
  The controller: its members are references, so a call returns the service and the adapter as it
  left them.
\<close>

record 'a ReconciliationController =
  rc_service :: RuleService
  rc_adapter :: 'a
  rc_maximumAttempts :: u32

definition ReconciliationController_new :: "RuleService \<Rightarrow> 'a \<Rightarrow> u32 \<Rightarrow> 'a ReconciliationController" where
  "ReconciliationController_new service a maximumAttempts =
     \<lparr>rc_service = service, rc_adapter = a, rc_maximumAttempts = maximumAttempts\<rparr>"

definition ReconciliationController_reconcile ::
  "'a adapter \<Rightarrow> 'a ReconciliationController \<Rightarrow> (ReconciliationStatus \<times> 'a ReconciliationController) option"
where
  "ReconciliationController_reconcile apply c =
     (case reconcile apply (rc_maximumAttempts c) (rc_service c) (rc_adapter c) of
        None \<Rightarrow> None
      | Some (status, service, a) \<Rightarrow> Some (status, c\<lparr>rc_service := service, rc_adapter := a\<rparr>))"

section \<open>The specification\<close>

text \<open>
  \<open>retry apply u v k n a\<close> makes attempts number \<open>n + 1\<close> to \<open>n + k\<close> until one does not fail
  transiently; it returns the last outcome, the number of the last attempt and the adapter.
\<close>

fun retry :: "'a adapter \<Rightarrow> string \<Rightarrow> u64 \<Rightarrow> nat \<Rightarrow> nat \<Rightarrow> 'a \<Rightarrow> AdapterOutcome \<times> nat \<times> 'a" where
  "retry apply u v 0 n a = (TRANSIENT_FAILURE, n, a)"
| "retry apply u v (Suc k) n a =
     (let (result, a) = apply u v (of_nat (Suc n)) a
      in if ar_outcome result = TRANSIENT_FAILURE then retry apply u v k (Suc n) a
         else (ar_outcome result, Suc n, a))"

definition retried ::
  "RuleSet \<Rightarrow> RuleService \<Rightarrow> AdapterOutcome \<times> nat \<times> 'a \<Rightarrow> ReconciliationStatus \<times> RuleService \<times> 'a"
where
  "retried intended s r = (case r of (outcome, n, a) \<Rightarrow>
     (\<lparr>st_converged = (outcome = SUCCESS), st_attempts = of_nat n,
       st_delayed = (outcome = DELAYED_SUCCESS)\<rparr>,
      if outcome = SUCCESS then markApplied (sv_latestUpdateId s) (rs_version intended) s else s, a))"

lemma AdapterOutcome_other:
  "x \<noteq> SUCCESS \<Longrightarrow> x \<noteq> DELAYED_SUCCESS \<Longrightarrow> x \<noteq> PERMANENT_FAILURE \<Longrightarrow> x = TRANSIENT_FAILURE"
  by (cases x) simp_all

text \<open>The status after \<open>n\<close> attempts that failed transiently.\<close>

definition status_after :: "nat \<Rightarrow> ReconciliationStatus" where
  "status_after n = \<lparr>st_converged = False, st_attempts = of_nat n, st_delayed = False\<rparr>"

lemma reconcile_loop_step:
  assumes "of_nat (Suc n) \<le> maximum"
  shows "reconcile_loop apply intended maximum (of_nat (Suc n)) (status_after n) s a =
    (case apply (sv_latestUpdateId s) (rs_version intended) (of_nat (Suc n)) a of (result, a) \<Rightarrow>
       if ar_outcome result = TRANSIENT_FAILURE
       then reconcile_loop apply intended maximum (of_nat (Suc (Suc n))) (status_after (Suc n)) s a
       else Some (retried intended s (ar_outcome result, Suc n, a)))"
  using assms
  by (subst reconcile_loop.simps)
    (auto simp: Let_def status_after_def retried_def add.commute dest: AdapterOutcome_other
      split: prod.split)

lemma loop_retry:
  assumes "n + k = unat (maximum :: u32)" "unat maximum < 2 ^ 32 - 1"
  shows "reconcile_loop apply intended maximum (of_nat (Suc n)) (status_after n) s a =
    Some (retried intended s (retry apply (sv_latestUpdateId s) (rs_version intended) k n a))"
  using assms(1)
proof (induction k arbitrary: n a)
  case 0
  have "unat (of_nat (Suc n) :: u32) = Suc n"
    using 0 assms(2) by (intro unat_of_nat_len) simp
  then have "\<not> of_nat (Suc n) \<le> maximum" using 0 by (simp add: word_le_nat_alt del: of_nat_Suc)
  then show ?case
    by (subst reconcile_loop.simps) (simp add: retried_def status_after_def del: of_nat_Suc)
next
  case (Suc k)
  have "unat (of_nat (Suc n) :: u32) = Suc n"
    using Suc.prems assms(2) by (intro unat_of_nat_len) simp
  then have "of_nat (Suc n) \<le> maximum" using Suc.prems by (simp add: word_le_nat_alt del: of_nat_Suc)
  from reconcile_loop_step [OF this, of "apply" intended s a] Suc.IH [of "Suc n"] Suc.prems show ?case
    by (simp add: Let_def split: prod.split del: of_nat_Suc)
qed

text \<open>The result of \<open>reconcile\<close> by the specification.\<close>

definition reconcile_spec ::
  "'a adapter \<Rightarrow> nat \<Rightarrow> RuleService \<Rightarrow> 'a \<Rightarrow> ReconciliationStatus \<times> RuleService \<times> 'a"
where
  "reconcile_spec apply k s a =
     (case sv_intended s of
        None \<Rightarrow> (ReconciliationStatus_new, s, a)
      | Some intended \<Rightarrow>
          retried intended s (retry apply (sv_latestUpdateId s) (rs_version intended) k 0 a))"

lemma reconcile_is_spec:
  assumes "maximum \<noteq> - 1"
  shows "reconcile apply maximum s a = Some (reconcile_spec apply (unat maximum) s a)"
proof -
  have "unat maximum \<noteq> unat (- 1 :: u32)"
    using assms unfolding word_unat_eq_iff .
  then have small: "unat maximum < 2 ^ 32 - 1"
    using unsigned_less [of maximum, where ?'a = nat] unat_max_u32 by simp
  show ?thesis
    using loop_retry [of 0 "unat maximum" maximum "apply" _ s a, OF _ small]
    by (auto simp: reconcile_def reconcile_spec_def status_after_def ReconciliationStatus_new_def
        retried_def split: option.split)
qed

lemma retry_attempts: "fst (snd (retry apply u v k n a)) \<le> n + k"
  by (induction k arbitrary: n a) (auto simp: Let_def split: prod.split, metis add_Suc)

section \<open>Adapters with a budget\<close>

context dataplane_adapter
begin

lemma loop_returns:
  "valid a \<Longrightarrow> \<exists>r. reconcile_loop apply_update intended maximum attempt status s a = Some r"
proof (induction "budget a" arbitrary: a attempt status rule: less_induct)
  case less
  obtain result b where step:
    "apply_update (sv_latestUpdateId s) (rs_version intended) attempt a = (result, b)"
    by (rule prod.exhaust)
  show ?case
  proof (cases "attempt \<le> maximum \<and> ar_outcome result = TRANSIENT_FAILURE")
    case True
    have "budget b < budget a" "valid b"
      using apply_budget [OF less.prems, of "sv_latestUpdateId s" "rs_version intended" attempt]
        apply_valid [OF less.prems, of "sv_latestUpdateId s" "rs_version intended" attempt] step True
      by simp_all
    from less.hyps [OF this] True show ?thesis
      by (subst reconcile_loop.simps) (simp add: step Let_def)
  next
    case False
    then show ?thesis
      by (subst reconcile_loop.simps) (auto simp: step Let_def dest: AdapterOutcome_other)
  qed
qed

lemma reconcile_returns: "valid a \<Longrightarrow> \<exists>r. reconcile apply_update maximum s a = Some r"
  using loop_returns by (auto simp: reconcile_def split: option.split)

text \<open>A converged status means that the adapter has applied the intended version.\<close>

lemma retry_applied:
  "valid a \<Longrightarrow> retry apply_update u v k n a = (SUCCESS, m, b) \<Longrightarrow> applied u v b"
proof (induction k arbitrary: n a)
  case (Suc k)
  obtain result c where step: "apply_update u v (of_nat (Suc n)) a = (result, c)"
    by (rule prod.exhaust)
  have "valid c" "ar_outcome result = SUCCESS \<Longrightarrow> applied u v c"
    using apply_valid [OF Suc.prems(1), of u v "of_nat (Suc n)"]
      apply_success [OF Suc.prems(1), of u v "of_nat (Suc n)"] step by auto
  then show ?case
    using Suc.IH [of c "Suc n"] Suc.prems(2) step by (simp add: Let_def split: if_splits del: of_nat_Suc)
qed simp

end

section \<open>Properties\<close>

text \<open>An adapter that fails transiently for ever.\<close>

definition failing_adapter :: "'a adapter" where
  "failing_adapter u v n a = (AdapterResult_new TRANSIENT_FAILURE, a)"

text \<open>
  C26. Reconciliation terminates for any adapter as long as the maximum is not the largest
  \<open>u32\<close>, and its result is that of the retry specification: it repeats transient failures up to
  the maximum and stops at the first other outcome.
\<close>

lemma reconcile_refines:
  assumes "maximum \<noteq> - 1"
  shows "reconcile apply maximum s a = Some (reconcile_spec apply (unat maximum) s a)"
  by (rule reconcile_is_spec [OF assms])

text \<open>
  C29. With a maximum of \<open>UINT32_MAX\<close> the loop condition never fails: against an adapter that
  keeps failing transiently reconciliation never returns.
\<close>

lemma reconcile_diverges:
  assumes "sv_intended s = Some intended"
  shows "reconcile failing_adapter (- 1) s a = None"
proof -
  have "\<not> (ap = failing_adapter \<and> maximum = - 1)"
    if "reconcile_loop ap intended maximum attempt status s a = Some r" for ap maximum attempt status r
  proof (rule reconcile_loop.raw_induct
      [where P = "\<lambda>ap intended maximum attempt status s a r. \<not> (ap = failing_adapter \<and> maximum = - 1)", OF _ that])
    fix loop and ap :: "'a adapter" and intended maximum attempt status s a r
    assume rec: "\<And>ap intended maximum attempt status s a r. loop ap intended maximum attempt status s a = Some r \<Longrightarrow>
        \<not> (ap = failing_adapter \<and> maximum = - 1)"
      and body: "(if attempt \<le> maximum
        then let status = status\<lparr>st_attempts := st_attempts status + 1\<rparr>;
                 (result, a) = ap (sv_latestUpdateId s) (rs_version intended) attempt a
             in if ar_outcome result = SUCCESS
                then Some (status\<lparr>st_converged := True\<rparr>,
                  markApplied (sv_latestUpdateId s) (rs_version intended) s, a)
                else if ar_outcome result = DELAYED_SUCCESS
                then Some (status\<lparr>st_delayed := True\<rparr>, s, a)
                else if ar_outcome result = PERMANENT_FAILURE then Some (status, s, a)
                else loop ap intended maximum (attempt + 1) status s a
        else Some (status, s, a)) = Some r"
    show "\<not> (ap = failing_adapter \<and> maximum = - 1)"
    proof
      assume bad: "ap = failing_adapter \<and> maximum = - 1"
      with body have "loop ap intended maximum (attempt + 1)
          (status\<lparr>st_attempts := st_attempts status + 1\<rparr>) s a = Some r"
        by (simp add: failing_adapter_def AdapterResult_new_def Let_def word_order.extremum)
      from rec [OF this] bad show False by blast
    qed
  qed
  then have "reconcile_loop failing_adapter intended (- 1) 1 ReconciliationStatus_new s a = None"
    by (metis not_Some_eq)
  with assms show ?thesis by (simp add: reconcile_def)
qed

text \<open>
  C28. The simulated data plane always lets reconciliation return, whatever the maximum; a
  converged status then means that the data plane has applied the intended version, that the
  service's applied version is the intended one and that its status is \<open>CONVERGED\<close>; otherwise the
  service is unchanged. The attempts stay within the maximum.
\<close>

lemma reconcile_simulated:
  assumes "dataplane_valid dp"
  shows "(\<exists>r. reconcile dataplane_apply maximum s dp = Some r) \<and>
    (maximum \<noteq> - 1 \<longrightarrow> (let (status, s', dp') = the (reconcile dataplane_apply maximum s dp) in
      st_attempts status \<le> maximum \<and>
      (if st_converged status
       then \<exists>intended. sv_intended s = Some intended \<and>
         dataplane_applied (sv_latestUpdateId s) (rs_version intended) dp' \<and>
         s' = s\<lparr>sv_appliedVersion := rs_version intended\<rparr> \<and> convergence s' = CONVERGED
       else s' = s)))"
proof (intro conjI impI)
  show "\<exists>r. reconcile dataplane_apply maximum s dp = Some r" by (rule sd.reconcile_returns [OF assms])
next
  assume max: "maximum \<noteq> - 1"
  show "let (status, s', dp') = the (reconcile dataplane_apply maximum s dp) in
      st_attempts status \<le> maximum \<and>
      (if st_converged status
       then \<exists>intended. sv_intended s = Some intended \<and>
         dataplane_applied (sv_latestUpdateId s) (rs_version intended) dp' \<and>
         s' = s\<lparr>sv_appliedVersion := rs_version intended\<rparr> \<and> convergence s' = CONVERGED
       else s' = s)"
  proof (cases "sv_intended s")
    case None
    then show ?thesis by (simp add: reconcile_def ReconciliationStatus_new_def)
  next
    case (Some intended)
    let ?u = "sv_latestUpdateId s" and ?v = "rs_version intended"
    obtain outcome m b where retry: "retry dataplane_apply ?u ?v (unat maximum) 0 dp = (outcome, m, b)"
      by (rule prod_cases3)
    have "m \<le> unat maximum" using retry_attempts [of dataplane_apply ?u ?v "unat maximum" 0 dp] retry by simp
    then have attempts: "(of_nat m :: u32) \<le> maximum"
      using unsigned_less [of maximum, where ?'a = nat]
      by (subst word_le_nat_alt, subst unat_of_nat_len) simp_all
    have "outcome = SUCCESS \<Longrightarrow> dataplane_applied ?u ?v b"
      using sd.retry_applied [OF assms] retry by blast
    then show ?thesis
      using attempts Some
      by (simp add: reconcile_is_spec [OF max] reconcile_spec_def retry retried_def markApplied_def
          convergence_def)
  qed
qed

text \<open>A script of \<open>k\<close> transient failures followed by a success.\<close>

definition flaky :: "nat \<Rightarrow> AdapterResult list \<Rightarrow> AdapterResult list" where
  "flaky k rest = replicate k (AdapterResult_new TRANSIENT_FAILURE) @ AdapterResult_new SUCCESS # rest"

lemma flaky_nth:
  "i < k \<Longrightarrow> flaky k rest ! i = AdapterResult_new TRANSIENT_FAILURE"
  "flaky k rest ! k = AdapterResult_new SUCCESS" "k < length (flaky k rest)"
  by (simp_all add: flaky_def nth_append)

lemma flaky_retry:
  assumes "j \<le> k" "k - j < m" "k < 2 ^ 64" "dp_outcomes dp = flaky k rest" "unat (dp_next dp) = j"
    and "dataplane_key u v \<notin> dp_applied dp"
  shows "\<exists>dp'. retry dataplane_apply u v m n dp = (SUCCESS, n + (k - j) + 1, dp')"
  using assms
proof (induction m arbitrary: n j dp)
  case (Suc m)
  have len: "unat (dp_next dp) < length (dp_outcomes dp)"
    using Suc.prems flaky_nth(3) [of k rest] by simp
  show ?case
  proof (cases "j = k")
    case True
    then have "dp_outcomes dp ! unat (dp_next dp) = AdapterResult_new SUCCESS"
      using Suc.prems flaky_nth(2) by simp
    then have "fst (dataplane_apply u v (of_nat (Suc n)) dp) = AdapterResult_new SUCCESS"
      using len Suc.prems(6) by (simp add: dataplane_apply_def Let_def)
    then show ?thesis
      using True by (simp add: AdapterResult_new_def Let_def split_beta del: of_nat_Suc)
  next
    case False
    then have "j < k" using Suc.prems(1) by simp
    then have "dp_outcomes dp ! unat (dp_next dp) = AdapterResult_new TRANSIENT_FAILURE"
      using Suc.prems flaky_nth(1) by simp
    then have step: "dataplane_apply u v (of_nat (Suc n)) dp =
        (AdapterResult_new TRANSIENT_FAILURE, dp\<lparr>dp_next := dp_next dp + 1\<rparr>)"
      using len Suc.prems(6) by (simp add: dataplane_apply_def Let_def AdapterResult_new_def)
    have next_j: "unat (dp_next dp + 1) = Suc j"
      using unat_add_exact [of "dp_next dp" 1] Suc.prems(3,5) \<open>j < k\<close> by simp
    have "\<exists>dp'. retry dataplane_apply u v m (Suc n) (dp\<lparr>dp_next := dp_next dp + 1\<rparr>) =
        (SUCCESS, n + (k - j) + 1, dp')"
      using Suc.IH [of "Suc j" "dp\<lparr>dp_next := dp_next dp + 1\<rparr>" "Suc n"] Suc.prems \<open>j < k\<close> next_j
      by (simp add: Suc_diff_Suc)
    then show ?thesis
      using step \<open>j < k\<close> by (simp add: Let_def AdapterResult_new_def Suc_diff_Suc del: of_nat_Suc)
  qed
qed simp

lemma reconcile_overcomes:
  assumes "sv_intended s = Some intended" "k < unat maximum" "maximum \<noteq> - 1"
  shows "\<exists>dp'. reconcile dataplane_apply maximum s (SimulatedDataplane_new (flaky k rest)) =
    Some (\<lparr>st_converged = True, st_attempts = of_nat (k + 1), st_delayed = False\<rparr>,
      s\<lparr>sv_appliedVersion := rs_version intended\<rparr>, dp')"
proof -
  let ?dp = "SimulatedDataplane_new (flaky k rest)"
  have "k < 2 ^ 64" using assms(2) unsigned_less [of maximum, where ?'a = nat] by simp
  then obtain dp' where "retry dataplane_apply (sv_latestUpdateId s) (rs_version intended)
      (unat maximum) 0 ?dp = (SUCCESS, k + 1, dp')"
    using flaky_retry [of 0 k "unat maximum" ?dp rest "sv_latestUpdateId s" "rs_version intended" 0] assms(2)
    by (auto simp: SimulatedDataplane_new_def)
  then show ?thesis
    by (simp add: reconcile_is_spec [OF assms(3)] reconcile_spec_def assms(1) retried_def markApplied_def)
qed

text \<open>
  C27. Transient failures are overcome: when the data plane fails \<open>k\<close> times transiently and then
  succeeds, and more than \<open>k\<close> attempts are allowed, reconciliation converges with attempt \<open>k + 1\<close>
  and the service's applied version is the intended one.
\<close>

lemma reconcile_converges:
  assumes "sv_intended s = Some intended" "k < unat maximum" "maximum \<noteq> - 1"
  shows "\<exists>dp'. reconcile dataplane_apply maximum s (SimulatedDataplane_new (flaky k rest)) =
    Some (\<lparr>st_converged = True, st_attempts = of_nat (k + 1), st_delayed = False\<rparr>,
      s\<lparr>sv_appliedVersion := rs_version intended\<rparr>, dp')"
  by (rule reconcile_overcomes [OF assms])

section \<open>Instances\<close>

lemma ul_service_intended: "sv_intended ul_service = Some ul_rules"
  by (simp add: ul_service_def model_defs)

lemma reconcile_refines_witness:
  "reconcile failing_adapter 3 ul_service () =
     Some (\<lparr>st_converged = False, st_attempts = 3, st_delayed = False\<rparr>, ul_service, ())"
proof -
  have "reconcile failing_adapter 3 ul_service () = Some (reconcile_spec failing_adapter (unat (3 :: u32)) ul_service ())"
    by (rule reconcile_refines) simp
  moreover have "retry failing_adapter u v 3 0 () = (TRANSIENT_FAILURE, 3, ())" for u v
    by (simp add: eval_nat_numeral failing_adapter_def AdapterResult_new_def)
  ultimately show ?thesis by (simp add: reconcile_spec_def ul_service_intended retried_def)
qed

lemma reconcile_diverges_witness: "reconcile failing_adapter (- 1) ul_service () = None"
  by (rule reconcile_diverges [OF ul_service_intended])

lemma reconcile_converges_witness:
  "\<exists>dp'. reconcile dataplane_apply 3 ul_service (SimulatedDataplane_new (flaky 1 [])) =
    Some (\<lparr>st_converged = True, st_attempts = 2, st_delayed = False\<rparr>,
      ul_service\<lparr>sv_appliedVersion := 3\<rparr>, dp')"
  using reconcile_converges [OF ul_service_intended, of 1 3 "[]"] by (simp add: ul_rules_def)

lemma reconcile_simulated_witness:
  "\<exists>r. reconcile dataplane_apply (- 1) ul_service (SimulatedDataplane_new (flaky 1 [])) = Some r"
proof -
  have "dataplane_valid (SimulatedDataplane_new (flaky 1 []))"
    by (simp add: dataplane_valid_def SimulatedDataplane_new_def flaky_def)
  from reconcile_simulated [OF this, of "- 1" ul_service] show ?thesis by simp
qed

end
