(* ===== verification/Scenarios.thy ===== *)
theory Scenarios
  imports Reconciliation
begin

text \<open>
  \<open>include/upf/application/scenario_runner.hpp\<close> and the runner of
  \<open>src/application/scenario_runner.cpp\<close>: the built-in scenarios, which drive the pipeline, the rule
  service and reconciliation and collect a \<open>RunResult\<close>.

  A scenario is a step on the pair of the result and the pipeline. The results of \<open>install\<close> and
  \<open>update\<close> are discarded, as in the code.
\<close>

section \<open>The code\<close>

record RunResult =
  rr_runId :: string
  rr_scenarioId :: string
  rr_decisions :: "PacketDecision list"
  rr_usageReports :: "string list"
  rr_n3Sink :: "Packet list"
  rr_n6Sink :: "Packet list"
  rr_intendedVersion :: u64
  rr_appliedVersion :: u64
  rr_activeVersion :: u64
  rr_convergence :: ConvergenceStatus
  rr_observabilityDegraded :: bool
  rr_droppedEvents :: size_t

definition RunResult_new :: RunResult where
  [model_defs]: "RunResult_new =
     \<lparr>rr_runId = '''', rr_scenarioId = '''', rr_decisions = [], rr_usageReports = [], rr_n3Sink = [],
      rr_n6Sink = [], rr_intendedVersion = 0, rr_appliedVersion = 0, rr_activeVersion = 0,
      rr_convergence = EMPTY, rr_observabilityDegraded = False, rr_droppedEvents = 0\<rparr>"

definition scenarioNames :: "string list" where
  [model_defs]: "scenarioNames =
     [''uplink-forward'', ''downlink-forward'', ''pdr-precedence'', ''qer-rate-limit'',
      ''urr-threshold'', ''adapter-failure'', ''queue-full'', ''overload'', ''recovery'', ''shutdown'']"

type_synonym run_state = "RunResult \<times> PacketPipeline"

text \<open>\<open>result.decisions.push_back(pipeline.process(packet, result.runId, name))\<close>\<close>

definition process_into :: "platform \<Rightarrow> indeterminate \<Rightarrow> string \<Rightarrow> Packet \<Rightarrow> run_state \<Rightarrow> run_state outcome" where
  [model_defs]: "process_into pl ind name packet st =
     (case st of (result, pipeline) \<Rightarrow>
        (case process pl ind packet (rr_runId result) name pipeline of
           None \<Rightarrow> Undefined_Behaviour
         | Some (d, pipeline) \<Rightarrow> Returns (result\<lparr>rr_decisions := rr_decisions result @ [d]\<rparr>, pipeline)))"

definition install_into :: "RuleSet \<Rightarrow> run_state \<Rightarrow> run_state" where
  [model_defs]: "install_into rules st = (case st of (result, pipeline) \<Rightarrow> (result, snd (install rules pipeline)))"

definition run_plain :: "platform \<Rightarrow> indeterminate \<Rightarrow> string \<Rightarrow> run_state \<Rightarrow> run_state outcome" where
  [model_defs]: "run_plain pl ind name st =
     and_then (value_of (uplinkRules pl)) (\<lambda>rules.
     and_then (value_of (uplinkPacket pl ind)) (\<lambda>packet.
     process_into pl ind name packet (install_into rules st)))"

definition run_downlink :: "platform \<Rightarrow> indeterminate \<Rightarrow> string \<Rightarrow> run_state \<Rightarrow> run_state outcome" where
  [model_defs]: "run_downlink pl ind name st =
     and_then (value_of (downlinkRules pl)) (\<lambda>rules.
     and_then (value_of (downlinkPacket pl ind)) (\<lambda>packet.
     process_into pl ind name packet (install_into rules st)))"

definition run_rate_limit :: "platform \<Rightarrow> indeterminate \<Rightarrow> string \<Rightarrow> run_state \<Rightarrow> run_state outcome" where
  [model_defs]: "run_rate_limit pl ind name st =
     and_then (value_of (uplinkRules pl)) (\<lambda>rules.
     and_then (value_of (uplinkPacket pl ind)) (\<lambda>packet.
     let first = packet\<lparr>pkt_packetId := ''pkt-rate-001'', pkt_payloadBytes := 19000\<rparr>;
         second = packet\<lparr>pkt_packetId := ''pkt-rate-002'', pkt_payloadBytes := 2000\<rparr>
     in and_then (process_into pl ind name first (install_into rules st)) (\<lambda>st.
        process_into pl ind name second st)))"

definition run_threshold :: "platform \<Rightarrow> indeterminate \<Rightarrow> string \<Rightarrow> run_state \<Rightarrow> run_state outcome" where
  [model_defs]: "run_threshold pl ind name st =
     and_then (value_of (uplinkRules pl)) (\<lambda>rules.
     and_then (value_of (uplinkPacket pl ind)) (\<lambda>packet.
     process_into pl ind name (packet\<lparr>pkt_packetId := ''pkt-urr-001'', pkt_payloadBytes := 10000\<rparr>)
       (install_into rules st)))"

definition run_precedence :: "platform \<Rightarrow> indeterminate \<Rightarrow> string \<Rightarrow> run_state \<Rightarrow> run_state outcome" where
  [model_defs]: "run_precedence pl ind name st =
     and_then (value_of (uplinkRules pl)) (\<lambda>rules.
     and_then (value_of (uplinkPacket pl ind)) (\<lambda>packet.
     process_into pl ind name packet (install_into (add_lowerPriority rules) st)))"

definition run_recovery :: "platform \<Rightarrow> indeterminate \<Rightarrow> string \<Rightarrow> run_state \<Rightarrow> run_state outcome" where
  [model_defs]: "run_recovery pl ind name st =
     and_then (value_of (uplinkRules pl)) (\<lambda>rules.
     let service = snd (update ''update-3'' rules (RuleService_new CapacityLimits_default));
         outcomes = [AdapterResult_new TRANSIENT_FAILURE, AdapterResult_new SUCCESS];
         reconciliation = ReconciliationController_new service (SimulatedDataplane_new outcomes) 3
     in (case ReconciliationController_reconcile dataplane_apply reconciliation of
           None \<Rightarrow> Runs_Forever
         | Some (status, reconciliation) \<Rightarrow>
             and_then (value_of (uplinkPacket pl ind)) (\<lambda>packet.
             and_then (process_into pl ind name packet (install_into rules st)) (\<lambda>(result, pipeline).
             Returns (result\<lparr>rr_intendedVersion := rs_version rules, rr_activeVersion := rs_version rules,
               rr_appliedVersion := sv_appliedVersion (rc_service reconciliation),
               rr_convergence := (if st_converged status then CONVERGED else DIVERGENT)\<rparr>, pipeline)))))"

definition run_overload :: "platform \<Rightarrow> indeterminate \<Rightarrow> string \<Rightarrow> run_state \<Rightarrow> run_state outcome" where
  [model_defs]: "run_overload pl ind name st =
     (let limits = CapacityLimits_default\<lparr>lim_events := 0\<rparr>
      in run_plain pl ind name (fst st, PacketPipeline_new limits))"

definition run_classified :: "platform \<Rightarrow> indeterminate \<Rightarrow> string \<Rightarrow> run_state \<Rightarrow> run_state outcome" where
  [model_defs]: "run_classified pl ind name st =
     and_then (value_of (uplinkPacket pl ind)) (\<lambda>packet.
     let classified = (PacketDecision_new ind)\<lparr>pd_runId := rr_runId (fst st), pd_scenarioId := name,
           pd_packetId := pkt_packetId packet, pd_sessionId := pkt_sessionId packet,
           pd_ingress := pkt_ingress packet, pd_rulesetVersion := 3,
           pd_terminalResult := (if name = ''queue-full'' then PACKET_QUEUE_FULL else SHUTDOWN_DEADLINE)\<rparr>
     in Returns ((fst st)\<lparr>rr_decisions := rr_decisions (fst st) @ [classified]\<rparr>, snd st))"

definition run_body :: "platform \<Rightarrow> indeterminate \<Rightarrow> string \<Rightarrow> run_state \<Rightarrow> run_state outcome" where
  [model_defs]: "run_body pl ind name st =
     (if name = ''downlink-forward'' then run_downlink pl ind name st
      else if name = ''qer-rate-limit'' then run_rate_limit pl ind name st
      else if name = ''urr-threshold'' then run_threshold pl ind name st
      else if name = ''pdr-precedence'' then run_precedence pl ind name st
      else if name = ''adapter-failure'' \<or> name = ''recovery'' then run_recovery pl ind name st
      else if name = ''overload'' then run_overload pl ind name st
      else if name = ''queue-full'' \<or> name = ''shutdown'' then run_classified pl ind name st
      else run_plain pl ind name st)"

definition run_finish :: "string \<Rightarrow> run_state \<Rightarrow> RunResult" where
  [model_defs]: "run_finish name st =
     (case st of (result, pipeline) \<Rightarrow>
        let result = result\<lparr>rr_n3Sink := pp_n3Sink pipeline, rr_n6Sink := pp_n6Sink pipeline,
              rr_usageReports := pp_reports pipeline,
              rr_observabilityDegraded := PacketPipeline_observabilityDegraded pipeline,
              rr_droppedEvents := pp_droppedEvents pipeline\<rparr>
        in if name \<noteq> ''adapter-failure'' \<and> name \<noteq> ''recovery''
           then result\<lparr>rr_intendedVersion := 3, rr_appliedVersion := 3, rr_activeVersion := 3,
             rr_convergence := CONVERGED\<rparr>
           else result)"

definition run :: "platform \<Rightarrow> indeterminate \<Rightarrow> string \<Rightarrow> RunResult outcome" where
  [model_defs]: "run pl ind name =
     (let result = RunResult_new\<lparr>rr_runId := ''upf-demo-001'', rr_scenarioId := name\<rparr>
      in and_then (run_body pl ind name (result, PacketPipeline_new CapacityLimits_default))
           (\<lambda>st. Returns (run_finish name st)))"

section \<open>What the scenarios show\<close>

text \<open>
  A run in brief: the results, the number of packets in each sink, the reports, the convergence
  status with the applied version, and the number of dropped events.
\<close>

definition summary ::
  "RunResult outcome \<Rightarrow> (TerminalResult list \<times> nat \<times> nat \<times> string list \<times> ConvergenceStatus \<times> u64 \<times> size_t) option"
where
  "summary r = (case r of
     Returns x \<Rightarrow> Some (map pd_terminalResult (rr_decisions x), length (rr_n3Sink x),
       length (rr_n6Sink x), rr_usageReports x, rr_convergence x, rr_appliedVersion x, rr_droppedEvents x)
   | _ \<Rightarrow> None)"

lemmas dotted_fixtures = uplinkRules_dotted uplinkPacket_dotted downlinkRules_dotted downlinkPacket_dotted

lemmas scenario_bodies = summary_def run_def run_body_def run_plain_def run_downlink_def
  run_precedence_def run_rate_limit_def run_threshold_def run_overload_def run_classified_def

lemma summary_single:
  "summary (run dotted_platform ind ''uplink-forward'') = Some ([FORWARDED_TO_N6], 0, 1, [], CONVERGED, 3, 0)"
  "summary (run dotted_platform ind ''downlink-forward'') = Some ([FORWARDED_TO_N3], 1, 0, [], CONVERGED, 3, 0)"
  "summary (run dotted_platform ind ''pdr-precedence'') = Some ([FORWARDED_TO_N6], 0, 1, [], CONVERGED, 3, 0)"
  "summary (run dotted_platform ind ''overload'') = Some ([FORWARDED_TO_N6], 0, 1, [], CONVERGED, 3, 1)"
  "summary (run dotted_platform ind ''queue-full'') = Some ([PACKET_QUEUE_FULL], 0, 0, [], CONVERGED, 3, 0)"
  "summary (run dotted_platform ind ''shutdown'') = Some ([SHUTDOWN_DEADLINE], 0, 0, [], CONVERGED, 3, 0)"
  by (simp_all add: scenario_bodies dotted_fixtures) (simp_all add: model_defs)

lemma summary_reporting:
  "summary (run dotted_platform ind ''qer-rate-limit'') =
    Some ([FORWARDED_TO_N6, RATE_LIMITED], 0, 1, [''session-1-urr-40-g1-v3''], CONVERGED, 3, 0)"
  "summary (run dotted_platform ind ''urr-threshold'') =
    Some ([FORWARDED_TO_N6], 0, 1, [''session-1-urr-40-g1-v3''], CONVERGED, 3, 0)"
  by (simp_all add: scenario_bodies dotted_fixtures Let_def) (simp_all add: model_defs)

text \<open>The scenarios with an adapter that fails once and then succeeds.\<close>

lemma recovery_reconciles:
  "\<exists>dp. reconcile dataplane_apply 3 ul_service
     (SimulatedDataplane_new [AdapterResult_new TRANSIENT_FAILURE, AdapterResult_new SUCCESS]) =
   Some (\<lparr>st_converged = True, st_attempts = 2, st_delayed = False\<rparr>, ul_service\<lparr>sv_appliedVersion := 3\<rparr>, dp)"
  using reconcile_overcomes [OF ul_service_intended, of 1 3 "[]"] by (simp add: ul_rules_def flaky_def)

lemma summary_recovery:
  assumes "name \<in> {''adapter-failure'', ''recovery''}"
  shows "summary (run dotted_platform ind name) = Some ([FORWARDED_TO_N6], 0, 1, [], CONVERGED, 3, 0)"
proof -
  obtain dp where reconciled: "reconcile dataplane_apply 3 ul_service
      (SimulatedDataplane_new [AdapterResult_new TRANSIENT_FAILURE, AdapterResult_new SUCCESS]) =
    Some (\<lparr>st_converged = True, st_attempts = 2, st_delayed = False\<rparr>, ul_service\<lparr>sv_appliedVersion := 3\<rparr>, dp)"
    using recovery_reconciles by blast
  let ?st = "(RunResult_new\<lparr>rr_runId := ''upf-demo-001'', rr_scenarioId := name\<rparr>,
      PacketPipeline_new CapacityLimits_default)"
  obtain d p where processed: "process_into dotted_platform ind name ul_packet (install_into ul_rules ?st) =
      Returns ((fst ?st)\<lparr>rr_decisions := [d]\<rparr>, p)"
    and final: "pd_terminalResult d = FORWARDED_TO_N6" "length (pp_n3Sink p) = 0" "length (pp_n6Sink p) = 1"
      "pp_reports p = []" "pp_droppedEvents p = 0"
    by (simp add: model_defs)
  have "run_body dotted_platform ind name ?st = run_recovery dotted_platform ind name ?st"
    using assms by (auto simp: run_body_def)
  also have "\<dots> = Returns ((fst ?st)\<lparr>rr_decisions := [d], rr_intendedVersion := 3, rr_activeVersion := 3,
      rr_appliedVersion := 3, rr_convergence := CONVERGED\<rparr>, p)"
    using processed reconciled
    by (simp add: run_recovery_def ReconciliationController_reconcile_def ReconciliationController_new_def dotted_fixtures ul_service_def [symmetric] Let_def)
      (simp add: ul_rules_def RunResult_new_def)
  finally show ?thesis
    using assms final by (auto simp: summary_def run_def run_finish_def Let_def RunResult_new_def)
qed


text \<open>
  The \<open>queue-full\<close> and \<open>shutdown\<close> scenarios report an arrival time they never set: it is
  whatever the uninitialised member holds, so two runs can differ.
\<close>

lemma classified_time_uninitialised:
  "\<exists>r s. run dotted_platform ind ''queue-full'' = Returns r \<and>
     run dotted_platform ind ''shutdown'' = Returns s \<and>
     map pd_arrivalTimeMicros (rr_decisions r) = [any_u64 ind] \<and>
     map pd_arrivalTimeMicros (rr_decisions s) = [any_u64 ind]"
  by (simp add: run_def run_body_def run_classified_def dotted_fixtures)
    (simp add: model_defs)

end
