(* ===== verification/Human_Output.thy ===== *)
theory Human_Output
  imports Scenarios
begin

text \<open>
  \<open>src/adapters/human_output.cpp\<close>: the text a run prints for people. What an \<open>ostringstream\<close>
  collects is the concatenation of what is written to it; unsigned numbers are written in decimal.
\<close>

section \<open>The code\<close>

abbreviation newline :: string where "newline \<equiv> [CHR 0x0A]"

definition disclaimer :: string where
  "disclaimer = ''Simulation-only educational demo; not a conformant or production PFCP, GTP-U, or UPF implementation.''"

definition unsigned_text :: "'a::len word \<Rightarrow> string" where
  [model_defs]: "unsigned_text w = decimal (unat w)"

definition human_criterion :: "CriterionResult \<Rightarrow> string" where
  [model_defs]: "human_criterion c =
     ''    '' @ cr_name c @ '': '' @
     (if cr_applicable c then (if cr_matched c then ''MATCH'' else ''MISMATCH'') else ''NOT_APPLICABLE'') @
     newline"

definition human_candidate :: "MatchCandidate \<Rightarrow> string" where
  [model_defs]: "human_candidate c =
     ''  PDR '' @ unsigned_text (mc_pdrId c) @ '': '' @ (if mc_matched c then ''MATCH'' else ''NO_MATCH'') @
     newline @ concat (map human_criterion (mc_criteria c))"

definition human_head :: "PacketDecision \<Rightarrow> string" where
  [model_defs]: "human_head d =
     ''Packet: '' @ pd_packetId d @ newline @ ''Session: '' @ pd_sessionId d @ newline @
     ''Ingress: '' @ (if pd_ingress d = N3 then ''N3'' else ''N6'') @ newline @
     ''Simulated time: '' @ unsigned_text (pd_arrivalTimeMicros d) @ newline @
     ''Ruleset version: '' @ unsigned_text (pd_rulesetVersion d) @ newline @
     ''PDR candidates:'' @ newline @ concat (map human_candidate (pd_candidates d))"

definition human_qer :: "QerDecision \<Rightarrow> string" where
  [model_defs]: "human_qer q =
     ''QER: '' @ qd_outcome q @
     (if qd_applicable q
      then '' (tokens '' @ unsigned_text (qd_tokensBefore q) @ '' + '' @ unsigned_text (qd_refillBytes q) @
        '' - '' @ unsigned_text (qd_packetChargeBytes q) @ '' = '' @ unsigned_text (qd_tokensAfter q) @ '')''
      else '''')"

definition human_far :: "FarDecision \<Rightarrow> string" where
  [model_defs]: "human_far f =
     ''FAR: '' @ (if \<not> fd_applicable f then ''NOT_APPLICABLE''
       else if fd_action f = FORWARD then ''FORWARD'' else ''DROP'')"

definition human_urr :: "UrrDecision \<Rightarrow> string" where
  [model_defs]: "human_urr u =
     ''URR packets: '' @ unsigned_text (ud_packetsBefore u) @ '' -> '' @ unsigned_text (ud_packetsAfter u) @ newline @
     ''URR bytes: '' @ unsigned_text (ud_bytesBefore u) @ '' -> '' @ unsigned_text (ud_bytesAfter u) @ newline @
     ''URR report: '' @ (if ud_reportId u = '''' then ''none'' else ud_reportId u)"

definition human_decision :: "PacketDecision \<Rightarrow> string" where
  [model_defs]: "human_decision d =
     human_head d @
     ''PDR: '' @ (if pd_selectedPdrId d = 0 then ''none'' else unsigned_text (pd_selectedPdrId d)) @ newline @
     human_qer (pd_qer d) @ newline @ human_far (pd_far d) @ newline @ human_urr (pd_urr d) @ newline @
     ''Sink: '' @ (if pd_sinkPresent d then (if pd_sink d = N3 then ''N3'' else ''N6'') else ''none'') @ newline @
     ''Result: '' @ terminalResultName (pd_terminalResult d) @ newline"

definition renderHuman :: "RunResult \<Rightarrow> string" where
  [model_defs]: "renderHuman result =
     disclaimer @ newline @ ''Run: '' @ rr_runId result @ newline @ ''Scenario: '' @ rr_scenarioId result @
     newline @ concat (map human_decision (rr_decisions result))"

end
