(* ===== verification/Json_Values.thy ===== *)
theory Json_Values
  imports Core_Types
begin

text \<open>
  JSON documents as data. The output adapter builds documents with the constructors of
  \<open>nlohmann::json\<close>; the input adapter reads them through its accessors. The library itself is not
  part of the sources, so serialisation, parsing and the accessors are parameters of the model:
  \<open>json_library\<close> is the record of the accessors the input adapter calls, over documents of any
  type \<open>'j\<close>. \<open>json_laws\<close> states the documented behaviour that the round trip relies on.

  The library keeps the members of an object sorted by name; the list of members of an \<open>Obj\<close> is in
  the order of construction, which no accessor and no serialisation shows.
\<close>

datatype json =
  Null
| Bool bool
| Num nat
| Str string
| Arr "json list"
| Obj "(string \<times> json) list"

text \<open>An object has one value per name.\<close>

fun json_wf :: "json \<Rightarrow> bool" where
  "json_wf (Arr xs) \<longleftrightarrow> list_all json_wf xs"
| "json_wf (Obj kvs) \<longleftrightarrow> distinct (map fst kvs) \<and> list_all (\<lambda>kv. json_wf (snd kv)) kvs"
| "json_wf _ \<longleftrightarrow> True"

fun json_field :: "string \<Rightarrow> json \<Rightarrow> json" where
  "json_field k (Obj kvs) = (case map_of kvs k of None \<Rightarrow> Null | Some v \<Rightarrow> v)"
| "json_field k _ = Null"

fun json_elements :: "json \<Rightarrow> json list" where
  "json_elements (Arr xs) = xs"
| "json_elements _ = []"

section \<open>The accessors of the library\<close>

text \<open>
  \<open>at\<close> and \<open>get\<close> throw; \<open>operator[]\<close> on a constant value throws on the wrong kind of value and is
  undefined for a name that is missing.
\<close>

record 'j json_library =
  json_parse :: "string \<Rightarrow> 'j result_of"
  json_at :: "'j \<Rightarrow> string \<Rightarrow> 'j result_of"
  json_contains :: "'j \<Rightarrow> string \<Rightarrow> bool"
  json_member :: "'j \<Rightarrow> string \<Rightarrow> 'j outcome"
  json_size :: "'j \<Rightarrow> nat"
  json_index :: "'j \<Rightarrow> nat \<Rightarrow> 'j outcome"
  json_equals :: "'j \<Rightarrow> string \<Rightarrow> bool"
  json_is_string :: "'j \<Rightarrow> bool"
  json_get_string :: "'j \<Rightarrow> string result_of"
  json_get_u8 :: "'j \<Rightarrow> u8 result_of"
  json_get_u16 :: "'j \<Rightarrow> u16 result_of"
  json_get_u32 :: "'j \<Rightarrow> u32 result_of"
  json_get_u64 :: "'j \<Rightarrow> u64 result_of"
  json_value_string :: "'j \<Rightarrow> string \<Rightarrow> string \<Rightarrow> string result_of"

text \<open>\<open>doc\<close> is the library's value for a document.\<close>

definition json_laws :: "'j json_library \<Rightarrow> (json \<Rightarrow> 'j) \<Rightarrow> bool" where
  "json_laws lib doc \<longleftrightarrow>
     (\<forall>kvs k v. map_of kvs k = Some v \<longrightarrow>
        json_at lib (doc (Obj kvs)) k = success (doc v) \<and>
        json_member lib (doc (Obj kvs)) k = Returns (doc v)) \<and>
     (\<forall>kvs k. json_contains lib (doc (Obj kvs)) k \<longleftrightarrow> k \<in> fst ` set kvs) \<and>
     (\<forall>xs. json_size lib (doc (Arr xs)) = length xs) \<and>
     (\<forall>xs i. i < length xs \<longrightarrow> json_index lib (doc (Arr xs)) i = Returns (doc (xs ! i))) \<and>
     (\<forall>s t. json_equals lib (doc (Str s)) t \<longleftrightarrow> s = t) \<and>
     (\<forall>s. json_is_string lib (doc (Str s)) \<and> json_get_string lib (doc (Str s)) = success s) \<and>
     (\<forall>w. json_get_u8 lib (doc (Num (unat w))) = success w) \<and>
     (\<forall>w. json_get_u16 lib (doc (Num (unat w))) = success w) \<and>
     (\<forall>w. json_get_u32 lib (doc (Num (unat w))) = success w) \<and>
     (\<forall>w. json_get_u64 lib (doc (Num (unat w))) = success w)"

lemma json_access:
  assumes "json_laws lib doc"
  shows "map_of kvs k = Some v \<Longrightarrow> json_at lib (doc (Obj kvs)) k = success (doc v)"
    "map_of kvs k = Some v \<Longrightarrow> json_member lib (doc (Obj kvs)) k = Returns (doc v)"
    "json_contains lib (doc (Obj kvs)) k \<longleftrightarrow> k \<in> fst ` set kvs"
    "json_size lib (doc (Arr xs)) = length xs"
    "i < length xs \<Longrightarrow> json_index lib (doc (Arr xs)) i = Returns (doc (xs ! i))"
    "json_equals lib (doc (Str s)) t \<longleftrightarrow> s = t"
    "json_is_string lib (doc (Str s))"
    "json_get_string lib (doc (Str s)) = success s"
    "json_get_u8 lib (doc (Num (unat b))) = success b"
    "json_get_u16 lib (doc (Num (unat h))) = success h"
    "json_get_u32 lib (doc (Num (unat w))) = success w"
    "json_get_u64 lib (doc (Num (unat l))) = success l"
  using assms by (auto simp: json_laws_def)

section \<open>An instance\<close>

text \<open>
  A library whose values are the documents themselves, for the witnesses of properties that assume
  the laws. It reads documents only, so its parser rejects every text.
\<close>

definition json_tree :: "json json_library" where
  [model_defs]: "json_tree =
     \<lparr>json_parse = (\<lambda>text. failure ''parse error''),
      json_at = (\<lambda>j k. case j of Obj kvs \<Rightarrow>
          (case map_of kvs k of None \<Rightarrow> failure ''key not found'' | Some v \<Rightarrow> success v)
        | _ \<Rightarrow> failure ''type must be object''),
      json_contains = (\<lambda>j k. case j of Obj kvs \<Rightarrow> map_of kvs k \<noteq> None | _ \<Rightarrow> False),
      json_member = (\<lambda>j k. case j of Obj kvs \<Rightarrow>
          (case map_of kvs k of None \<Rightarrow> Undefined_Behaviour | Some v \<Rightarrow> Returns v)
        | _ \<Rightarrow> Throws ''type must be object''),
      json_size = (\<lambda>j. case j of Null \<Rightarrow> 0 | Arr xs \<Rightarrow> length xs | Obj kvs \<Rightarrow> length kvs | _ \<Rightarrow> 1),
      json_index = (\<lambda>j i. case j of Arr xs \<Rightarrow>
          (if i < length xs then Returns (xs ! i) else Undefined_Behaviour)
        | _ \<Rightarrow> Throws ''type must be array''),
      json_equals = (\<lambda>j s. case j of Str t \<Rightarrow> t = s | _ \<Rightarrow> False),
      json_is_string = (\<lambda>j. case j of Str t \<Rightarrow> True | _ \<Rightarrow> False),
      json_get_string = (\<lambda>j. case j of Str t \<Rightarrow> success t | _ \<Rightarrow> failure ''type must be string''),
      json_get_u8 = (\<lambda>j. case j of Num n \<Rightarrow> success (of_nat n) | _ \<Rightarrow> failure ''type must be number''),
      json_get_u16 = (\<lambda>j. case j of Num n \<Rightarrow> success (of_nat n) | _ \<Rightarrow> failure ''type must be number''),
      json_get_u32 = (\<lambda>j. case j of Num n \<Rightarrow> success (of_nat n) | _ \<Rightarrow> failure ''type must be number''),
      json_get_u64 = (\<lambda>j. case j of Num n \<Rightarrow> success (of_nat n) | _ \<Rightarrow> failure ''type must be number''),
      json_value_string = (\<lambda>j k d. case j of Obj kvs \<Rightarrow>
          (case map_of kvs k of None \<Rightarrow> success d | Some (Str s) \<Rightarrow> success s
           | _ \<Rightarrow> failure ''type must be string'')
        | _ \<Rightarrow> failure ''cannot use value()'')\<rparr>"

lemma json_tree_laws: "json_laws json_tree (\<lambda>j. j)"
  by (auto simp: json_laws_def json_tree_def map_of_eq_None_iff)

end
