(* ===== verification/Json_Output.thy ===== *)
theory Json_Output
  imports Human_Output Json_Values
begin

text \<open>
  \<open>src/adapters/json_output.cpp\<close>: the document a run prints for programs. Every function of the file
  is a definition; \<open>renderJson\<close> takes the library's serialisation \<open>dump\<close> as a parameter.
\<close>

section \<open>The code\<close>

definition interfaceName :: "Interface \<Rightarrow> string" where
  [model_defs]: "interfaceName i = (if i = N3 then ''N3'' else ''N6'')"

definition protocolName :: "TransportProtocol \<Rightarrow> string" where
  [model_defs]: "protocolName p =
     (if p = TCP then ''TCP'' else if p = UDP then ''UDP'' else if p = ICMP then ''ICMP'' else ''ICMPV6'')"

abbreviation number :: "'a::len word \<Rightarrow> json" where "number w \<equiv> Num (unat w)"

text \<open>\<open>condition ? nlohmann::json(x) : nlohmann::json()\<close>\<close>

definition or_null :: "bool \<Rightarrow> json \<Rightarrow> json" where
  [model_defs]: "or_null b x = (if b then x else Null)"

definition nonempty :: "string \<Rightarrow> json" where
  [model_defs]: "nonempty s = (if s = '''' then Null else Str s)"

definition tunnelJson :: "TunnelMetadata option \<Rightarrow> json" where
  [model_defs]: "tunnelJson tunnel =
     (case tunnel of None \<Rightarrow> Null
      | Some t \<Rightarrow> Obj [(''teid'', number (tm_teid t)), (''qfi'', number (tm_qfi t))])"

definition packetJson :: "platform \<Rightarrow> Packet \<Rightarrow> json" where
  [model_defs]: "packetJson pl packet = Obj
     ([(''packetId'', Str (pkt_packetId packet)), (''sessionId'', Str (pkt_sessionId packet)),
       (''ingress'', Str (interfaceName (pkt_ingress packet))),
       (''sourceIp'', Str (IpAddress_toString pl (pkt_sourceIp packet))),
       (''destinationIp'', Str (IpAddress_toString pl (pkt_destinationIp packet))),
       (''protocol'', Str (protocolName (pkt_protocol packet))),
       (''sourcePort'', number (pkt_sourcePort packet)),
       (''destinationPort'', number (pkt_destinationPort packet)),
       (''payloadBytes'', number (pkt_payloadBytes packet)),
       (''arrivalTimeMicros'', number (pkt_arrivalTimeMicros packet))] @
      (case pkt_tunnel packet of None \<Rightarrow> [] | Some t \<Rightarrow> [(''tunnel'', tunnelJson (Some t))]))"

definition criterionJson :: "CriterionResult \<Rightarrow> json" where
  [model_defs]: "criterionJson item = Obj
     [(''name'', Str (cr_name item)), (''applicable'', Bool (cr_applicable item)),
      (''matched'', or_null (cr_applicable item) (Bool (cr_matched item))),
      (''actual'', nonempty (cr_actual item)), (''expected'', nonempty (cr_expected item))]"

definition candidateJson :: "MatchCandidate \<Rightarrow> json" where
  [model_defs]: "candidateJson candidate = Obj
     [(''pdrId'', number (mc_pdrId candidate)), (''matched'', Bool (mc_matched candidate)),
      (''criteria'', Arr (map criterionJson (mc_criteria candidate)))]"

definition qerJson :: "QerDecision \<Rightarrow> json" where
  [model_defs]: "qerJson q = Obj
     [(''qerId'', or_null (qd_applicable q) (number (qd_qerId q))),
      (''gate'', Str (if qd_applicable q then (if qd_gate q = OPEN then ''OPEN'' else ''CLOSED'')
         else ''NOT_APPLICABLE'')),
      (''tokensBefore'', or_null (qd_applicable q) (number (qd_tokensBefore q))),
      (''refillBytes'', or_null (qd_applicable q) (number (qd_refillBytes q))),
      (''packetChargeBytes'', or_null (qd_applicable q) (number (qd_packetChargeBytes q))),
      (''tokensAfter'', or_null (qd_applicable q) (number (qd_tokensAfter q))),
      (''outcome'', Str (if qd_applicable q then qd_outcome q else ''NOT_APPLICABLE''))]"

definition farJson :: "FarDecision \<Rightarrow> json" where
  [model_defs]: "farJson f = Obj
     [(''farId'', or_null (fd_applicable f) (number (fd_farId f))),
      (''action'', Str (if fd_applicable f then (if fd_action f = FORWARD then ''FORWARD'' else ''DROP'')
         else ''NOT_APPLICABLE'')),
      (''destination'', Str (if fd_applicable f
         then (if fd_action f = DROP then ''NONE'' else interfaceName (fd_destination f))
         else ''NOT_APPLICABLE'')),
      (''tunnelBefore'', tunnelJson (fd_before f)), (''tunnelAfter'', tunnelJson (fd_after f))]"

definition urrJson :: "UrrDecision \<Rightarrow> json" where
  [model_defs]: "urrJson u = Obj
     [(''urrId'', or_null (ud_applicable u) (number (ud_urrId u))), (''counted'', Bool (ud_counted u)),
      (''packetsBefore'', or_null (ud_applicable u) (number (ud_packetsBefore u))),
      (''packetsAfter'', or_null (ud_applicable u) (number (ud_packetsAfter u))),
      (''bytesBefore'', or_null (ud_applicable u) (number (ud_bytesBefore u))),
      (''bytesAfter'', or_null (ud_applicable u) (number (ud_bytesAfter u))),
      (''thresholdReached'', or_null (ud_applicable u) (Bool (ud_thresholdReached u))),
      (''usageReportId'', nonempty (ud_reportId u))]"

definition decisionJson :: "platform \<Rightarrow> PacketDecision \<Rightarrow> json" where
  [model_defs]: "decisionJson pl d = Obj
     [(''packetId'', Str (pd_packetId d)), (''sessionId'', Str (pd_sessionId d)),
      (''arrivalTimeMicros'', number (pd_arrivalTimeMicros d)),
      (''ingress'', Str (interfaceName (pd_ingress d))),
      (''rulesetVersion'', number (pd_rulesetVersion d)), (''updateId'', nonempty (pd_updateId d)),
      (''candidates'', Arr (map candidateJson (pd_candidates d))),
      (''selectedPdrId'', or_null (pd_selectedPdrId d \<noteq> 0) (number (pd_selectedPdrId d))),
      (''qer'', qerJson (pd_qer d)), (''far'', farJson (pd_far d)), (''urr'', urrJson (pd_urr d)),
      (''terminalResult'', Str (terminalResultName (pd_terminalResult d))),
      (''sink'', Str (if pd_sinkPresent d then interfaceName (pd_sink d) else ''NONE'')),
      (''transformedPacket'', or_null (pd_transformedPresent d) (packetJson pl (pd_transformedPacket d))),
      (''observabilityDegraded'', Bool (pd_observabilityDegraded d))]"

definition eventJson :: "RunResult \<Rightarrow> nat \<Rightarrow> PacketDecision \<Rightarrow> json" where
  [model_defs]: "eventJson result i decision = Obj
     [(''schemaVersion'', Str ''1.0''), (''runId'', Str (rr_runId result)),
      (''scenarioId'', Str (rr_scenarioId result)), (''sequence'', Num (i + 1)),
      (''simulatedTimeMicros'', number (pd_arrivalTimeMicros decision)),
      (''component'', Str ''packet-pipeline''), (''severity'', Str ''INFO''),
      (''kind'', Str ''terminal-result''), (''sessionId'', Str (pd_sessionId decision)),
      (''packetId'', Str (pd_packetId decision)), (''updateId'', Null),
      (''rulesetVersion'', number (pd_rulesetVersion decision)),
      (''data'', Obj [(''terminalResult'', Str (terminalResultName (pd_terminalResult decision)))])]"

definition reportJson :: "PacketDecision \<Rightarrow> json" where
  [model_defs]: "reportJson decision = Obj
     [(''reportId'', Str (ud_reportId (pd_urr decision))), (''sessionId'', Str (pd_sessionId decision)),
      (''urrId'', number (ud_urrId (pd_urr decision))), (''generation'', Num 1),
      (''rulesetVersion'', number (pd_rulesetVersion decision)),
      (''packets'', number (ud_packetsAfter (pd_urr decision))),
      (''payloadBytes'', number (ud_bytesAfter (pd_urr decision))),
      (''thresholdBytes'', number (ud_bytesAfter (pd_urr decision)))]"

text \<open>The loop over the decisions, which fills three arrays.\<close>

fun decisions_loop ::
  "platform \<Rightarrow> RunResult \<Rightarrow> nat \<Rightarrow> PacketDecision list \<Rightarrow> json list \<times> json list \<times> json list \<Rightarrow>
   json list \<times> json list \<times> json list"
where
  "decisions_loop pl result i [] acc = acc"
| "decisions_loop pl result i (d # ds) (decisions, events, reports) =
     decisions_loop pl result (i + 1) ds
       (decisions @ [decisionJson pl d], events @ [eventJson result i d],
        if ud_reportId (pd_urr d) \<noteq> '''' then reports @ [reportJson d] else reports)"

definition version_or_null :: "u64 \<Rightarrow> json" where
  [model_defs]: "version_or_null v = (if v = 0 then Null else number v)"

definition resultJson :: "platform \<Rightarrow> RunResult \<Rightarrow> json" where
  [model_defs]: "resultJson pl result =
     (let (decisions, events, reports) = decisions_loop pl result 0 (rr_decisions result) ([], [], [])
      in Obj
       [(''schemaVersion'', Str ''1.0''), (''runId'', Str (rr_runId result)),
        (''scenarioId'', Str (rr_scenarioId result)), (''disclaimer'', Str disclaimer),
        (''decisions'', Arr decisions), (''events'', Arr events), (''usageReports'', Arr reports),
        (''n3Sink'', Arr (map (packetJson pl) (rr_n3Sink result))),
        (''n6Sink'', Arr (map (packetJson pl) (rr_n6Sink result))),
        (''state'', Obj
          [(''intendedVersion'', version_or_null (rr_intendedVersion result)),
           (''appliedVersion'', version_or_null (rr_appliedVersion result)),
           (''activeVersion'', version_or_null (rr_activeVersion result)),
           (''convergence'', Str (if rr_convergence result = CONVERGED then ''CONVERGED''
              else if rr_convergence result = EMPTY then ''EMPTY'' else ''DIVERGENT''))]),
        (''observabilityDegraded'', Bool (rr_observabilityDegraded result)),
        (''droppedEventCount'', number (rr_droppedEvents result))])"

definition renderJson :: "platform \<Rightarrow> (json \<Rightarrow> string) \<Rightarrow> RunResult \<Rightarrow> string" where
  [model_defs]: "renderJson pl dump result = dump (resultJson pl result)"

section \<open>The document\<close>

lemma decisions_loop_arrays:
  "decisions_loop pl result i ds (a, b, c) =
     (a @ map (decisionJson pl) ds,
      b @ map (\<lambda>(j, d). eventJson result j d) (zip [i..<i + length ds] ds),
      c @ map reportJson (filter (\<lambda>d. ud_reportId (pd_urr d) \<noteq> '''') ds))"
proof (induction ds arbitrary: i a b c)
  case (Cons d ds)
  have "[i..<i + length (d # ds)] = i # [Suc i..<Suc i + length ds]"
    by (simp add: upt_conv_Cons del: upt_Suc)
  then show ?case by (simp add: Cons.IH del: upt_Suc)
qed simp

lemma wf_parts [simp]:
  "json_wf (tunnelJson t)" "json_wf (packetJson pl p)" "json_wf (criterionJson c)"
  "json_wf (candidateJson m)" "json_wf (qerJson q)" "json_wf (farJson f)" "json_wf (urrJson u)"
  "json_wf (reportJson d)" "json_wf (eventJson r i d)" "json_wf (version_or_null v)"
  "json_wf (or_null b x) \<longleftrightarrow> (b \<longrightarrow> json_wf x)" "json_wf (nonempty s)"
proof -
  show *: "json_wf (tunnelJson t)" for t by (simp add: tunnelJson_def split: option.split)
  show on: "json_wf (or_null b x) \<longleftrightarrow> (b \<longrightarrow> json_wf x)" for b x by (simp add: or_null_def)
  show ne: "json_wf (nonempty s)" for s by (simp add: nonempty_def)
  show "json_wf (packetJson pl p)" using * by (simp add: packetJson_def split: option.split)
  show c: "json_wf (criterionJson c)" for c by (simp add: criterionJson_def on ne)
  show "json_wf (candidateJson m)" by (simp add: candidateJson_def list_all_iff c)
  show "json_wf (qerJson q)" by (simp add: qerJson_def on)
  show "json_wf (farJson f)" by (simp add: farJson_def on *)
  show "json_wf (urrJson u)" by (simp add: urrJson_def on ne)
  show "json_wf (reportJson d)" by (simp add: reportJson_def)
  show "json_wf (eventJson r i d)" by (simp add: eventJson_def)
  show "json_wf (version_or_null v)" by (simp add: version_or_null_def)
qed

lemma wf_decision [simp]: "json_wf (decisionJson pl d)"
  by (simp add: decisionJson_def list_all_iff)

text \<open>
  C35. The document of a run is well formed, every object naming a member once, and it is
  complete: one entry per decision in \<open>decisions\<close> and in \<open>events\<close>, in order and with the result's
  name, the events numbered from 1, and the sinks packet by packet.
\<close>

lemma resultJson_complete:
  "json_wf (resultJson pl result) \<and>
   map (json_field ''terminalResult'') (json_elements (json_field ''decisions'' (resultJson pl result))) =
     map (\<lambda>d. Str (terminalResultName (pd_terminalResult d))) (rr_decisions result) \<and>
   map (\<lambda>e. json_field ''terminalResult'' (json_field ''data'' e))
       (json_elements (json_field ''events'' (resultJson pl result))) =
     map (\<lambda>d. Str (terminalResultName (pd_terminalResult d))) (rr_decisions result) \<and>
   map (json_field ''sequence'') (json_elements (json_field ''events'' (resultJson pl result))) =
     map Num [1..<length (rr_decisions result) + 1] \<and>
   json_field ''n3Sink'' (resultJson pl result) = Arr (map (packetJson pl) (rr_n3Sink result)) \<and>
   json_field ''n6Sink'' (resultJson pl result) = Arr (map (packetJson pl) (rr_n6Sink result))"
proof -
  let ?ds = "rr_decisions result"
  let ?events = "map (\<lambda>(j, d). eventJson result j d) (zip [0..<length ?ds] ?ds)"
  have doc: "json_field ''decisions'' (resultJson pl result) = Arr (map (decisionJson pl) ?ds)"
    "json_field ''events'' (resultJson pl result) = Arr ?events"
    "json_field ''n3Sink'' (resultJson pl result) = Arr (map (packetJson pl) (rr_n3Sink result))"
    "json_field ''n6Sink'' (resultJson pl result) = Arr (map (packetJson pl) (rr_n6Sink result))"
    by (simp_all add: resultJson_def decisions_loop_arrays)
  have "json_wf (resultJson pl result)"
    by (auto simp: resultJson_def decisions_loop_arrays list_all_iff)
  moreover have "map (json_field ''terminalResult'') (map (decisionJson pl) ?ds) =
      map (\<lambda>d. Str (terminalResultName (pd_terminalResult d))) ?ds"
    by (simp add: decisionJson_def)
  moreover have "map (\<lambda>e. json_field ''terminalResult'' (json_field ''data'' e)) ?events =
      map (\<lambda>d. Str (terminalResultName (pd_terminalResult d))) ?ds"
    by (rule nth_equalityI) (simp_all add: eventJson_def)
  moreover have "map (json_field ''sequence'') ?events = map Num [1..<length ?ds + 1]"
    by (rule nth_equalityI) (simp_all add: eventJson_def del: upt_Suc)
  ultimately show ?thesis by (simp add: doc del: upt_Suc)
qed

lemma document_reports:
  "json_elements (json_field ''usageReports'' (resultJson pl result)) =
     map reportJson (filter (\<lambda>d. ud_reportId (pd_urr d) \<noteq> '''') (rr_decisions result))"
  by (simp add: resultJson_def decisions_loop_arrays)

text \<open>
  C36. The document lists usage reports that were never generated: it takes them from the decisions,
  and a packet that the full report store rejects keeps the report identifier in its decision
  although nothing was counted and the pipeline retained no report.
\<close>

lemma json_reports_uncommitted:
  assumes "pipeline_reach pl ind p" "process pl ind packet runId scenarioId p = Some (d, q)"
    and "pd_terminalResult d = CAPACITY_ERROR" "ud_reportId (pd_urr d) \<noteq> ''''"
  shows "pp_reports q = pp_reports p \<and> rt_urrs (pp_runtime q) = rt_urrs (pp_runtime p) \<and>
    json_elements (json_field ''usageReports''
      (resultJson pl (result\<lparr>rr_decisions := [d], rr_usageReports := pp_reports q\<rparr>))) = [reportJson d]"
proof -
  have "pp_reports q = pp_reports p \<and> pp_runtime q = pp_runtime p"
  proof (cases rule: process_cases [OF reach_inv [OF assms(1)] assms(2), consumes 0, case_names capacity step])
    case (step d0 q0)
    with outcome_atomic [OF step(2)] assms(3) show ?thesis by (simp add: frame_simps)
  qed simp
  then show ?thesis using assms(4) by (simp add: document_reports)
qed

text \<open>A pipeline with no room for reports and a packet that reaches the threshold.\<close>

definition unreported_start :: PacketPipeline where
  [model_defs]: "unreported_start =
     snd (install ul_rules (PacketPipeline_new (CapacityLimits_default\<lparr>lim_reports := 0\<rparr>)))"

definition unreported_run :: "PacketDecision \<times> PacketPipeline" where
  [model_defs]: "unreported_run = the (process dotted_platform zero_memory
     (ul_packet\<lparr>pkt_payloadBytes := 10000\<rparr>) ''run'' ''scenario'' unreported_start)"

lemma json_reports_uncommitted_witness:
  "pp_reports (snd unreported_run) = [] \<and>
   length (json_elements (json_field ''usageReports'' (resultJson dotted_platform
     (RunResult_new\<lparr>rr_decisions := [fst unreported_run],
       rr_usageReports := pp_reports (snd unreported_run)\<rparr>)))) = 1"
proof -
  have start: "pipeline_reach dotted_platform zero_memory unreported_start"
    unfolding unreported_start_def by (intro pipeline_reach.install pipeline_reach.new)
  have run: "process dotted_platform zero_memory (ul_packet\<lparr>pkt_payloadBytes := 10000\<rparr>) ''run''
      ''scenario'' unreported_start = Some (fst unreported_run, snd unreported_run)"
    by (simp add: model_defs)
  have result: "pd_terminalResult (fst unreported_run) = CAPACITY_ERROR"
    "ud_reportId (pd_urr (fst unreported_run)) \<noteq> ''''" "pp_reports unreported_start = []"
    by (simp_all add: model_defs)
  note uncommitted = json_reports_uncommitted [OF start run result(1,2), of RunResult_new]
  show ?thesis
    using uncommitted [THEN conjunct1] uncommitted [THEN conjunct2, THEN conjunct2]
    by (simp only: result(3)) simp
qed

end
