(* ===== verification/Json_Input.thy ===== *)
theory Json_Input
  imports Json_Output
begin

text \<open>
  \<open>src/adapters/json_input.cpp\<close>: reading a rule file and a packet file, and the run over them.

  \<open>files path\<close> is the content of a file that can be opened. Inside a \<open>try\<close> block a step of type
  \<open>'a outcome\<close> may throw an exception of the library, which the handler turns into a failed result
  (\<open>json_catch\<close>); an early \<open>return\<close> of a failure is a step that returns \<open>failure e\<close>
  (\<open>and_then_ok\<close>). The accessors of \<open>json_library\<close> are functions, so the size of an array is read
  once. The arguments of a constructor call are evaluated from left to right.
\<close>

section \<open>Access to members\<close>

text \<open>\<open>item.at(k).get<T>()\<close>, \<open>item[k].get<T>()\<close>, \<open>item[j][k].get<T>()\<close> and \<open>item.at(k) == s\<close>\<close>

definition at_get :: "'j json_library \<Rightarrow> ('j \<Rightarrow> 'a result_of) \<Rightarrow> 'j \<Rightarrow> string \<Rightarrow> 'a outcome" where
  [model_defs]: "at_get lib get item k = and_then (value_of (json_at lib item k)) (\<lambda>v. value_of (get v))"

definition member_get :: "'j json_library \<Rightarrow> ('j \<Rightarrow> 'a result_of) \<Rightarrow> 'j \<Rightarrow> string \<Rightarrow> 'a outcome" where
  [model_defs]: "member_get lib get item k = and_then (json_member lib item k) (\<lambda>v. value_of (get v))"

definition inner_get ::
  "'j json_library \<Rightarrow> ('j \<Rightarrow> 'a result_of) \<Rightarrow> 'j \<Rightarrow> string \<Rightarrow> string \<Rightarrow> 'a outcome"
where
  [model_defs]: "inner_get lib get item j k = and_then (json_member lib item j) (\<lambda>v. member_get lib get v k)"

definition at_equals :: "'j json_library \<Rightarrow> 'j \<Rightarrow> string \<Rightarrow> string \<Rightarrow> bool outcome" where
  [model_defs]: "at_equals lib item k s =
     and_then (value_of (json_at lib item k)) (\<lambda>v. Returns (json_equals lib v s))"

text \<open>\<open>if (item.contains(k)) x = Optional<T>(step);\<close> for a member \<open>x\<close> that is empty before\<close>

definition if_contains :: "'j json_library \<Rightarrow> 'j \<Rightarrow> string \<Rightarrow> 'a outcome \<Rightarrow> 'a option outcome" where
  [model_defs]: "if_contains lib item k step =
     (if json_contains lib item k then and_then step (\<lambda>x. Returns (Some x)) else Returns None)"

definition and_then_ok ::
  "'a result_of outcome \<Rightarrow> ('a \<Rightarrow> 'b result_of outcome) \<Rightarrow> 'b result_of outcome"
where
  [model_defs]: "and_then_ok m f = and_then m (\<lambda>r. case r of Inl e \<Rightarrow> Returns (failure e) | Inr x \<Rightarrow> f x)"

definition json_catch :: "'a result_of outcome \<Rightarrow> 'a result_of outcome" where
  [model_defs]: "json_catch m = (case m of Throws e \<Rightarrow> Returns (failure e) | _ \<Rightarrow> m)"

text \<open>The loops over the elements of an array; \<open>item i\<close> is the expression that reads element \<open>i\<close>.\<close>

fun parse_items ::
  "(nat \<Rightarrow> 'j outcome) \<Rightarrow> ('j \<Rightarrow> 'a result_of outcome) \<Rightarrow> nat \<Rightarrow> nat \<Rightarrow> 'a list \<Rightarrow> 'a list result_of outcome"
where
  "parse_items item parse i 0 acc = Returns (success acc)"
| "parse_items item parse i (Suc n) acc =
     and_then (item i) (\<lambda>j. and_then_ok (parse j) (\<lambda>x. parse_items item parse (i + 1) n (acc @ [x])))"

lemma parse_items_numeral [model_defs]:
  "parse_items item parse i (numeral n) acc = parse_items item parse i (Suc (pred_numeral n)) acc"
  by (simp add: numeral_eq_Suc)

section \<open>The code\<close>

definition readJson :: "'j json_library \<Rightarrow> (string \<Rightarrow> string option) \<Rightarrow> string \<Rightarrow> 'j result_of" where
  [model_defs]: "readJson lib files path =
     (case files path of
        None \<Rightarrow> failure (''cannot read '' @ path)
      | Some text \<Rightarrow> json_parse lib text)"

definition protocol :: "'j json_library \<Rightarrow> 'j \<Rightarrow> TransportProtocol option outcome" where
  [model_defs]: "protocol lib value =
     (if \<not> json_is_string lib value then Returns None
      else and_then (value_of (json_get_string lib value)) (\<lambda>text. Returns
        (if text = ''TCP'' then Some TCP else if text = ''UDP'' then Some UDP
         else if text = ''ICMP'' then Some ICMP else if text = ''ICMPV6'' then Some ICMPV6 else None)))"

definition parse_ports :: "'j json_library \<Rightarrow> 'j \<Rightarrow> string \<Rightarrow> PortRange outcome" where
  [model_defs]: "parse_ports lib item k =
     and_then (inner_get lib (json_get_u16 lib) item k ''first'') (\<lambda>first.
     and_then (inner_get lib (json_get_u16 lib) item k ''last'') (\<lambda>last.
     Returns \<lparr>port_first = first, port_last = last\<rparr>))"

definition parse_tunnel :: "'j json_library \<Rightarrow> 'j \<Rightarrow> TunnelMetadata outcome" where
  [model_defs]: "parse_tunnel lib item =
     and_then (inner_get lib (json_get_u32 lib) item ''tunnel'' ''teid'') (\<lambda>teid.
     and_then (inner_get lib (json_get_u8 lib) item ''tunnel'' ''qfi'') (\<lambda>qfi.
     Returns \<lparr>tm_teid = teid, tm_qfi = qfi\<rparr>))"

definition parse_pdr :: "'j json_library \<Rightarrow> platform \<Rightarrow> 'j \<Rightarrow> Pdr result_of outcome" where
  [model_defs]: "parse_pdr lib pl item =
     and_then (at_get lib (json_get_u32 lib) item ''id'') (\<lambda>i.
     and_then (at_get lib (json_get_u32 lib) item ''precedence'') (\<lambda>precedence.
     and_then (at_equals lib item ''sourceInterface'' ''N3'') (\<lambda>n3.
     and_then (if_contains lib item ''teid'' (at_get lib (json_get_u32 lib) item ''teid'')) (\<lambda>teid.
     and_then (at_get lib (json_get_string lib) item ''uePrefix'') (\<lambda>text.
     (case IpPrefix_parse pl text of
        Inl e \<Rightarrow> Returns (failure e)
      | Inr prefix \<Rightarrow>
          and_then (if json_contains lib item ''protocol''
            then and_then (value_of (json_at lib item ''protocol'')) (protocol lib)
            else Returns None) (\<lambda>proto.
          and_then (if_contains lib item ''localPorts'' (parse_ports lib item ''localPorts'')) (\<lambda>local.
          and_then (if_contains lib item ''remotePorts'' (parse_ports lib item ''remotePorts'')) (\<lambda>remote.
          and_then (if_contains lib item ''qfi'' (member_get lib (json_get_u8 lib) item ''qfi'')) (\<lambda>qfi.
          and_then (at_get lib (json_get_u32 lib) item ''farId'') (\<lambda>farId.
          and_then (if_contains lib item ''qerId'' (member_get lib (json_get_u32 lib) item ''qerId'')) (\<lambda>qerId.
          and_then (if_contains lib item ''urrId'' (member_get lib (json_get_u32 lib) item ''urrId'')) (\<lambda>urrId.
          Returns (success (Pdr_new\<lparr>pdr_id := RuleId i, pdr_precedence := precedence,
            pdr_sourceInterface := (if n3 then N3 else N6), pdr_teid := teid, pdr_uePrefix := prefix,
            pdr_protocol := proto, pdr_localPorts := local, pdr_remotePorts := remote, pdr_qfi := qfi,
            pdr_farId := RuleId farId, pdr_qerId := map_option RuleId qerId,
            pdr_urrId := map_option RuleId urrId\<rparr>)))))))))))))))"

definition parse_far :: "'j json_library \<Rightarrow> 'j \<Rightarrow> Far result_of outcome" where
  [model_defs]: "parse_far lib item =
     and_then (at_get lib (json_get_u32 lib) item ''id'') (\<lambda>i.
     and_then (at_equals lib item ''action'' ''FORWARD'') (\<lambda>forward.
     and_then (if_contains lib item ''destinationInterface''
       (and_then (json_member lib item ''destinationInterface'') (\<lambda>v. Returns (json_equals lib v ''N3'')))) (\<lambda>n3.
     and_then (if_contains lib item ''tunnelOperation''
       (member_get lib (json_get_string lib) item ''tunnelOperation'')) (\<lambda>op.
     and_then (if_contains lib item ''tunnel'' (parse_tunnel lib item)) (\<lambda>tunnel.
     Returns (success (Far_new\<lparr>far_id := RuleId i, far_action := (if forward then FORWARD else DROP),
       far_destination := map_option (\<lambda>b. if b then N3 else N6) n3,
       far_operation := (if op = Some ''ADD'' then ADD else if op = Some ''REMOVE'' then REMOVE else TUNNEL_NONE),
       far_tunnel := tunnel\<rparr>)))))))"

definition parse_qer :: "'j json_library \<Rightarrow> 'j \<Rightarrow> Qer result_of outcome" where
  [model_defs]: "parse_qer lib item =
     and_then (at_get lib (json_get_u32 lib) item ''id'') (\<lambda>i.
     and_then (at_equals lib item ''gate'' ''OPEN'') (\<lambda>opened.
     and_then (at_get lib (json_get_u64 lib) item ''rateBitsPerSecond'') (\<lambda>rate.
     and_then (at_get lib (json_get_u64 lib) item ''burstBytes'') (\<lambda>burst.
     and_then (at_get lib (json_get_u32 lib) item ''generation'') (\<lambda>generation.
     Returns (success (Qer_new\<lparr>qer_id := RuleId i, qer_gate := (if opened then OPEN else CLOSED),
       qer_rateBitsPerSecond := rate, qer_burstBytes := burst, qer_generation := generation\<rparr>)))))))"

definition parse_urr :: "'j json_library \<Rightarrow> 'j \<Rightarrow> Urr result_of outcome" where
  [model_defs]: "parse_urr lib item =
     and_then (at_get lib (json_get_u32 lib) item ''id'') (\<lambda>i.
     and_then (at_get lib (json_get_u64 lib) item ''volumeThresholdBytes'') (\<lambda>threshold.
     and_then (at_get lib (json_get_u32 lib) item ''generation'') (\<lambda>generation.
     Returns (success (Urr_new\<lparr>urr_id := RuleId i, urr_volumeThresholdBytes := threshold,
       urr_generation := generation\<rparr>)))))"

text \<open>\<open>const auto& xs = root.at(k); for (i = 0; i < xs.size(); ++i) { ... xs[i] ... }\<close>\<close>

definition parse_array ::
  "'j json_library \<Rightarrow> 'j \<Rightarrow> string \<Rightarrow> ('j \<Rightarrow> 'a result_of outcome) \<Rightarrow> 'a list result_of outcome"
where
  [model_defs]: "parse_array lib root k parse =
     and_then (value_of (json_at lib root k)) (\<lambda>xs.
     parse_items (json_index lib xs) parse 0 (json_size lib xs) [])"

definition parseRules :: "'j json_library \<Rightarrow> platform \<Rightarrow> 'j \<Rightarrow> RuleSet result_of outcome" where
  [model_defs]: "parseRules lib pl root = json_catch (
     and_then (at_get lib (json_get_string lib) root ''sessionId'') (\<lambda>sessionId.
     and_then (at_get lib (json_get_u64 lib) root ''rulesetVersion'') (\<lambda>version.
     and_then_ok (parse_array lib root ''pdrs'' (parse_pdr lib pl)) (\<lambda>pdrs.
     and_then_ok (parse_array lib root ''fars'' (parse_far lib)) (\<lambda>fars.
     and_then_ok (parse_array lib root ''qers'' (parse_qer lib)) (\<lambda>qers.
     and_then_ok (parse_array lib root ''urrs'' (parse_urr lib)) (\<lambda>urrs.
     Returns (success (RuleSet_new\<lparr>rs_sessionId := sessionId, rs_version := version, rs_pdrs := pdrs,
       rs_fars := fars, rs_qers := qers, rs_urrs := urrs\<rparr>)))))))))"

definition parse_packet :: "'j json_library \<Rightarrow> platform \<Rightarrow> indeterminate \<Rightarrow> 'j \<Rightarrow> Packet result_of outcome" where
  [model_defs]: "parse_packet lib pl ind item =
     and_then (at_get lib (json_get_string lib) item ''packetId'') (\<lambda>packetId.
     and_then (at_get lib (json_get_string lib) item ''sessionId'') (\<lambda>sessionId.
     and_then (at_equals lib item ''ingress'' ''N3'') (\<lambda>n3.
     and_then (if_contains lib item ''tunnel'' (parse_tunnel lib item)) (\<lambda>tunnel.
     and_then (at_get lib (json_get_string lib) item ''sourceIp'') (\<lambda>sourceText.
     let source = IpAddress_parse pl sourceText in
     and_then (at_get lib (json_get_string lib) item ''destinationIp'') (\<lambda>destinationText.
     let destination = IpAddress_parse pl destinationText in
     (case (source, destination) of
        (Inr sourceIp, Inr destinationIp) \<Rightarrow>
          and_then (value_of (json_at lib item ''protocol'')) (\<lambda>v.
          and_then (protocol lib v) (\<lambda>p.
          (case p of
             None \<Rightarrow> Returns (failure ''invalid protocol'')
           | Some proto \<Rightarrow>
               and_then (at_get lib (json_get_u16 lib) item ''sourcePort'') (\<lambda>sourcePort.
               and_then (at_get lib (json_get_u16 lib) item ''destinationPort'') (\<lambda>destinationPort.
               and_then (at_get lib (json_get_u32 lib) item ''payloadBytes'') (\<lambda>payload.
               and_then (at_get lib (json_get_u64 lib) item ''arrivalTimeMicros'') (\<lambda>arrival.
               Returns (success ((Packet_new ind)\<lparr>pkt_packetId := packetId, pkt_sessionId := sessionId,
                 pkt_ingress := (if n3 then N3 else N6), pkt_tunnel := tunnel, pkt_sourceIp := sourceIp,
                 pkt_destinationIp := destinationIp, pkt_protocol := proto, pkt_sourcePort := sourcePort,
                 pkt_destinationPort := destinationPort, pkt_payloadBytes := payload,
                 pkt_arrivalTimeMicros := arrival\<rparr>)))))))))
      | _ \<Rightarrow> Returns (failure ''invalid packet address''))))))))"

definition parsePackets :: "'j json_library \<Rightarrow> platform \<Rightarrow> indeterminate \<Rightarrow> 'j \<Rightarrow> Packet list result_of outcome" where
  [model_defs]: "parsePackets lib pl ind root = json_catch (
     and_then (value_of (json_at lib root ''packets'')) (\<lambda>packets.
     parse_items (\<lambda>i. and_then (json_member lib root ''packets'') (\<lambda>xs. json_index lib xs i))
       (parse_packet lib pl ind) 0 (json_size lib packets) []))"

text \<open>The loop over the packets, on the result and the pipeline.\<close>

fun process_all :: "platform \<Rightarrow> indeterminate \<Rightarrow> Packet list \<Rightarrow> run_state \<Rightarrow> run_state outcome" where
  "process_all pl ind [] st = Returns st"
| "process_all pl ind (packet # packets) st =
     and_then (process_into pl ind (rr_scenarioId (fst st)) packet st) (process_all pl ind packets)"

definition run_packets ::
  "'j json_library \<Rightarrow> platform \<Rightarrow> indeterminate \<Rightarrow> 'j \<Rightarrow> RuleSet \<Rightarrow> Packet list \<Rightarrow> RunResult result_of outcome"
where
  [model_defs]: "run_packets lib pl ind packetsJson rules packets =
     (case install rules (PacketPipeline_new CapacityLimits_default) of
        (Inl e, pipeline) \<Rightarrow> Returns (failure e)
      | (Inr _, pipeline) \<Rightarrow>
          and_then (value_of (json_value_string lib packetsJson ''runId'' ''file-run'')) (\<lambda>runId.
          and_then (value_of (json_value_string lib packetsJson ''scenarioId'' ''local-files'')) (\<lambda>scenarioId.
          and_then (process_all pl ind packets
            (RunResult_new\<lparr>rr_runId := runId, rr_scenarioId := scenarioId\<rparr>, pipeline)) (\<lambda>(result, pipeline).
          Returns (success (result\<lparr>rr_n3Sink := pp_n3Sink pipeline, rr_n6Sink := pp_n6Sink pipeline,
            rr_intendedVersion := rs_version rules, rr_appliedVersion := rs_version rules,
            rr_activeVersion := rs_version rules, rr_convergence := CONVERGED\<rparr>))))))"

definition runFiles ::
  "'j json_library \<Rightarrow> (string \<Rightarrow> string option) \<Rightarrow> platform \<Rightarrow> indeterminate \<Rightarrow> string \<Rightarrow> string \<Rightarrow>
   RunResult result_of outcome"
where
  [model_defs]: "runFiles lib files pl ind rulesPath packetsPath =
     (let rulesJson = readJson lib files rulesPath; packetsJson = readJson lib files packetsPath
      in case rulesJson of Inl e \<Rightarrow> Returns (failure e) | Inr rulesValue \<Rightarrow>
        (case packetsJson of Inl e \<Rightarrow> Returns (failure e) | Inr packetsValue \<Rightarrow>
           and_then (parseRules lib pl rulesValue) (\<lambda>rules.
           and_then (parsePackets lib pl ind packetsValue) (\<lambda>packets.
           (case rules of Inl e \<Rightarrow> Returns (failure e) | Inr ruleSet \<Rightarrow>
             (case packets of Inl e \<Rightarrow> Returns (failure e) | Inr packetList \<Rightarrow>
                run_packets lib pl ind packetsValue ruleSet packetList))))))"

section \<open>Reading back what was written\<close>

text \<open>A packet whose addresses the platform prints and reads back.\<close>

definition printable :: "platform \<Rightarrow> Packet \<Rightarrow> bool" where
  "printable pl packet \<longleftrightarrow>
     IpAddress_parse pl (IpAddress_toString pl (pkt_sourceIp packet)) = success (pkt_sourceIp packet) \<and>
     IpAddress_parse pl (IpAddress_toString pl (pkt_destinationIp packet)) = success (pkt_destinationIp packet)"

lemma parse_items_map:
  assumes "\<And>k. k < length xs \<Longrightarrow> item (i + k) = Returns (f (xs ! k)) \<and> parse (f (xs ! k)) = Returns (success (g (xs ! k)))"
  shows "parse_items item parse i (length xs) acc = Returns (success (acc @ map g xs))"
  using assms
proof (induction xs arbitrary: i acc)
  case (Cons x xs)
  have "item i = Returns (f x) \<and> parse (f x) = Returns (success (g x))"
    using Cons.prems [of 0] by simp
  moreover have "item (Suc i + k) = Returns (f (xs ! k)) \<and> parse (f (xs ! k)) = Returns (success (g (xs ! k)))"
    if "k < length xs" for k
    using Cons.prems [of "Suc k"] that by simp
  ultimately show ?case
    using Cons.IH [of "Suc i" "acc @ [g x]"] by (simp add: and_then_ok_def)
qed simp

lemma protocol_written:
  assumes "json_laws lib doc"
  shows "protocol lib (doc (Str (protocolName p))) = Returns (Some p)"
  using json_access(7,8) [OF assms] by (cases p) (simp_all add: protocol_def protocolName_def)

text \<open>Any other name is no protocol at all, which in a rule means that every protocol matches.\<close>

lemma protocol_unknown:
  assumes "json_laws lib doc" "s \<notin> {''TCP'', ''UDP'', ''ICMP'', ''ICMPV6''}"
  shows "protocol lib (doc (Str s)) = Returns None"
  using json_access(7,8) [OF assms(1)] assms(2) by (simp add: protocol_def)

lemma parse_tunnel_written:
  assumes "json_laws lib doc" "map_of kvs ''tunnel'' = Some (tunnelJson (Some t))"
  shows "parse_tunnel lib (doc (Obj kvs)) = Returns t"
  using json_access(2) [OF assms(1)] json_access(9,11) [OF assms(1)] assms(2)
  by (simp add: parse_tunnel_def inner_get_def member_get_def tunnelJson_def)

lemma parse_packet_written:
  assumes laws: "json_laws lib doc" and "printable pl packet"
  shows "parse_packet lib pl ind (doc (packetJson pl packet)) = Returns (success packet)"
proof -
  obtain kvs where kvs: "packetJson pl packet = Obj kvs"
    and tunnel: "map_of kvs ''tunnel'' = map_option (\<lambda>t. tunnelJson (Some t)) (pkt_tunnel packet)"
    and members: "map_of kvs ''packetId'' = Some (Str (pkt_packetId packet))"
      "map_of kvs ''sessionId'' = Some (Str (pkt_sessionId packet))"
      "map_of kvs ''ingress'' = Some (Str (interfaceName (pkt_ingress packet)))"
      "map_of kvs ''sourceIp'' = Some (Str (IpAddress_toString pl (pkt_sourceIp packet)))"
      "map_of kvs ''destinationIp'' = Some (Str (IpAddress_toString pl (pkt_destinationIp packet)))"
      "map_of kvs ''protocol'' = Some (Str (protocolName (pkt_protocol packet)))"
      "map_of kvs ''sourcePort'' = Some (number (pkt_sourcePort packet))"
      "map_of kvs ''destinationPort'' = Some (number (pkt_destinationPort packet))"
      "map_of kvs ''payloadBytes'' = Some (number (pkt_payloadBytes packet))"
      "map_of kvs ''arrivalTimeMicros'' = Some (number (pkt_arrivalTimeMicros packet))"
    by (cases "pkt_tunnel packet") (simp_all add: packetJson_def)
  have present: "''tunnel'' \<in> fst ` set kvs \<longleftrightarrow> pkt_tunnel packet \<noteq> None"
    using tunnel by (metis map_of_eq_None_iff map_option_is_None)
  note access = json_access [OF laws]
  note at = access(1) [OF members(1)] access(1) [OF members(2)] access(1) [OF members(3)]
    access(1) [OF members(4)] access(1) [OF members(5)] access(1) [OF members(6)]
    access(1) [OF members(7)] access(1) [OF members(8)] access(1) [OF members(9)] access(1) [OF members(10)]
  have "if_contains lib (doc (Obj kvs)) ''tunnel'' (parse_tunnel lib (doc (Obj kvs))) = Returns (pkt_tunnel packet)"
  proof (cases "pkt_tunnel packet")
    case None
    then show ?thesis using present by (simp add: if_contains_def access(3))
  next
    case (Some t)
    then show ?thesis
      using present tunnel parse_tunnel_written [OF laws] by (simp add: if_contains_def access(3))
  qed
  moreover have "(if interfaceName (pkt_ingress packet) = ''N3'' then N3 else N6) = pkt_ingress packet"
    by (cases "pkt_ingress packet") (simp_all add: interfaceName_def)
  ultimately show ?thesis
    using assms(2)
    by (simp add: kvs parse_packet_def at_get_def at_equals_def at access(6,8,10-12) protocol_written [OF laws]
        printable_def Packet_new_def)
qed

lemma packets_written:
  assumes laws: "json_laws lib doc" and packets: "map_of kvs ''packets'' = Some (Arr (map (packetJson pl) ps))"
    and printable: "\<forall>packet \<in> set ps. printable pl packet"
  shows "parsePackets lib pl ind (doc (Obj kvs)) = Returns (success ps)"
proof -
  note access = json_access [OF laws]
  have "parse_items (\<lambda>i. and_then (json_member lib (doc (Obj kvs)) ''packets'') (\<lambda>xs. json_index lib xs i))
      (parse_packet lib pl ind) 0 (length ps) [] = Returns (success ([] @ map (\<lambda>x. x) ps))"
    by (rule parse_items_map [where f = "\<lambda>p. doc (packetJson pl p)"])
      (use printable in \<open>simp add: access(2) [OF packets] access(5) parse_packet_written [OF laws]\<close>)
  then show ?thesis
    by (simp add: parsePackets_def access(1) [OF packets] access(4) json_catch_def)
qed

text \<open>
  C38. A packet file that holds the packets as the output adapter writes them is read back exactly:
  the same packets in the same order, whatever other members the file has and whatever
  uninitialised memory holds.
\<close>

lemma parsePackets_roundtrip:
  assumes laws: "json_laws lib doc" and packets: "map_of kvs ''packets'' = Some (Arr (map (packetJson pl) ps))"
    and printable: "\<forall>packet \<in> set ps. printable pl packet"
  shows "parsePackets lib pl ind (doc (Obj kvs)) = Returns (success ps)"
  by (rule packets_written [OF assms])

section \<open>What comes out of a file is well formed\<close>

lemma step_succeeds [returns_iff]:
  "and_then_ok m f = Returns (success y) \<longleftrightarrow> (\<exists>x. m = Returns (success x) \<and> f x = Returns (success y))"
  "json_catch n = Returns (success z) \<longleftrightarrow> n = Returns (success z)"
  "(case r of Inl e \<Rightarrow> Returns (failure (g e)) | Inr x \<Rightarrow> h x) = Returns (success y) \<longleftrightarrow>
    (\<exists>x. r = Inr x \<and> h x = Returns (success y))"
  "(case p of None \<Rightarrow> Returns (failure e) | Some x \<Rightarrow> k x) = Returns (success y) \<longleftrightarrow>
    (\<exists>x. p = Some x \<and> k x = Returns (success y))"
  by (cases m; auto simp: and_then_ok_def split: sum.split) (cases n; cases r; cases p; simp add: json_catch_def)+

lemma parse_items_all:
  "parse_items item parse i n acc = Returns (success xs) \<Longrightarrow> \<forall>x \<in> set acc. P x \<Longrightarrow>
   \<forall>j x. parse j = Returns (success x) \<longrightarrow> P x \<Longrightarrow> \<forall>x \<in> set xs. P x"
proof (induction item parse i n acc rule: parse_items.induct)
  case (2 item parse i n acc)
  then obtain j x where "parse j = Returns (success x)"
    and rest: "parse_items item parse (i + 1) n (acc @ [x]) = Returns (success xs)"
    by (auto simp: returns_iff)
  then have "P x" using "2.prems"(3) by blast
  then have "\<forall>y \<in> set (acc @ [x]). P y" using "2.prems"(2) by simp
  with rest show ?case using "2.prems"(3) by (rule "2.IH")
qed simp

lemma parse_pdr_wf:
  assumes "pton_sizes pl" "parse_pdr lib pl item = Returns (success pdr)"
  shows "IpPrefix_wf (pdr_uePrefix pdr)"
  using assms IpPrefix_parse_wf [OF assms(1)]
  by (auto simp: parse_pdr_def returns_iff)

lemma parse_packet_wf:
  assumes "pton_sizes pl" "parse_packet lib pl ind item = Returns (success packet)"
  shows "packet_wf packet"
  using assms IpAddress_parse_wf [OF assms(1)]
  by (auto simp: parse_packet_def packet_wf_def returns_iff Let_def)

lemma parsed_wf:
  assumes "pton_sizes pl"
  shows "parseRules lib pl root = Returns (success rules) \<Longrightarrow> prefixes_wf rules"
    "parsePackets lib pl ind root = Returns (success packets) \<Longrightarrow> \<forall>packet \<in> set packets. packet_wf packet"
proof -
  have pdrs: "\<forall>pdr \<in> set xs. IpPrefix_wf (pdr_uePrefix pdr)"
    if "parse_items item (parse_pdr lib pl) i n [] = Returns (success xs)" for item :: "nat \<Rightarrow> 'a outcome" and i n xs
    by (rule parse_items_all [OF that]) (auto intro: parse_pdr_wf [OF assms])
  have packets: "\<forall>packet \<in> set xs. packet_wf packet"
    if "parse_items item (parse_packet lib pl ind) i n [] = Returns (success xs)" for item :: "nat \<Rightarrow> 'a outcome" and i n xs
    by (rule parse_items_all [OF that]) (auto intro: parse_packet_wf [OF assms])
  show "parseRules lib pl root = Returns (success rules) \<Longrightarrow> prefixes_wf rules"
    using pdrs by (fastforce simp: parseRules_def parse_array_def returns_iff prefixes_wf_def)
  show "parsePackets lib pl ind root = Returns (success packets) \<Longrightarrow> \<forall>packet \<in> set packets. packet_wf packet"
    using packets by (fastforce simp: parsePackets_def returns_iff)
qed

text \<open>
  C37. Rules and packets read from files meet what the selection relies on, whatever JSON library and
  address parser read them: prefixes and addresses are well formed, so when the rules are valid the
  PDR selected for a packet is the only matching one of lowest precedence.
\<close>

lemma parsed_selection:
  assumes "pton_sizes pl" "parseRules lib pl rulesJson = Returns (success rules)"
    and "parsePackets lib pl ind packetsJson = Returns (success packets)"
    and "ruleset_valid rules" "packet \<in> set packets" "snd (selectWinner pl (rs_pdrs rules) packet) = Some w"
  shows "prefixes_wf rules \<and> packet_wf packet \<and> pdr_matches w packet \<and>
    (\<forall>x \<in> set (rs_pdrs rules). pdr_matches x packet \<longrightarrow> x \<noteq> w \<longrightarrow> pdr_precedence w < pdr_precedence x)"
proof -
  have "prefixes_wf rules" "packet_wf packet"
    using parsed_wf(1) [OF assms(1,2)] parsed_wf(2) [OF assms(1,3)] assms(5) by simp_all
  then show ?thesis using strict_minimum [OF assms(4) _ _ assms(6)] by blast
qed

section \<open>The run over the files\<close>

text \<open>The decisions of forwarded packets, by the interface that received them.\<close>

abbreviation forwarded_to :: "Interface \<Rightarrow> PacketDecision list \<Rightarrow> Packet list" where
  "forwarded_to i ds \<equiv> map pd_transformedPacket (filter (\<lambda>d. pd_terminalResult d = forwarded_result i) ds)"

lemma process_all_effect:
  assumes "pipeline_inv p" "pp_rules p = Some rules"
  shows "\<exists>ds q. process_all pl ind packets (result, p) =
      Returns (result\<lparr>rr_decisions := rr_decisions result @ ds\<rparr>, q) \<and>
    map pd_packetId ds = map pkt_packetId packets \<and>
    (\<forall>d \<in> set ds. pd_rulesetVersion d = rs_version rules) \<and>
    (\<forall>i. sink_of i q = sink_of i p @ forwarded_to i ds)"
  using assms
proof (induction packets arbitrary: p result)
  case Nil
  show ?case by (rule exI [of _ "[]"]) simp
next
  case (Cons packet packets)
  obtain d q where run: "process pl ind packet (rr_runId result) (rr_scenarioId result) p = Some (d, q)"
    by (rule process_returns [OF Cons.prems(1)])
  note names = process_names [OF Cons.prems(1) run] and sinks = process_log_step [OF Cons.prems(1) run]
  have q: "pipeline_inv q" "pp_rules q = Some rules"
    using process_inv [OF Cons.prems(1) run] process_rules [OF Cons.prems(1) run] Cons.prems(2) by simp_all
  let ?result = "result\<lparr>rr_decisions := rr_decisions result @ [d]\<rparr>"
  obtain ds r where rest: "process_all pl ind packets (?result, q) =
      Returns (?result\<lparr>rr_decisions := rr_decisions ?result @ ds\<rparr>, r)"
    and ds: "map pd_packetId ds = map pkt_packetId packets" "\<forall>d \<in> set ds. pd_rulesetVersion d = rs_version rules"
      "\<And>i. sink_of i r = sink_of i q @ forwarded_to i ds"
    using Cons.IH [OF q, of ?result] by blast
  have "process_all pl ind (packet # packets) (result, p) =
      Returns (result\<lparr>rr_decisions := rr_decisions result @ (d # ds)\<rparr>, r)"
    using rest by (simp add: process_into_def run)
  moreover have "sink_of i r = sink_of i p @ forwarded_to i (d # ds)" for i
    using ds(3) [of i] sinks [of i] by simp
  ultimately show ?case
    using names Cons.prems(2) ds(1,2) by (intro exI [of _ "d # ds"] exI [of _ r]) simp
qed

text \<open>What a run over parsed files returns, when the names are strings.\<close>

definition files_result :: "RuleSet \<Rightarrow> Packet list \<Rightarrow> string \<Rightarrow> string \<Rightarrow> RunResult \<Rightarrow> bool" where
  "files_result rules packets runId scenarioId r \<longleftrightarrow>
     rr_runId r = runId \<and> rr_scenarioId r = scenarioId \<and>
     map pd_packetId (rr_decisions r) = map pkt_packetId packets \<and>
     (\<forall>d \<in> set (rr_decisions r). pd_rulesetVersion d = rs_version rules) \<and>
     rr_n3Sink r = forwarded_to N3 (rr_decisions r) \<and> rr_n6Sink r = forwarded_to N6 (rr_decisions r) \<and>
     rr_intendedVersion r = rs_version rules \<and> rr_appliedVersion r = rs_version rules \<and>
     rr_activeVersion r = rs_version rules \<and> rr_convergence r = CONVERGED \<and>
     rr_usageReports r = [] \<and> rr_droppedEvents r = 0 \<and> \<not> rr_observabilityDegraded r"

lemma run_packets_effect:
  "if ruleset_valid rules \<and> ruleset_fits CapacityLimits_default rules
   then (case (json_value_string lib j ''runId'' ''file-run'', json_value_string lib j ''scenarioId'' ''local-files'') of
       (Inr runId, Inr scenarioId) \<Rightarrow>
         \<exists>r. run_packets lib pl ind j rules packets = Returns (success r) \<and> files_result rules packets runId scenarioId r
     | (Inl e, _) \<Rightarrow> run_packets lib pl ind j rules packets = Throws e
     | (_, Inl e) \<Rightarrow> run_packets lib pl ind j rules packets = Throws e)
   else \<exists>e. run_packets lib pl ind j rules packets = Returns (failure e)"
proof -
  let ?p = "PacketPipeline_new CapacityLimits_default"
  have inv: "pipeline_inv ?p" by (rule pipeline_inv_new)
  then have consistent: "runtime_consistent (pp_runtime ?p)" by (simp add: pipeline_inv_def pipeline_ruled_def)
  have limits: "pp_limits ?p = CapacityLimits_default" by (simp add: PacketPipeline_new_def)
  note installed = install_effect_cases [OF consistent, of rules, unfolded limits]
  show ?thesis
  proof (cases "ruleset_valid rules \<and> ruleset_fits CapacityLimits_default rules")
    case False
    with installed show ?thesis by (auto simp: run_packets_def)
  next
    case True
    then obtain rt where rt: "install rules ?p = (success (), ?p\<lparr>pp_rules := Some rules, pp_runtime := rt\<rparr>)"
      using installed by auto
    let ?q = "?p\<lparr>pp_rules := Some rules, pp_runtime := rt\<rparr>"
    have q: "pipeline_inv ?q" "pp_rules ?q = Some rules"
      using install_inv [OF inv, of rules] rt by simp_all
    show ?thesis
    proof (cases "json_value_string lib j ''runId'' ''file-run''";
        cases "json_value_string lib j ''scenarioId'' ''local-files''")
      fix runId scenarioId
      assume names: "json_value_string lib j ''runId'' ''file-run'' = Inr runId"
        "json_value_string lib j ''scenarioId'' ''local-files'' = Inr scenarioId"
      let ?result = "RunResult_new\<lparr>rr_runId := runId, rr_scenarioId := scenarioId\<rparr>"
      obtain ds p' where run: "process_all pl ind packets (?result, ?q) =
          Returns (?result\<lparr>rr_decisions := ds\<rparr>, p')"
        and ds: "map pd_packetId ds = map pkt_packetId packets"
          "\<forall>d \<in> set ds. pd_rulesetVersion d = rs_version rules"
        and sinks: "\<And>i. sink_of i p' = forwarded_to i ds"
        using process_all_effect [OF q, of pl ind packets ?result]
        by (auto simp: sink_of_def RunResult_new_def PacketPipeline_new_def split: Interface.split)
      show ?thesis
        using True names ds sinks [of N3] sinks [of N6]
        by (simp add: run_packets_def rt run) (simp add: files_result_def RunResult_new_def sink_of_def)
    qed (use True rt in \<open>simp_all add: run_packets_def\<close>)
  qed
qed

text \<open>
  C39. When both files parse, a run over them never dereferences a null pointer. Rules that do not
  validate make it fail; otherwise it returns one decision per packet, in order, for the version of
  the rules, each sink holds exactly the packets whose decision says so, and the usage reports and
  dropped events are left empty. A run or scenario name that is not a string throws out of it.
\<close>

lemma runFiles_effect:
  assumes "readJson lib files rulesPath = success rulesJson" "readJson lib files packetsPath = success packetsJson"
    and "parseRules lib pl rulesJson = Returns (success rules)"
    and "parsePackets lib pl ind packetsJson = Returns (success packets)"
  shows "if ruleset_valid rules \<and> ruleset_fits CapacityLimits_default rules
    then (case (json_value_string lib packetsJson ''runId'' ''file-run'',
            json_value_string lib packetsJson ''scenarioId'' ''local-files'') of
        (Inr runId, Inr scenarioId) \<Rightarrow>
          \<exists>r. runFiles lib files pl ind rulesPath packetsPath = Returns (success r) \<and>
            files_result rules packets runId scenarioId r
      | (Inl e, _) \<Rightarrow> runFiles lib files pl ind rulesPath packetsPath = Throws e
      | (_, Inl e) \<Rightarrow> runFiles lib files pl ind rulesPath packetsPath = Throws e)
    else \<exists>e. runFiles lib files pl ind rulesPath packetsPath = Returns (failure e)"
proof -
  have "runFiles lib files pl ind rulesPath packetsPath = run_packets lib pl ind packetsJson rules packets"
    using assms by (simp add: runFiles_def)
  then show ?thesis by (simp only:) (rule run_packets_effect)
qed

section \<open>Concrete files\<close>

definition ul_rules_doc :: json where
  [model_defs]: "ul_rules_doc = Obj
     [(''sessionId'', Str ''session-1''), (''rulesetVersion'', Num 3),
      (''pdrs'', Arr [Obj
        [(''id'', Num 10), (''precedence'', Num 100), (''sourceInterface'', Str ''N3''),
         (''teid'', Num 1001), (''uePrefix'', Str ''10.10.0.0/24''), (''protocol'', Str ''UDP''),
         (''localPorts'', Obj [(''first'', Num 41000), (''last'', Num 41000)]),
         (''remotePorts'', Obj [(''first'', Num 443), (''last'', Num 443)]),
         (''qfi'', Num 9), (''farId'', Num 20), (''qerId'', Num 30), (''urrId'', Num 40)]]),
      (''fars'', Arr [Obj
        [(''id'', Num 20), (''action'', Str ''FORWARD''), (''destinationInterface'', Str ''N6''),
         (''tunnelOperation'', Str ''REMOVE'')]]),
      (''qers'', Arr [Obj
        [(''id'', Num 30), (''gate'', Str ''OPEN''), (''rateBitsPerSecond'', Num 10000000),
         (''burstBytes'', Num 20000), (''generation'', Num 1)]]),
      (''urrs'', Arr [Obj
        [(''id'', Num 40), (''volumeThresholdBytes'', Num 10000), (''generation'', Num 1)]])]"

definition packets_doc :: "json \<Rightarrow> json" where
  [model_defs]: "packets_doc runId = Obj
     [(''runId'', runId), (''packets'', Arr (map (packetJson dotted_platform) [ul_packet, dl_packet]))]"

definition example_files :: "string \<Rightarrow> string option" where
  [model_defs]: "example_files = [''rules.json'' \<mapsto> ''rules'', ''packets.json'' \<mapsto> ''packets'',
     ''numbered.json'' \<mapsto> ''numbered'']"

definition example_library :: "json json_library" where
  [model_defs]: "example_library = json_tree\<lparr>json_parse := (\<lambda>text.
     if text = ''rules'' then success ul_rules_doc
     else if text = ''packets'' then success (packets_doc (Str ''run-1''))
     else if text = ''numbered'' then success (packets_doc (Num 7))
     else failure ''parse error'')\<rparr>"

lemma example_laws: "json_laws example_library (\<lambda>j. j)"
  using json_tree_laws by (simp add: example_library_def json_laws_def)

lemma example_printable: "printable dotted_platform ul_packet" "printable dotted_platform dl_packet"
  by (simp_all add: printable_def model_defs)

lemma parsePackets_roundtrip_witness:
  "parsePackets example_library dotted_platform zero_memory
     (Obj [(''runId'', Null), (''packets'', Arr (map (packetJson dotted_platform) [ul_packet, dl_packet]))]) =
   Returns (success [ul_packet, dl_packet])"
  by (rule parsePackets_roundtrip [OF example_laws]) (simp_all add: example_printable)

lemma parse_ul_rules: "parseRules example_library dotted_platform ul_rules_doc = Returns (success ul_rules)"
  by (simp add: model_defs)

lemma example_parses:
  "readJson example_library example_files ''rules.json'' = success ul_rules_doc"
  "readJson example_library example_files ''packets.json'' = success (packets_doc (Str ''run-1''))"
  "readJson example_library example_files ''numbered.json'' = success (packets_doc (Num 7))"
  by (simp_all add: readJson_def example_files_def example_library_def json_tree_def)

lemma parse_example_packets:
  "parsePackets example_library dotted_platform zero_memory (packets_doc j) = Returns (success [ul_packet, dl_packet])"
  unfolding packets_doc_def by (rule packets_written [OF example_laws]) (simp_all add: example_printable)

lemma example_valid: "ruleset_valid ul_rules \<and> ruleset_fits CapacityLimits_default ul_rules"
  using ul_validates validateRuleSet_accepts by blast

lemma parsed_selection_witness:
  "prefixes_wf ul_rules \<and> packet_wf ul_packet \<and> pdr_matches ul_pdr ul_packet"
proof -
  have "snd (selectWinner dotted_platform (rs_pdrs ul_rules) ul_packet) = Some ul_pdr"
    by (simp add: ul_rules_def selectWinner_def select_step_def ul_pdr_matches)
  from parsed_selection [OF dotted_sizes parse_ul_rules parse_example_packets [of Null] _ _ this] example_valid
  show ?thesis by simp
qed

lemma runFiles_effect_witness:
  "(\<exists>r. runFiles example_library example_files dotted_platform zero_memory ''rules.json'' ''packets.json'' =
       Returns (success r) \<and> files_result ul_rules [ul_packet, dl_packet] ''run-1'' ''local-files'' r) \<and>
   runFiles example_library example_files dotted_platform zero_memory ''rules.json'' ''numbered.json'' =
     Throws ''type must be string''"
proof -
  have named: "json_value_string example_library (packets_doc (Str ''run-1'')) ''runId'' ''file-run'' = success ''run-1''"
    "json_value_string example_library (packets_doc (Num 7)) ''runId'' ''file-run'' = failure ''type must be string''"
    "json_value_string example_library (packets_doc j) ''scenarioId'' ''local-files'' = success ''local-files''" for j
    by (simp_all add: example_library_def json_tree_def packets_doc_def)
  note run = runFiles_effect [OF example_parses(1) _ parse_ul_rules parse_example_packets]
  show ?thesis
    using run [OF example_parses(2)] run [OF example_parses(3)] example_valid by (simp add: named)
qed

end
