(* ===== verification/Command_Line.thy ===== *)
theory Command_Line
  imports Json_Input
begin

text \<open>
  \<open>src/cli/main.cpp\<close>: the command line. The end of the program is its exit code and what it wrote to
  the standard output and the standard error stream; an exception that leaves \<open>main\<close>, undefined
  behaviour and a run that does not end are the other outcomes.
\<close>

section \<open>The code\<close>

record program_end =
  exit_code :: nat
  std_out :: string
  std_err :: string

definition usage :: program_end where
  [model_defs]: "usage = \<lparr>exit_code = 2, std_out = '''', std_err =
     ''Usage: upf-rule-pipeline-demo --scenario NAME [--output human|json]'' @ newline @
     ''       upf-rule-pipeline-demo --rules FILE --packets FILE [--output human|json]'' @ newline\<rparr>"

definition help_text :: program_end where
  [model_defs]: "help_text = \<lparr>exit_code = 0, std_out = disclaimer @ newline @
     ''Usage: upf-rule-pipeline-demo --scenario NAME [--output human|json]'' @ newline, std_err = ''''\<rparr>"

text \<open>The local variables of \<open>main\<close>.\<close>

record options =
  opt_scenario :: string
  opt_rules :: string
  opt_packets :: string
  opt_output :: string
  opt_list :: bool

definition options_new :: options where
  [model_defs]: "options_new = \<lparr>opt_scenario = '''', opt_rules = '''', opt_packets = '''',
     opt_output = ''human'', opt_list = False\<rparr>"

definition set_option :: "string \<Rightarrow> string \<Rightarrow> options \<Rightarrow> options" where
  [model_defs]: "set_option arg v options =
     (if arg = ''--scenario'' then options\<lparr>opt_scenario := v\<rparr>
      else if arg = ''--rules'' then options\<lparr>opt_rules := v\<rparr>
      else if arg = ''--packets'' then options\<lparr>opt_packets := v\<rparr>
      else options\<lparr>opt_output := v\<rparr>)"

text \<open>The loop over the arguments after the program name: it returns from \<open>main\<close> or ends.\<close>

fun parse_arguments :: "string list \<Rightarrow> options \<Rightarrow> program_end + options" where
  "parse_arguments [] options = Inr options"
| "parse_arguments (arg # args) options =
     (if arg = ''--help'' then Inl help_text
      else if arg = ''--list-scenarios'' then parse_arguments args (options\<lparr>opt_list := True\<rparr>)
      else if arg \<in> {''--scenario'', ''--rules'', ''--packets'', ''--output''}
      then (case args of
          [] \<Rightarrow> Inl usage
        | v # rest \<Rightarrow> parse_arguments rest (set_option arg v options))
      else Inl usage)"

definition list_scenarios :: program_end where
  [model_defs]: "list_scenarios = \<lparr>exit_code = 0,
     std_out = concat (map (\<lambda>name. name @ newline) scenarioNames) @ disclaimer @ newline, std_err = ''''\<rparr>"

text \<open>The last lines, which print the result.\<close>

definition print_result :: "platform \<Rightarrow> (json \<Rightarrow> string) \<Rightarrow> string \<Rightarrow> RunResult \<Rightarrow> program_end" where
  [model_defs]: "print_result pl dump output result = \<lparr>exit_code = 0,
     std_out = (if output = ''json'' then renderJson pl dump result else renderHuman result) @
       (if output = ''json'' then newline else ''''), std_err = ''''\<rparr>"

definition main ::
  "'j json_library \<Rightarrow> (json \<Rightarrow> string) \<Rightarrow> (string \<Rightarrow> string option) \<Rightarrow> platform \<Rightarrow> indeterminate \<Rightarrow>
   string list \<Rightarrow> program_end outcome"
where
  "main lib dump files pl ind arguments =
     (case parse_arguments arguments options_new of
        Inl e \<Rightarrow> Returns e
      | Inr opts \<Rightarrow>
          if opt_list opts then Returns list_scenarios
          else if opt_output opts \<noteq> ''human'' \<and> opt_output opts \<noteq> ''json'' then Returns usage
          else if opt_scenario opts \<noteq> '''' \<and> opt_rules opts = '''' \<and> opt_packets opts = ''''
          then if opt_scenario opts \<notin> set scenarioNames then Returns usage
               else and_then (run pl ind (opt_scenario opts))
                 (\<lambda>result. Returns (print_result pl dump (opt_output opts) result))
          else if opt_scenario opts = '''' \<and> opt_rules opts \<noteq> '''' \<and> opt_packets opts \<noteq> ''''
          then and_then (runFiles lib files pl ind (opt_rules opts) (opt_packets opts))
            (\<lambda>loaded. case loaded of
               Inl e \<Rightarrow> Returns \<lparr>exit_code = 4, std_out = '''', std_err = e @ newline\<rparr>
             | Inr result \<Rightarrow> Returns (print_result pl dump (opt_output opts) result))
          else Returns usage)"

section \<open>How the program ends\<close>

lemma parse_arguments_ends:
  "parse_arguments args opts = Inl e \<Longrightarrow> e \<in> {usage, help_text}"
  by (induction args opts rule: parse_arguments.induct) (auto split: if_splits list.splits)

lemma ends_told_apart [simp]:
  "exit_code usage = 2" "exit_code help_text = 0" "exit_code list_scenarios = 0"
  "exit_code (print_result pl dump output r) = 0" "std_out usage = ''''" "std_err usage \<noteq> ''''"
  "std_err help_text = ''''" "std_err list_scenarios = ''''" "std_err (print_result pl dump output r) = ''''"
  by (simp_all add: usage_def help_text_def list_scenarios_def print_result_def)

lemma and_then_prints:
  "and_then k (\<lambda>r. Returns (h r)) = Returns y \<longleftrightarrow> (\<exists>r. k = Returns r \<and> y = h r)"
  "and_then m (\<lambda>loaded. case loaded of Inl e \<Rightarrow> Returns (g e) | Inr r \<Rightarrow> Returns (f r)) = Returns x \<longleftrightarrow>
    (\<exists>e. m = Returns (failure e) \<and> x = g e) \<or> (\<exists>r. m = Returns (success r) \<and> x = f r)"
  by (cases k; force) (cases m; auto split: sum.split sum.split_asm)


end
