(* ===== verification/Bounded_Buffers.thy ===== *)
theory Bounded_Buffers
  imports Prelude
begin

text \<open>
  The contract every bounded store of the program follows: an operation that appends an element
  while there is room and otherwise rejects it and keeps the contents. The lemmas about whole
  sequences of offers are proved once here; the ports and the scheduler queues interpret the
  locale on their models.
\<close>

fun offer_all :: "('b \<Rightarrow> 'a \<Rightarrow> bool \<times> 'b) \<Rightarrow> 'a list \<Rightarrow> 'b \<Rightarrow> bool list \<times> 'b" where
  "offer_all push [] b = ([], b)"
| "offer_all push (x # xs) b =
     (let next = offer_all push xs (snd (push b x)) in (fst (push b x) # fst next, snd next))"

locale bounded_buffer =
  fixes push :: "'b \<Rightarrow> 'a \<Rightarrow> bool \<times> 'b" and contents :: "'b \<Rightarrow> 'a list"
    and capacity :: "'b \<Rightarrow> nat" and accepting :: "'b \<Rightarrow> bool"
  assumes push_taken: "fst (push b x) \<longleftrightarrow> accepting b \<and> length (contents b) < capacity b"
    and push_contents: "contents (snd (push b x)) = contents b @ (if fst (push b x) then [x] else [])"
    and push_capacity: "capacity (snd (push b x)) = capacity b"
    and push_accepting: "accepting (snd (push b x)) = accepting b"
begin

definition within :: "'b \<Rightarrow> bool" where
  "within b \<longleftrightarrow> length (contents b) \<le> capacity b"

lemma push_within: "within b \<Longrightarrow> within (snd (push b x))"
  by (auto simp: within_def push_contents push_capacity push_taken)

lemma offer_capacity: "capacity (snd (offer_all push xs b)) = capacity b"
  by (induction xs arbitrary: b) (simp_all add: Let_def push_capacity)

lemma offer_accepting: "accepting (snd (offer_all push xs b)) = accepting b"
  by (induction xs arbitrary: b) (simp_all add: Let_def push_accepting)

lemma offer_length: "length (fst (offer_all push xs b)) = length xs"
  by (induction xs arbitrary: b) (simp_all add: Let_def)

text \<open>A sequence of offers keeps the first ones that fit, in order.\<close>

lemma offer_contents:
  "accepting b \<Longrightarrow> contents (snd (offer_all push xs b)) =
     contents b @ take (capacity b - length (contents b)) xs"
proof (induction xs arbitrary: b)
  case (Cons x xs)
  let ?b = "snd (push b x)"
  have "contents (snd (offer_all push (x # xs) b)) = contents (snd (offer_all push xs ?b))"
    by (simp add: Let_def)
  also have "\<dots> = contents ?b @ take (capacity ?b - length (contents ?b)) xs"
    by (rule Cons.IH) (simp add: Cons.prems push_accepting)
  finally show ?case
    using Cons.prems by (cases "capacity b - length (contents b)")
      (auto simp: push_contents push_capacity push_taken diff_Suc)
qed simp

lemma offer_rejected:
  "accepting b \<Longrightarrow> count_list (fst (offer_all push xs b)) False =
     length xs - (capacity b - length (contents b))"
proof (induction xs arbitrary: b)
  case (Cons x xs)
  have "accepting (snd (push b x))" using Cons.prems by (simp add: push_accepting)
  from Cons.IH [OF this] Cons.prems show ?case
    by (simp add: Let_def push_contents push_capacity push_taken)
qed simp

lemma offer_within: "within b \<Longrightarrow> within (snd (offer_all push xs b))"
  by (induction xs arbitrary: b) (simp_all add: Let_def push_within)

text \<open>A closed buffer takes nothing.\<close>

lemma offer_closed:
  "\<not> accepting b \<Longrightarrow> contents (snd (offer_all push xs b)) = contents b \<and>
     True \<notin> set (fst (offer_all push xs b))"
proof (induction xs arbitrary: b)
  case (Cons x xs)
  have "\<not> fst (push b x)" "\<not> accepting (snd (push b x))"
    using Cons.prems by (simp_all add: push_taken push_accepting)
  with Cons.IH [of "snd (push b x)"] show ?case
    by (simp add: Let_def push_contents)
qed simp

end

text \<open>
  A buffer that is also served from the front: \<open>serve\<close> removes the oldest element, or does
  nothing on an empty buffer.
\<close>

fun serve_all :: "('b \<Rightarrow> 'a option \<times> 'b) \<Rightarrow> nat \<Rightarrow> 'b \<Rightarrow> 'a list \<times> 'b" where
  "serve_all serve 0 b = ([], b)"
| "serve_all serve (Suc n) b =
     (let next = serve_all serve n (snd (serve b))
      in ((case fst (serve b) of None \<Rightarrow> [] | Some x \<Rightarrow> [x]) @ fst next, snd next))"

locale served_buffer = bounded_buffer push contents capacity accepting
  for push :: "'b \<Rightarrow> 'a \<Rightarrow> bool \<times> 'b" and contents capacity accepting +
  fixes serve :: "'b \<Rightarrow> 'a option \<times> 'b"
  assumes serve_front: "fst (serve b) = (case contents b of [] \<Rightarrow> None | x # _ \<Rightarrow> Some x)"
    and serve_contents: "contents (snd (serve b)) = tl (contents b)"
    and serve_capacity: "capacity (snd (serve b)) = capacity b"
begin

lemma serve_within: "within b \<Longrightarrow> within (snd (serve b))"
  by (auto simp: within_def serve_contents serve_capacity)

text \<open>Serving is first in, first out: after \<open>n\<close> services the oldest \<open>n\<close> elements are gone.\<close>

lemma serve_all_fifo:
  "fst (serve_all serve n b) = take n (contents b) \<and>
   contents (snd (serve_all serve n b)) = drop n (contents b)"
proof (induction n arbitrary: b)
  case (Suc n)
  show ?case
    using Suc [of "snd (serve b)"] serve_front [of b] serve_contents [of b]
    by (cases "contents b") (simp_all add: Let_def)
qed simp

lemma conserved:
  "fst (serve_all serve n b) @ contents (snd (serve_all serve n b)) = contents b"
  by (simp add: serve_all_fifo)

text \<open>An element that entered is served within as many services as there are elements before it.\<close>

lemma served_in_time:
  "k < length (contents b) \<Longrightarrow> fst (serve_all serve (Suc k) b) ! k = contents b ! k \<and>
   length (fst (serve_all serve (Suc k) b)) = Suc k"
  by (simp only: serve_all_fifo) simp

end

text \<open>
  A buffer that shares its state with others: \<open>idle\<close> stands for the operations on the rest of
  the state, which may close the buffer but leave its contents alone. \<open>action_run\<close> is any
  interleaving; its result is what the offers put in and what the services took out.
\<close>

datatype ('a, 'c) action = Offer 'a | Serve | Idle 'c

fun act ::
  "('b \<Rightarrow> 'a \<Rightarrow> bool \<times> 'b) \<Rightarrow> ('b \<Rightarrow> 'a option \<times> 'b) \<Rightarrow> ('c \<Rightarrow> 'b \<Rightarrow> 'b) \<Rightarrow> ('a, 'c) action \<Rightarrow> 'b \<Rightarrow>
   'a list \<times> 'a list \<times> 'b"
where
  "act push serve idle (Offer x) b = ((if fst (push b x) then [x] else []), [], snd (push b x))"
| "act push serve idle Serve b =
     ([], (case fst (serve b) of None \<Rightarrow> [] | Some x \<Rightarrow> [x]), snd (serve b))"
| "act push serve idle (Idle c) b = ([], [], idle c b)"

fun action_run ::
  "('b \<Rightarrow> 'a \<Rightarrow> bool \<times> 'b) \<Rightarrow> ('b \<Rightarrow> 'a option \<times> 'b) \<Rightarrow> ('c \<Rightarrow> 'b \<Rightarrow> 'b) \<Rightarrow> ('a, 'c) action list \<Rightarrow> 'b \<Rightarrow>
   'a list \<times> 'a list \<times> 'b"
where
  "action_run push serve idle [] b = ([], [], b)"
| "action_run push serve idle (a # acts) b =
     (let now = act push serve idle a b; later = action_run push serve idle acts (snd (snd now))
      in (fst now @ fst later, fst (snd now) @ fst (snd later), snd (snd later)))"

fun services :: "('a, 'c) action list \<Rightarrow> nat" where
  "services [] = 0"
| "services (Serve # acts) = Suc (services acts)"
| "services (_ # acts) = services acts"

locale shared_buffer = served_buffer push contents capacity accepting serve
  for push :: "'b \<Rightarrow> 'a \<Rightarrow> bool \<times> 'b" and contents capacity accepting serve +
  fixes idle :: "'c \<Rightarrow> 'b \<Rightarrow> 'b"
  assumes idle_contents: "contents (idle c b) = contents b"
    and idle_capacity: "capacity (idle c b) = capacity b"
begin

abbreviation step where "step \<equiv> act push serve idle"
abbreviation run where "run \<equiv> action_run push serve idle"

lemma act_conserves:
  "contents b @ fst (step a b) = fst (snd (step a b)) @ contents (snd (snd (step a b)))"
proof (cases a)
  case Serve
  then show ?thesis
    using serve_front [of b] serve_contents [of b] by (cases "contents b") auto
qed (auto simp: push_contents idle_contents)

lemma act_capacity: "capacity (snd (snd (step a b))) = capacity b"
  by (cases a) (simp_all add: push_capacity serve_capacity idle_capacity)

lemma act_within: "within b \<Longrightarrow> within (snd (snd (step a b)))"
  by (cases a) (auto simp: push_within serve_within, simp add: within_def idle_contents idle_capacity)

text \<open>
  Nothing is lost, duplicated or reordered: what was there and what came in is what went out and
  what is left.
\<close>

lemma run_conserves:
  "contents b @ fst (run acts b) = fst (snd (run acts b)) @ contents (snd (snd (run acts b)))"
proof (induction acts arbitrary: b)
  case (Cons a acts)
  let ?now = "step a b"
  have "contents b @ fst (run (a # acts) b) =
      (contents b @ fst ?now) @ fst (run acts (snd (snd ?now)))"
    by (simp add: Let_def)
  also have "\<dots> = fst (snd ?now) @ contents (snd (snd ?now)) @ fst (run acts (snd (snd ?now)))"
    by (simp add: act_conserves)
  finally show ?case by (simp add: Let_def Cons.IH)
qed simp

lemma run_within: "within b \<Longrightarrow> within (snd (snd (run acts b)))"
  by (induction acts arbitrary: b) (simp_all add: Let_def act_within)

lemma act_serves:
  "min (services (a # acts)) (length (contents b)) \<le>
    length (fst (snd (step a b))) + min (services acts) (length (contents (snd (snd (step a b)))))"
proof (cases a)
  case Serve
  then show ?thesis using serve_front [of b] serve_contents [of b] by (cases "contents b") auto
qed (auto simp: push_contents idle_contents)

lemma run_serves: "min (services acts) (length (contents b)) \<le> length (fst (snd (run acts b)))"
proof (induction acts arbitrary: b)
  case (Cons a acts)
  show ?case
    using act_serves [of a acts b] Cons.IH [of "snd (snd (step a b))"] by (simp add: Let_def)
qed simp

text \<open>
  Bounded waiting: the element with \<open>k\<close> before it leaves at the latest with the service number
  \<open>k + 1\<close>, whatever else happens in between.
\<close>

lemma run_bounded_wait:
  assumes "k < length (contents b)" "k < services acts"
  shows "k < length (fst (snd (run acts b))) \<and> fst (snd (run acts b)) ! k = contents b ! k"
proof -
  have k: "k < length (fst (snd (run acts b)))" using run_serves [of acts b] assms by simp
  then have "fst (snd (run acts b)) ! k = (contents b @ fst (run acts b)) ! k"
    by (simp add: run_conserves nth_append)
  with k assms show ?thesis by (simp add: nth_append)
qed

end

end
