(* ===== verification/Scheduling.thy ===== *)
theory Scheduling
  imports Bounded_Buffers Core_Types
begin

text \<open>
  \<open>include/upf/application/scheduler.hpp\<close> and \<open>src/application/scheduler.cpp\<close>: three bounded
  queues, a cycle that takes at most one item from each in a fixed order, and the shutdown path.

  Each queue of the scheduler is a \<open>shared_buffer\<close>: its own \<open>enqueue\<close> offers, a cycle serves, and
  the operations on the other queues are idle steps. The interpretation is stated once for the
  three kinds of work.
\<close>

section \<open>The code\<close>

datatype WorkKind = CONTROL_WORK | PACKET_WORK | RECONCILIATION_WORK

record ScheduledItem =
  si_kind :: WorkKind
  si_value :: string

record Scheduler =
  sch_limits :: CapacityLimits
  sch_control :: "string list"
  sch_packet :: "string list"
  sch_reconciliation :: "string list"
  sch_accepting :: bool

definition Scheduler_new :: "CapacityLimits \<Rightarrow> Scheduler" where
  [model_defs]: "Scheduler_new limits = \<lparr>sch_limits = limits, sch_control = [], sch_packet = [],
     sch_reconciliation = [], sch_accepting = True\<rparr>"

definition enqueue :: "string list \<Rightarrow> size_t \<Rightarrow> string \<Rightarrow> bool \<times> string list" where
  [model_defs]: "enqueue queue capacity v =
     (if length queue \<ge> unat capacity then (False, queue) else (True, queue @ [v]))"

definition enqueueControl :: "Scheduler \<Rightarrow> string \<Rightarrow> bool \<times> Scheduler" where
  [model_defs]: "enqueueControl s v =
     (if sch_accepting s
      then let (taken, queue) = enqueue (sch_control s) (lim_controlQueue (sch_limits s)) v
           in (taken, s\<lparr>sch_control := queue\<rparr>)
      else (False, s))"

definition enqueuePacket :: "Scheduler \<Rightarrow> string \<Rightarrow> bool \<times> Scheduler" where
  [model_defs]: "enqueuePacket s v =
     (if sch_accepting s
      then let (taken, queue) = enqueue (sch_packet s) (lim_packetQueue (sch_limits s)) v
           in (taken, s\<lparr>sch_packet := queue\<rparr>)
      else (False, s))"

definition enqueueReconciliation :: "Scheduler \<Rightarrow> string \<Rightarrow> bool \<times> Scheduler" where
  [model_defs]: "enqueueReconciliation s v =
     (if sch_accepting s
      then let (taken, queue) = enqueue (sch_reconciliation s) (lim_reconciliationQueue (sch_limits s)) v
           in (taken, s\<lparr>sch_reconciliation := queue\<rparr>)
      else (False, s))"

text \<open>\<open>push_back\<close> of a queue's front followed by \<open>pop_front\<close>, if there is one.\<close>

definition take_front :: "WorkKind \<Rightarrow> ScheduledItem list \<Rightarrow> string list \<Rightarrow> ScheduledItem list \<times> string list" where
  [model_defs]: "take_front kind result queue =
     (case queue of [] \<Rightarrow> (result, queue)
      | v # rest \<Rightarrow> (result @ [\<lparr>si_kind = kind, si_value = v\<rparr>], rest))"

definition takeCycle :: "Scheduler \<Rightarrow> ScheduledItem list \<times> Scheduler" where
  [model_defs]: "takeCycle s =
     (let (result, control) = take_front CONTROL_WORK [] (sch_control s);
          (result, packet) = take_front PACKET_WORK result (sch_packet s);
          (result, reconciliation) = take_front RECONCILIATION_WORK result (sch_reconciliation s)
      in (result, s\<lparr>sch_control := control, sch_packet := packet, sch_reconciliation := reconciliation\<rparr>))"

definition stopAdmission :: "Scheduler \<Rightarrow> Scheduler" where
  [model_defs]: "stopAdmission s = s\<lparr>sch_accepting := False\<rparr>"

definition pending_work :: "Scheduler \<Rightarrow> size_t" where
  [model_defs]: "pending_work s = of_nat (length (sch_control s)) + of_nat (length (sch_packet s)) +
     of_nat (length (sch_reconciliation s))"

text \<open>The \<open>while\<close> loop that empties a queue.\<close>

fun drain_queue :: "WorkKind \<Rightarrow> ScheduledItem list \<Rightarrow> string list \<Rightarrow> ScheduledItem list \<times> string list" where
  "drain_queue kind result [] = (result, [])"
| "drain_queue kind result (v # rest) =
     drain_queue kind (result @ [\<lparr>si_kind = kind, si_value = v\<rparr>]) rest"

definition classifyRemainder :: "Scheduler \<Rightarrow> ScheduledItem list \<times> Scheduler" where
  [model_defs]: "classifyRemainder s =
     (let (result, control) = drain_queue CONTROL_WORK [] (sch_control s);
          (result, packet) = drain_queue PACKET_WORK result (sch_packet s);
          (result, reconciliation) = drain_queue RECONCILIATION_WORK result (sch_reconciliation s)
      in (result, s\<lparr>sch_control := control, sch_packet := packet, sch_reconciliation := reconciliation\<rparr>))"

section \<open>The queues as shared buffers\<close>

fun queue_of :: "WorkKind \<Rightarrow> Scheduler \<Rightarrow> string list" where
  "queue_of CONTROL_WORK s = sch_control s"
| "queue_of PACKET_WORK s = sch_packet s"
| "queue_of RECONCILIATION_WORK s = sch_reconciliation s"

fun limit_of :: "WorkKind \<Rightarrow> Scheduler \<Rightarrow> nat" where
  "limit_of CONTROL_WORK s = unat (lim_controlQueue (sch_limits s))"
| "limit_of PACKET_WORK s = unat (lim_packetQueue (sch_limits s))"
| "limit_of RECONCILIATION_WORK s = unat (lim_reconciliationQueue (sch_limits s))"

fun enqueue_of :: "WorkKind \<Rightarrow> Scheduler \<Rightarrow> string \<Rightarrow> bool \<times> Scheduler" where
  "enqueue_of CONTROL_WORK = enqueueControl"
| "enqueue_of PACKET_WORK = enqueuePacket"
| "enqueue_of RECONCILIATION_WORK = enqueueReconciliation"

text \<open>The item of one kind in a cycle.\<close>

definition cycle_of :: "WorkKind \<Rightarrow> Scheduler \<Rightarrow> string option \<times> Scheduler" where
  "cycle_of kind s =
     (map_option si_value (find (\<lambda>i. si_kind i = kind) (fst (takeCycle s))), snd (takeCycle s))"

text \<open>What the rest of the program may do between the operations on one queue.\<close>

datatype other_call = Other_Enqueue WorkKind string | Stop_Admission

fun other :: "WorkKind \<Rightarrow> other_call \<Rightarrow> Scheduler \<Rightarrow> Scheduler" where
  "other kind (Other_Enqueue k v) s = (if k = kind then s else snd (enqueue_of k s v))"
| "other kind Stop_Admission s = stopAdmission s"

lemma takeCycle_items:
  "fst (takeCycle s) =
     (case sch_control s of [] \<Rightarrow> [] | v # _ \<Rightarrow> [\<lparr>si_kind = CONTROL_WORK, si_value = v\<rparr>]) @
     (case sch_packet s of [] \<Rightarrow> [] | v # _ \<Rightarrow> [\<lparr>si_kind = PACKET_WORK, si_value = v\<rparr>]) @
     (case sch_reconciliation s of [] \<Rightarrow> [] | v # _ \<Rightarrow> [\<lparr>si_kind = RECONCILIATION_WORK, si_value = v\<rparr>])"
  by (simp add: takeCycle_def take_front_def split: list.split)

lemma takeCycle_state:
  "snd (takeCycle s) = s\<lparr>sch_control := tl (sch_control s), sch_packet := tl (sch_packet s),
     sch_reconciliation := tl (sch_reconciliation s)\<rparr>"
  by (simp add: takeCycle_def take_front_def split: list.split)

lemma enqueue_others:
  "k \<noteq> kind \<Longrightarrow> queue_of kind (snd (enqueue_of k s v)) = queue_of kind s"
  "limit_of kind (snd (enqueue_of k s v)) = limit_of kind s"
  by (cases k; cases kind; simp add: enqueueControl_def enqueuePacket_def enqueueReconciliation_def
      Let_def split: prod.split)+

lemma stop_frames:
  "queue_of kind (stopAdmission s) = queue_of kind s" "limit_of kind (stopAdmission s) = limit_of kind s"
  by (cases kind; simp add: stopAdmission_def)+

interpretation sq: shared_buffer "enqueue_of kind" "queue_of kind" "limit_of kind" sch_accepting
  "cycle_of kind" "other kind" for kind
proof unfold_locales
  fix s v
  show "fst (enqueue_of kind s v) \<longleftrightarrow> sch_accepting s \<and> length (queue_of kind s) < limit_of kind s"
    "queue_of kind (snd (enqueue_of kind s v)) =
      queue_of kind s @ (if fst (enqueue_of kind s v) then [v] else [])"
    "limit_of kind (snd (enqueue_of kind s v)) = limit_of kind s"
    "sch_accepting (snd (enqueue_of kind s v)) = sch_accepting s"
    by (cases kind; auto simp: enqueueControl_def enqueuePacket_def enqueueReconciliation_def enqueue_def)+
next
  fix s
  show "fst (cycle_of kind s) = (case queue_of kind s of [] \<Rightarrow> None | x # _ \<Rightarrow> Some x)"
    by (cases kind) (simp_all add: cycle_of_def takeCycle_items split: list.split)
  show "queue_of kind (snd (cycle_of kind s)) = tl (queue_of kind s)"
    "limit_of kind (snd (cycle_of kind s)) = limit_of kind s"
    by (cases kind; simp add: cycle_of_def takeCycle_state)+
next
  fix c s
  show "queue_of kind (other kind c s) = queue_of kind s" "limit_of kind (other kind c s) = limit_of kind s"
    by (cases c; simp add: enqueue_others stop_frames)+
qed

section \<open>Properties\<close>

text \<open>Every state the program can bring a scheduler into.\<close>

inductive scheduler_reach :: "CapacityLimits \<Rightarrow> Scheduler \<Rightarrow> bool" for limits where
  new: "scheduler_reach limits (Scheduler_new limits)"
| enqueue: "scheduler_reach limits s \<Longrightarrow> scheduler_reach limits (snd (enqueue_of kind s v))"
| cycle: "scheduler_reach limits s \<Longrightarrow> scheduler_reach limits (snd (takeCycle s))"
| stop: "scheduler_reach limits s \<Longrightarrow> scheduler_reach limits (stopAdmission s)"
| classify: "scheduler_reach limits s \<Longrightarrow> scheduler_reach limits (snd (classifyRemainder s))"

lemma drain_queue_items:
  "drain_queue kind result queue = (result @ map (\<lambda>v. \<lparr>si_kind = kind, si_value = v\<rparr>) queue, [])"
  by (induction queue arbitrary: result) simp_all

lemma classify_empties: "queue_of kind (snd (classifyRemainder s)) = []"
  "limit_of kind (snd (classifyRemainder s)) = limit_of kind s"
  by (cases kind; simp add: classifyRemainder_def drain_queue_items)+

lemma within_iff: "sq.within kind s \<longleftrightarrow> length (queue_of kind s) \<le> limit_of kind s"
  by (simp add: sq.within_def)

lemma reach_within: "scheduler_reach limits s \<Longrightarrow> sq.within kind s"
proof (induction rule: scheduler_reach.induct)
  case new
  show ?case unfolding within_iff by (cases kind) (simp_all add: Scheduler_new_def)
next
  case (enqueue s k v)
  then show ?case
    using sq.push_within [of kind s v] by (cases "k = kind") (auto simp: within_iff enqueue_others)
next
  case (cycle s)
  then show ?case using sq.serve_within [of kind s] by (simp add: cycle_of_def)
next
  case (stop s)
  then show ?case by (simp add: within_iff stop_frames)
next
  case (classify s)
  then show ?case by (simp add: within_iff classify_empties)
qed

lemma reach_limits: "scheduler_reach limits s \<Longrightarrow> sch_limits s = limits"
proof (induction rule: scheduler_reach.induct)
  case (enqueue s k v)
  then show ?case
    by (cases k) (simp_all add: enqueueControl_def enqueuePacket_def enqueueReconciliation_def Let_def
        split: prod.split)
qed (simp_all add: Scheduler_new_def takeCycle_state stopAdmission_def classifyRemainder_def drain_queue_items)

text \<open>
  C32. Every queue of a reachable scheduler stays within its limit, and while the limits add up
  to less than a \<open>size_t\<close> the number of pending items is exact.
\<close>

lemma scheduler_bounded:
  assumes "scheduler_reach limits s"
    and "unat (lim_controlQueue limits) + unat (lim_packetQueue limits) +
      unat (lim_reconciliationQueue limits) < 2 ^ 64"
  shows "length (sch_control s) \<le> unat (lim_controlQueue limits) \<and>
    length (sch_packet s) \<le> unat (lim_packetQueue limits) \<and>
    length (sch_reconciliation s) \<le> unat (lim_reconciliationQueue limits) \<and>
    unat (pending_work s) = length (sch_control s) + length (sch_packet s) + length (sch_reconciliation s)"
proof -
  have bounds: "length (sch_control s) \<le> unat (lim_controlQueue limits)"
    "length (sch_packet s) \<le> unat (lim_packetQueue limits)"
    "length (sch_reconciliation s) \<le> unat (lim_reconciliationQueue limits)"
    using reach_within [OF assms(1), of CONTROL_WORK] reach_within [OF assms(1), of PACKET_WORK]
      reach_within [OF assms(1), of RECONCILIATION_WORK] reach_limits [OF assms(1)]
    by (simp_all add: within_iff)
  have "pending_work s = of_nat (length (sch_control s) + length (sch_packet s) + length (sch_reconciliation s))"
    by (simp add: pending_work_def)
  then have "unat (pending_work s) =
      length (sch_control s) + length (sch_packet s) + length (sch_reconciliation s)"
    using bounds assms(2) by (simp only: unat_of_nat_u64)
  with bounds show ?thesis by simp
qed

text \<open>
  C31. No starvation: of each kind, the item with \<open>k\<close> before it in its queue is taken at the
  latest by cycle number \<open>k + 1\<close>, however enqueues of any kind and a stop of admission interleave
  with the cycles; and nothing is lost, duplicated or reordered.
\<close>

lemma scheduler_fair:
  assumes "k < length (queue_of kind s)" "k < services acts"
  shows "let (ins, outs, s') = action_run (enqueue_of kind) (cycle_of kind) (other kind) acts s
    in k < length outs \<and> outs ! k = queue_of kind s ! k \<and>
       queue_of kind s @ ins = outs @ queue_of kind s'"
  using sq.run_bounded_wait [OF assms] sq.run_conserves [of kind s acts]
  by (simp add: Let_def split_beta)

text \<open>
  A burst of work fills its queue with the first items that fit, in order, and rejects the
  rest; after \<open>stopAdmission\<close> everything is rejected.
\<close>

lemma scheduler_admission:
  "queue_of kind (snd (offer_all (enqueue_of kind) vs s)) =
     queue_of kind s @ (if sch_accepting s then take (limit_of kind s - length (queue_of kind s)) vs else []) \<and>
   True \<notin> set (fst (offer_all (enqueue_of kind) vs (stopAdmission s)))"
proof -
  have "\<not> sch_accepting (stopAdmission s)" by (simp add: stopAdmission_def)
  then show ?thesis
    using sq.offer_contents [of s kind vs] sq.offer_closed [of s kind vs]
      sq.offer_closed [of "stopAdmission s" kind vs] by simp
qed

text \<open>
  C33. The shutdown path accounts for every pending item once, by kind and in queue order, and
  leaves nothing pending.
\<close>

lemma classify_complete:
  "fst (classifyRemainder s) =
     map (\<lambda>v. \<lparr>si_kind = CONTROL_WORK, si_value = v\<rparr>) (sch_control s) @
     map (\<lambda>v. \<lparr>si_kind = PACKET_WORK, si_value = v\<rparr>) (sch_packet s) @
     map (\<lambda>v. \<lparr>si_kind = RECONCILIATION_WORK, si_value = v\<rparr>) (sch_reconciliation s) \<and>
   pending_work (snd (classifyRemainder s)) = 0 \<and>
   sch_accepting (snd (classifyRemainder s)) = sch_accepting s"
  by (simp add: classifyRemainder_def drain_queue_items pending_work_def)

section \<open>Instances\<close>

definition busy_scheduler :: Scheduler where
  [model_defs]: "busy_scheduler =
     snd (enqueuePacket (snd (enqueuePacket (Scheduler_new CapacityLimits_default) ''p1'')) ''p2'')"

lemma scheduler_bounded_witness: "unat (pending_work busy_scheduler) = 2"
proof -
  have "scheduler_reach CapacityLimits_default busy_scheduler"
    unfolding busy_scheduler_def
    using scheduler_reach.enqueue [of CapacityLimits_default _ PACKET_WORK] scheduler_reach.new by simp
  from scheduler_bounded [OF this] show ?thesis by (simp add: model_defs)
qed

lemma scheduler_fair_witness:
  "fst (snd (action_run (enqueue_of PACKET_WORK) (cycle_of PACKET_WORK) (other PACKET_WORK)
     [Serve, Offer ''p3'', Idle (Other_Enqueue CONTROL_WORK ''c''), Serve] busy_scheduler)) ! 1 = ''p2''"
proof -
  have "1 < length (queue_of PACKET_WORK busy_scheduler)" by (simp add: model_defs)
  from scheduler_fair [OF this, of "[Serve, Offer ''p3'', Idle (Other_Enqueue CONTROL_WORK ''c''), Serve]"]
  show ?thesis by (simp add: split_beta) (simp add: model_defs)
qed

end
