(* ===== verification/Port_Sinks.thy ===== *)
theory Port_Sinks
  imports Bounded_Buffers Rule_Model
begin

text \<open>
  \<open>include/upf/ports\<close> and the small adapters: \<open>BoundedEventSink\<close> (bounded_event_sink.cpp),
  \<open>InMemoryPacketSink\<close> (in_memory_packet_sink.cpp) and \<open>SimulatedClock\<close> (simulated_clock.cpp).
  Each is a record of its members; both sinks interpret \<open>bounded_buffer\<close>.
\<close>

section \<open>The event sink\<close>

record BoundedEventSink =
  es_capacity :: size_t
  es_dropped :: size_t
  es_events :: "string list"

definition BoundedEventSink_new :: "size_t \<Rightarrow> BoundedEventSink" where
  [model_defs]: "BoundedEventSink_new capacity =
     \<lparr>es_capacity = capacity, es_dropped = 0, es_events = []\<rparr>"

definition emit :: "BoundedEventSink \<Rightarrow> string \<Rightarrow> bool \<times> BoundedEventSink" where
  [model_defs]: "emit sink event =
     (if length (es_events sink) \<ge> unat (es_capacity sink)
      then (False, if es_dropped sink \<noteq> - 1 then sink\<lparr>es_dropped := es_dropped sink + 1\<rparr> else sink)
      else (True, sink\<lparr>es_events := es_events sink @ [event]\<rparr>))"

definition BoundedEventSink_dropped :: "BoundedEventSink \<Rightarrow> size_t" where
  [model_defs]: "BoundedEventSink_dropped sink = es_dropped sink"

interpretation es: bounded_buffer emit es_events "\<lambda>s. unat (es_capacity s)" "\<lambda>_. True"
  by unfold_locales (auto simp: emit_def)

section \<open>The packet sink\<close>

record InMemoryPacketSink =
  ps_capacity :: size_t
  ps_packets :: "Packet list"

definition InMemoryPacketSink_new :: "size_t \<Rightarrow> InMemoryPacketSink" where
  [model_defs]: "InMemoryPacketSink_new capacity = \<lparr>ps_capacity = capacity, ps_packets = []\<rparr>"

definition accept :: "InMemoryPacketSink \<Rightarrow> Packet \<Rightarrow> bool \<times> InMemoryPacketSink" where
  [model_defs]: "accept sink packet =
     (if length (ps_packets sink) \<ge> unat (ps_capacity sink) then (False, sink)
      else (True, sink\<lparr>ps_packets := ps_packets sink @ [packet]\<rparr>))"

definition InMemoryPacketSink_size :: "InMemoryPacketSink \<Rightarrow> size_t" where
  [model_defs]: "InMemoryPacketSink_size sink = of_nat (length (ps_packets sink))"

interpretation ps: bounded_buffer accept ps_packets "\<lambda>s. unat (ps_capacity s)" "\<lambda>_. True"
  by unfold_locales (auto simp: accept_def)

section \<open>The clock\<close>

record SimulatedClock =
  clk_now :: u64

definition SimulatedClock_new :: SimulatedClock where
  [model_defs]: "SimulatedClock_new = \<lparr>clk_now = 0\<rparr>"

definition advanceTo :: "u64 \<Rightarrow> SimulatedClock \<Rightarrow> SimulatedClock" where
  [model_defs]: "advanceTo value clock = (if value \<ge> clk_now clock then clock\<lparr>clk_now := value\<rparr> else clock)"

section \<open>Properties\<close>

lemma emit_dropped:
  "unat (es_dropped (snd (emit s x))) =
     min (2 ^ 64 - 1) (unat (es_dropped s) + (if fst (emit s x) then 0 else 1))"
proof (cases "es_dropped s = - 1")
  case True
  then show ?thesis by (simp add: emit_def unat_max_u64)
next
  case False
  have "unat (es_dropped s) \<noteq> 2 ^ 64 - 1"
    using False unat_max_u64 word_unat_eq_iff by metis
  then have small: "unat (es_dropped s) + 1 < 2 ^ 64"
    using unat_u64_bound [of "es_dropped s"] by linarith
  then show ?thesis
    using False unat_add_exact [of "es_dropped s" 1] by (simp add: emit_def)
qed

lemma emits_dropped:
  "unat (es_dropped (snd (offer_all emit xs s))) =
     min (2 ^ 64 - 1) (unat (es_dropped s) + count_list (fst (offer_all emit xs s)) False)"
proof (induction xs arbitrary: s)
  case Nil
  show ?case using unat_u64_bound [of "es_dropped s"] by (simp add: min_def)
next
  case (Cons x xs)
  show ?case by (simp add: Let_def Cons.IH emit_dropped del: unat_of_nat) linarith
qed

text \<open>
  However many events are emitted, the event sink keeps the first ones up to its capacity in
  order and its counter tells how many it dropped, saturating at the largest \<open>size_t\<close>.
\<close>

lemma event_sink_accounts:
  "es_events (snd (offer_all emit xs (BoundedEventSink_new c))) = take (unat c) xs \<and>
   unat (BoundedEventSink_dropped (snd (offer_all emit xs (BoundedEventSink_new c)))) =
     min (2 ^ 64 - 1) (length xs - unat c)"
  by (simp add: BoundedEventSink_dropped_def es.offer_contents emits_dropped es.offer_rejected) (simp add: BoundedEventSink_new_def)

text \<open>
  The packet sink accepts packets up to its capacity and keeps them in order of arrival; its
  size is their number.
\<close>

lemma packet_sink_prefix:
  "ps_packets (snd (offer_all accept xs (InMemoryPacketSink_new c))) = take (unat c) xs \<and>
   unat (InMemoryPacketSink_size (snd (offer_all accept xs (InMemoryPacketSink_new c)))) =
     min (length xs) (unat c)"
proof -
  have contents: "ps_packets (snd (offer_all accept xs (InMemoryPacketSink_new c))) = take (unat c) xs"
    by (simp add: ps.offer_contents) (simp add: InMemoryPacketSink_new_def)
  have "min (length xs) (unat c) < 2 ^ 64" using unat_u64_bound [of c] by linarith
  then have "unat (of_nat (min (length xs) (unat c)) :: u64) = min (length xs) (unat c)"
    by (rule unat_of_nat_u64)
  with contents show ?thesis by (simp add: InMemoryPacketSink_size_def)
qed

text \<open>C32. The simulated clock never runs backwards: it shows the latest time it was sent.\<close>

lemma clock_latest:
  "clk_now (foldl (\<lambda>c v. advanceTo v c) clock vs) = Max (insert (clk_now clock) (set vs))"
proof (induction vs arbitrary: clock)
  case (Cons v vs)
  have "clk_now (advanceTo v clock) = max (clk_now clock) v"
    by (simp add: advanceTo_def max_def)
  then show ?case using Cons [of "advanceTo v clock"]
    by (cases "vs = []") (simp_all add: max.assoc max.left_commute)
qed simp

end
