(* ===== verification/Pipeline_History.thy ===== *)
theory Pipeline_History
  imports Pipeline_Safety
begin

text \<open>
  What the decisions of the pipeline say, and what they add up to. A decision states exactly how
  the packet changed its bucket, its counter and the report store (\<open>decision_truthful\<close>). Over a
  sequence of packets (\<open>pipeline_history\<close>) no usage report is issued twice. The steps for one
  bucket and one counter (\<open>potential_step\<close>, \<open>counter_step\<close>) carry the engine properties over to
  \<open>Pipeline_Sessions\<close>.
\<close>

section \<open>The three effects of a packet\<close>

definition committed :: "PacketDecision \<Rightarrow> bool" where
  "committed d \<longleftrightarrow> pd_terminalResult d \<in> {FORWARDED_TO_N3, FORWARDED_TO_N6, FAR_DROPPED}"

lemma process_effects:
  assumes inv: "pipeline_inv p" and run: "process pl ind packet runId scenarioId p = Some (d, q)"
  obtains (idle) "\<not> committed d" "pd_terminalResult d \<noteq> RATE_LIMITED" "pp_runtime q = pp_runtime p"
      "pp_reports q = pp_reports p"
      "length (pp_decisions p) < unat (lim_results (pp_limits p)) \<Longrightarrow> explains packet p d"
  | (limited) rules w x where "\<not> committed d" "pd_terminalResult d = RATE_LIMITED"
      "selected packet p rules w" "explains packet p d"
      "qer_outcome rules w packet (pp_runtime p) = Some x" "\<not> qd_allowed (qe_decision x)"
      "qe_failure x = RATE_LIMITED" "pp_runtime q = pp_runtime (with_bucket w (Some x) p)"
      "pp_reports q = pp_reports p"
  | (passed) rules w where "committed d" "selected packet p rules w" "explains packet p d"
      "admits (qer_outcome rules w packet (pp_runtime p))"
      "reportable p (urr_outcome rules w packet (pp_runtime p))"
      "pp_runtime q = pp_runtime (with_usage w (urr_outcome rules w packet (pp_runtime p))
         (with_bucket w (qer_outcome rules w packet (pp_runtime p)) p))"
      "pp_reports q = pp_reports (with_usage w (urr_outcome rules w packet (pp_runtime p)) p)"
proof (cases rule: process_cases [OF inv run, consumes 0, case_names capacity step])
  case capacity
  then show ?thesis using that(1) by (simp add: committed_def)
next
  case (step d0 q0)
  have same: "pp_runtime q = pp_runtime q0" "pp_reports q = pp_reports q0"
    by (simp_all add: step(4) frame_simps)
  have reports: "pp_reports (with_usage w u (with_bucket w e p)) = pp_reports (with_usage w u p)" for w u e
    by (simp add: with_usage_def frame_simps Let_def split: option.split)
  show ?thesis
    using step(2)
  proof (cases rule: packet_outcome.cases)
    case (denied rules w x)
    then show ?thesis using that(1) step(6) same by (auto simp: committed_def)
  next
    case (limited rules w x)
    then show ?thesis using that(2) step(6) same by (simp add: committed_def frame_simps)
  next
    case (dropped rules w e u far)
    then show ?thesis using that(3) step(6) same by (simp add: committed_def reports)
  next
    case (forwarded rules w e u far i)
    then have "committed d" by (cases i) (simp_all add: committed_def forwarded_result_def)
    then show ?thesis
      using forwarded that(3) step(6) same by (simp add: frame_simps reports)
  qed (use that(1) step(6) same in \<open>auto simp: committed_def\<close>)
qed

section \<open>What the engines write\<close>

lemma evaluateQer_writes:
  defines "f \<equiv> \<lambda>qer s n now. qe_decision (evaluateQer qer s n now)"
  shows "qd_applicable (f qer s n now)" "qd_qerId (f qer s n now) = qer_key qer"
    "qd_tokensBefore (f qer s n now) = tb_tokensBytes s" "qd_packetChargeBytes (f qer s n now) = n"
    "qd_allowed (f qer s n now) \<or> qe_failure (evaluateQer qer s n now) = RATE_LIMITED \<Longrightarrow>
       qd_tokensAfter (f qer s n now) = tb_tokensBytes (qe_next (evaluateQer qer s n now)) \<and>
       tb_lastRefillMicros (qe_next (evaluateQer qer s n now)) = now"
  by (auto simp: f_def evaluateQer_def QerDecision_new_def Let_def split: option.splits if_splits)

lemma evaluateUrr_writes:
  defines "f \<equiv> \<lambda>urr s n sid v. ue_decision (evaluateUrr urr s n sid v)"
  shows "ud_applicable (f urr s n sid v)" "ud_urrId (f urr s n sid v) = urr_key urr"
    "ud_packetsBefore (f urr s n sid v) = uc_packets s" "ud_bytesBefore (f urr s n sid v) = uc_payloadBytes s"
    "\<not> ue_overflow (evaluateUrr urr s n sid v) \<Longrightarrow>
       ud_packetsAfter (f urr s n sid v) = uc_packets (ue_next (evaluateUrr urr s n sid v)) \<and>
       ud_bytesAfter (f urr s n sid v) = uc_payloadBytes (ue_next (evaluateUrr urr s n sid v))"
    "ud_reportId (f urr s n sid v) = '''' \<longleftrightarrow> \<not> ue_reportGenerated (evaluateUrr urr s n sid v)"
  by (auto simp: f_def evaluateUrr_def UrrDecision_new_def report_id_def Let_def split: option.splits if_splits)

lemma winner_qer:
  assumes "pipeline_ruled p" "selected packet p rules w"
  obtains (none) "pdr_qerId w = None" "qer_outcome rules w packet (pp_runtime p) = None"
  | (some) i qer s where "pdr_qerId w = Some i" "qer \<in> set (rs_qers rules)" "qer_id qer = i"
      "rt_qers (pp_runtime p) (id_value i) = Some s"
      "qer_outcome rules w packet (pp_runtime p) =
         Some (evaluateQer qer s (ucast (pkt_payloadBytes packet)) (pkt_arrivalTimeMicros packet))"
proof (cases "pdr_qerId w")
  case None
  then show ?thesis using that(1) by (simp add: qer_outcome_def)
next
  case (Some i)
  have "pp_rules p = Some rules" "w \<in> set (rs_pdrs rules)"
    using assms(2) by (auto simp: selected_def accepted_def dest: is_winnerD)
  then obtain qer s where look: "findQer rules i = Some qer" "qer_id qer = i"
    "rt_qers (pp_runtime p) (id_value i) = Some s"
    by (rule qer_lookup [OF assms(1) _ _ Some])
  show ?thesis
    by (rule that(2) [OF Some qers.lookup_mem [OF look(1)] look(2,3)]) (simp add: qer_outcome_def Some look)
qed

lemma winner_urr:
  assumes "pipeline_ruled p" "selected packet p rules w"
  obtains (none) "pdr_urrId w = None" "urr_outcome rules w packet (pp_runtime p) = None"
  | (some) i urr s where "pdr_urrId w = Some i" "urr \<in> set (rs_urrs rules)" "urr_id urr = i"
      "rt_urrs (pp_runtime p) (id_value i) = Some s"
      "urr_outcome rules w packet (pp_runtime p) =
         Some (evaluateUrr urr s (ucast (pkt_payloadBytes packet)) (rs_sessionId rules) (rs_version rules))"
proof (cases "pdr_urrId w")
  case None
  then show ?thesis using that(1) by (simp add: urr_outcome_def)
next
  case (Some i)
  have "pp_rules p = Some rules" "w \<in> set (rs_pdrs rules)"
    using assms(2) by (auto simp: selected_def accepted_def dest: is_winnerD)
  then obtain urr s where look: "findUrr rules i = Some urr" "urr_id urr = i"
    "rt_urrs (pp_runtime p) (id_value i) = Some s"
    by (rule urr_lookup [OF assms(1) _ _ Some])
  show ?thesis
    by (rule that(2) [OF Some urrs.lookup_mem [OF look(1)] look(2,3)]) (simp add: urr_outcome_def Some look)
qed

text \<open>What \<open>explains\<close> says once the PDR is known.\<close>

lemma explains_selected:
  assumes "explains packet p d" "selected packet p rules w"
  shows "pd_qer d = qer_facts (qer_outcome rules w packet (pp_runtime p))"
    "admits (qer_outcome rules w packet (pp_runtime p)) \<Longrightarrow>
       pd_urr d = urr_facts (urr_outcome rules w packet (pp_runtime p))"
    "\<not> admits (qer_outcome rules w packet (pp_runtime p)) \<Longrightarrow> pd_urr d = UrrDecision_new"
  using assms by (auto simp: explains_def)

section \<open>The decision tells the truth\<close>

text \<open>A QER decision against the buckets before and after, when it took effect and when it did not.\<close>

definition bucket_told ::
  "Packet \<Rightarrow> QerDecision \<Rightarrow> bool \<Rightarrow> (u32 \<rightharpoonup> TokenBucketState) \<Rightarrow> (u32 \<rightharpoonup> TokenBucketState) \<Rightarrow> bool"
where
  "bucket_told packet f effective m m' \<longleftrightarrow>
     (if qd_applicable f
      then \<exists>s. m (qd_qerId f) = Some s \<and> qd_tokensBefore f = tb_tokensBytes s \<and>
        qd_packetChargeBytes f = ucast (pkt_payloadBytes packet) \<and>
        (if effective
         then \<exists>t. m' = m(qd_qerId f \<mapsto> t) \<and> qd_tokensAfter f = tb_tokensBytes t \<and>
           tb_lastRefillMicros t = pkt_arrivalTimeMicros packet
         else m' = m)
      else m' = m)"

definition usage_told ::
  "UrrDecision \<Rightarrow> bool \<Rightarrow> (u32 \<rightharpoonup> UsageCounterState) \<times> string list \<Rightarrow>
   (u32 \<rightharpoonup> UsageCounterState) \<times> string list \<Rightarrow> bool"
where
  "usage_told f effective before after \<longleftrightarrow>
     (if ud_applicable f
      then \<exists>s. fst before (ud_urrId f) = Some s \<and> ud_packetsBefore f = uc_packets s \<and>
        ud_bytesBefore f = uc_payloadBytes s \<and>
        (if effective
         then (\<exists>t. fst after = (fst before)(ud_urrId f \<mapsto> t) \<and> ud_packetsAfter f = uc_packets t \<and>
             ud_bytesAfter f = uc_payloadBytes t) \<and>
           snd after = snd before @ (if ud_reportId f = '''' then [] else [ud_reportId f])
         else after = before)
      else after = before)"

abbreviation usage_state :: "PacketPipeline \<Rightarrow> (u32 \<rightharpoonup> UsageCounterState) \<times> string list" where
  "usage_state p \<equiv> (rt_urrs (pp_runtime p), pp_reports p)"

abbreviation takes_effect :: "PacketDecision \<Rightarrow> bool" where
  "takes_effect d \<equiv> committed d \<or> pd_terminalResult d = RATE_LIMITED"

lemma blank_applies: "\<not> qd_applicable QerDecision_new" "\<not> ud_applicable UrrDecision_new"
  "\<not> qd_applicable (qer_facts None)" "\<not> ud_applicable (urr_facts None)"
  by (simp_all add: QerDecision_new_def UrrDecision_new_def qer_facts_def urr_facts_def)

lemma bucket_told_selected:
  assumes "pipeline_ruled p" "selected packet p rules w" "explains packet p d"
    and "eff \<Longrightarrow> \<exists>x. qer_outcome rules w packet (pp_runtime p) = Some x \<Longrightarrow>
      qd_allowed (pd_qer d) \<or> qe_failure (the (qer_outcome rules w packet (pp_runtime p))) = RATE_LIMITED"
    and "m' = (if eff then rt_qers (pp_runtime (with_bucket w (qer_outcome rules w packet (pp_runtime p)) p))
      else rt_qers (pp_runtime p))"
  shows "bucket_told packet (pd_qer d) eff (rt_qers (pp_runtime p)) m'"
proof (cases rule: winner_qer [OF assms(1,2), consumes 0, case_names none some])
  case none
  then show ?thesis
    using explains_selected(1) [OF assms(3,2)] assms(5)
    by (simp add: bucket_told_def blank_applies with_bucket_def)
next
  case (some i qer s)
  let ?x = "evaluateQer qer s (ucast (pkt_payloadBytes packet)) (pkt_arrivalTimeMicros packet)"
  have f: "pd_qer d = qe_decision ?x"
    using explains_selected(1) [OF assms(3,2)] some(5) by (simp add: qer_facts_def)
  have "eff \<Longrightarrow> qd_tokensAfter (pd_qer d) = tb_tokensBytes (qe_next ?x) \<and>
      tb_lastRefillMicros (qe_next ?x) = pkt_arrivalTimeMicros packet"
    unfolding f using assms(4) some(5) f by (intro evaluateQer_writes(5)) auto
  then show ?thesis
    using some assms(5) by (auto simp: bucket_told_def f evaluateQer_writes with_bucket_def)
qed

lemma usage_told_selected:
  assumes "pipeline_ruled p" "selected packet p rules w" "explains packet p d"
    and "eff \<Longrightarrow> admits (qer_outcome rules w packet (pp_runtime p)) \<and>
      reportable p (urr_outcome rules w packet (pp_runtime p))"
    and "after = (if eff then usage_state (with_usage w (urr_outcome rules w packet (pp_runtime p)) p)
      else usage_state p)"
  shows "usage_told (pd_urr d) eff (usage_state p) after"
proof (cases "admits (qer_outcome rules w packet (pp_runtime p))")
  case False
  then show ?thesis
    using explains_selected(3) [OF assms(3,2)] assms(4,5)
    by (cases eff) (simp_all add: usage_told_def blank_applies)
next
  case True
  note f = explains_selected(2) [OF assms(3,2) True]
  show ?thesis
  proof (cases rule: winner_urr [OF assms(1,2), consumes 0, case_names none some])
    case none
    then show ?thesis using f assms(5) by (simp add: usage_told_def blank_applies with_usage_def)
  next
    case (some i urr s)
    let ?x = "evaluateUrr urr s (ucast (pkt_payloadBytes packet)) (rs_sessionId rules) (rs_version rules)"
    have f: "pd_urr d = ue_decision ?x" using f some(5) by (simp add: urr_facts_def)
    have "eff \<Longrightarrow> \<not> ue_overflow ?x" using assms(4) some(5) by (auto simp: reportable_def)
    then show ?thesis
      using some assms(5) by (auto simp: usage_told_def f evaluateUrr_writes with_usage_def Let_def)
  qed
qed

lemma with_both_frames [frame_simps]:
  "rt_qers (pp_runtime (with_usage w u (with_bucket v e p))) = rt_qers (pp_runtime (with_bucket v e p))"
  "rt_urrs (pp_runtime (with_usage w u (with_bucket v e p))) = rt_urrs (pp_runtime (with_usage w u p))"
  by (simp_all add: with_usage_def with_bucket_def Let_def split: option.split)

lemma process_told:
  assumes inv: "pipeline_inv p" and run: "process pl ind packet runId scenarioId p = Some (d, q)"
    and room: "length (pp_decisions p) < unat (lim_results (pp_limits p))"
  shows "bucket_told packet (pd_qer d) (takes_effect d) (rt_qers (pp_runtime p)) (rt_qers (pp_runtime q)) \<and>
    usage_told (pd_urr d) (committed d) (usage_state p) (usage_state q)"
proof (cases rule: process_effects [OF inv run, consumes 0, case_names idle limited passed])
  case idle
  note explained = idle(5) [OF room]
  have ruled: "pipeline_ruled p" using inv by (simp add: pipeline_inv_def)
  show ?thesis
  proof (cases "\<exists>rules w. selected packet p rules w")
    case True
    then obtain rules w where sel: "selected packet p rules w" by blast
    from bucket_told_selected [OF ruled sel explained, of False] usage_told_selected [OF ruled sel explained, of False]
    show ?thesis using idle(1-4) by simp
  next
    case False
    then show ?thesis
      using explained idle(1-4)
      by (simp add: explains_def blank_def bucket_told_def usage_told_def blank_applies)
  qed
next
  case (limited rules w x)
  have ruled: "pipeline_ruled p" using inv by (simp add: pipeline_inv_def)
  from bucket_told_selected [OF ruled limited(3,4), of True] usage_told_selected [OF ruled limited(3,4), of False]
  show ?thesis using limited by (simp add: frame_simps)
next
  case (passed rules w)
  have ruled: "pipeline_ruled p" using inv by (simp add: pipeline_inv_def)
  have "qd_allowed (pd_qer d)"
    using passed(4) explains_selected(1) [OF passed(3,2)]
    by (auto simp: qer_facts_def admits_def split: option.splits)
  with bucket_told_selected [OF ruled passed(2,3), of True] usage_told_selected [OF ruled passed(2,3), of True]
  show ?thesis using passed by (simp add: frame_simps)
qed


section \<open>Histories\<close>

inductive pipeline_history ::
  "platform \<Rightarrow> indeterminate \<Rightarrow> PacketPipeline \<Rightarrow> (Packet \<times> PacketDecision) list \<Rightarrow> PacketPipeline \<Rightarrow> bool"
  for pl ind
where
  nil: "pipeline_history pl ind p [] p"
| cons: "process pl ind packet runId scenarioId p = Some (d, p') \<Longrightarrow> pipeline_history pl ind p' tr q \<Longrightarrow>
    pipeline_history pl ind p ((packet, d) # tr) q"

definition charged_to :: "u32 \<Rightarrow> PacketDecision \<Rightarrow> bool" where
  "charged_to k d \<longleftrightarrow> committed d \<and> qd_applicable (pd_qer d) \<and> qd_qerId (pd_qer d) = k"

definition counted_on :: "u32 \<Rightarrow> PacketDecision \<Rightarrow> bool" where
  "counted_on k d \<longleftrightarrow> committed d \<and> ud_applicable (pd_urr d) \<and> ud_urrId (pd_urr d) = k"

text \<open>The packets of a history whose decision satisfies a condition, and their payload.\<close>

definition packets_with :: "(PacketDecision \<Rightarrow> bool) \<Rightarrow> (Packet \<times> PacketDecision) list \<Rightarrow> Packet list" where
  "packets_with P tr = map fst (filter (\<lambda>(packet, d). P d) tr)"

definition payload :: "Packet list \<Rightarrow> nat" where
  "payload ps = sum_list (map (\<lambda>packet. unat (pkt_payloadBytes packet)) ps)"

lemma packets_with_simps [simp]:
  "packets_with P [] = []"
  "packets_with P ((packet, d) # tr) = (if P d then packet # packets_with P tr else packets_with P tr)"
  "payload [] = 0" "payload (packet # ps) = unat (pkt_payloadBytes packet) + payload ps"
  by (simp_all add: packets_with_def payload_def)

section \<open>The rate on the wire\<close>

lemma same_key:
  "ruleset_valid rules \<Longrightarrow> a \<in> set (rs_qers rules) \<Longrightarrow> b \<in> set (rs_qers rules) \<Longrightarrow> qer_key a = qer_key b \<Longrightarrow> a = b"
  "ruleset_valid rules \<Longrightarrow> c \<in> set (rs_urrs rules) \<Longrightarrow> e \<in> set (rs_urrs rules) \<Longrightarrow> urr_key c = urr_key e \<Longrightarrow> c = e"
  by (auto simp: ruleset_valid_def uniqueIds_iff dest: distinct_map_eqD intro: RuleId.expand)

lemma bucket_step:
  assumes inv: "pipeline_inv p" and run: "process pl ind packet runId scenarioId p = Some (d, q)"
    and rules: "pp_rules p = Some rules" "qer \<in> set (rs_qers rules)"
    and s: "rt_qers (pp_runtime p) (qer_key qer) = Some s"
  defines "x \<equiv> evaluateQer qer s (ucast (pkt_payloadBytes packet)) (pkt_arrivalTimeMicros packet)"
  shows "(rt_qers (pp_runtime q) (qer_key qer) = Some s \<and> \<not> charged_to (qer_key qer) d) \<or>
    (rt_qers (pp_runtime q) (qer_key qer) = Some (qe_next x) \<and>
     (charged_to (qer_key qer) d \<longrightarrow> qd_allowed (qe_decision x)))"
proof -
  have ruled: "pipeline_ruled p" and valid: "ruleset_valid rules"
    using inv rules by (auto simp: pipeline_inv_def pipeline_ruled_def)
  have own: "qer' = qer \<and> s' = s" if "selected packet p rules' w" "qer' \<in> set (rs_qers rules')"
      "qer_key qer' = qer_key qer" "rt_qers (pp_runtime p) (qer_key qer') = Some s'" for rules' w qer' s'
    using that s rules same_key(1) [OF valid] by (auto simp: selected_def accepted_def)
  show ?thesis
  proof (cases rule: process_effects [OF inv run, consumes 0, case_names idle limited passed])
    case idle
    then show ?thesis using s by (simp add: charged_to_def)
  next
    case (limited rules' w y)
    show ?thesis
    proof (cases rule: winner_qer [OF ruled limited(3), consumes 0, case_names none some])
      case (some i qer' s')
      then show ?thesis
        using limited s own [OF limited(3) some(2)] by (auto simp: with_bucket_def charged_to_def x_def)
    qed (use limited in simp)
  next
    case (passed rules' w)
    show ?thesis
    proof (cases rule: winner_qer [OF ruled passed(2), consumes 0, case_names none some])
      case none
      then show ?thesis
        using passed s explains_selected(1) [OF passed(3,2)]
        by (simp add: frame_simps with_bucket_def charged_to_def blank_applies)
    next
      case (some i qer' s')
      then show ?thesis
        using passed s own [OF passed(2) some(2)] explains_selected(1) [OF passed(3,2)]
        by (auto simp: frame_simps with_bucket_def charged_to_def qer_facts_def evaluateQer_writes admits_def x_def)
    qed
  qed
qed

lemma allowed_verdict: "qd_allowed (qe_decision x) \<Longrightarrow> fst (abs_qer x) = Allowed"
  by (simp add: abs_qer_def)

text \<open>One packet against the potential of the bucket; charged payload is paid from it.\<close>

lemma potential_step:
  assumes inv: "pipeline_inv p" and run: "process pl ind packet runId scenarioId p = Some (d, q)"
    and rules: "pp_rules p = Some rules" "qer \<in> set (rs_qers rules)"
    and s: "rt_qers (pp_runtime p) (qer_key qer) = Some s"
  obtains t where "rt_qers (pp_runtime q) (qer_key qer) = Some t" "b_last (abs_bucket s) \<le> b_last (abs_bucket t)"
    "8000000 * (if charged_to (qer_key qer) d then unat (pkt_payloadBytes packet) else 0) + potential (abs_bucket t) \<le>
      potential (abs_bucket s) + (b_last (abs_bucket t) - b_last (abs_bucket s)) * unat (qer_rateBitsPerSecond qer)"
  using bucket_step [OF assms]
proof (elim disjE conjE)
  let ?k = "qer_key qer"
  define x where "x = evaluateQer qer s (ucast (pkt_payloadBytes packet)) (pkt_arrivalTimeMicros packet)"
  assume moved: "rt_qers (pp_runtime q) ?k = Some (qe_next (evaluateQer qer s
      (ucast (pkt_payloadBytes packet)) (pkt_arrivalTimeMicros packet)))"
    "charged_to ?k d \<longrightarrow> qd_allowed (qe_decision (evaluateQer qer s
      (ucast (pkt_payloadBytes packet)) (pkt_arrivalTimeMicros packet)))"
  note step = evaluateQer_step(1,2) [where qer = qer and s = s and charge = "ucast (pkt_payloadBytes packet)"
      and now = "pkt_arrivalTimeMicros packet", folded x_def]
  have "charged_to ?k d \<Longrightarrow> charged (fst (abs_qer x)) (unat (ucast (pkt_payloadBytes packet) :: u64)) =
      unat (pkt_payloadBytes packet)"
    using moved(2) allowed_verdict by (simp add: charged_def x_def unat_u32_le_u64)
  then have "8000000 * (if charged_to ?k d then unat (pkt_payloadBytes packet) else 0) \<le>
      8000000 * charged (fst (abs_qer x)) (unat (ucast (pkt_payloadBytes packet) :: u64))"
    by simp
  with step show ?thesis using moved(1) by (intro that [of "qe_next x"]) (simp_all add: x_def)
qed (use that in simp)

section \<open>Counters and reports\<close>

text \<open>The report a decision issues, and what a packet does to the counters.\<close>

definition issued :: "PacketDecision \<Rightarrow> string list" where
  "issued d = (if committed d \<and> ud_reportId (pd_urr d) \<noteq> '''' then [ud_reportId (pd_urr d)] else [])"

definition reports_of :: "(Packet \<times> PacketDecision) list \<Rightarrow> string list" where
  "reports_of tr = concat (map (\<lambda>(packet, d). issued d) tr)"

lemma reports_of_simps [simp]:
  "reports_of [] = []" "reports_of ((packet, d) # tr) = issued d @ reports_of tr"
  by (simp_all add: reports_of_def)

lemma process_counters:
  assumes inv: "pipeline_inv p" and run: "process pl ind packet runId scenarioId p = Some (d, q)"
  obtains (idle) "rt_urrs (pp_runtime q) = rt_urrs (pp_runtime p)" "pp_reports q = pp_reports p"
      "\<And>k. \<not> counted_on k d" "issued d = []"
  | (counted) rules urr s y where "pp_rules p = Some rules" "urr \<in> set (rs_urrs rules)" "rt_urrs (pp_runtime p) (urr_key urr) = Some s"
      "y = evaluateUrr urr s (ucast (pkt_payloadBytes packet)) (rs_sessionId rules) (rs_version rules)"
      "\<not> ue_overflow y" "rt_urrs (pp_runtime q) = (rt_urrs (pp_runtime p))(urr_key urr \<mapsto> ue_next y)"
      "\<And>k. counted_on k d \<longleftrightarrow> k = urr_key urr" "pp_reports q = pp_reports p @ issued d"
      "issued d = (if ue_reportGenerated y
         then [report_id (rs_sessionId rules) (urr_key urr) (urr_generation urr) (rs_version rules)] else [])"
proof (cases rule: process_effects [OF inv run, consumes 0, case_names idle limited passed])
  case idle
  then show ?thesis using that(1) by (simp add: counted_on_def issued_def)
next
  case (limited rules' w x)
  then show ?thesis using that(1) by (simp add: counted_on_def issued_def frame_simps)
next
  case (passed rules w)
  have ruled: "pipeline_ruled p" and rules: "pp_rules p = Some rules"
    using inv passed(2) by (simp_all add: pipeline_inv_def selected_def accepted_def)
  note told = explains_selected(2) [OF passed(3,2,4)]
  show ?thesis
  proof (cases rule: winner_urr [OF ruled passed(2), consumes 0, case_names none some])
    case none
    then show ?thesis
      using passed told blank_applies
      by (intro that(1)) (simp_all add: counted_on_def issued_def frame_simps with_usage_def UrrDecision_new_def urr_facts_def)
  next
    case (some i urr s)
    let ?y = "evaluateUrr urr s (ucast (pkt_payloadBytes packet)) (rs_sessionId rules) (rs_version rules)"
    have urr: "urr_outcome rules w packet (pp_runtime p) = Some ?y" "urr_key urr = id_value i"
      using some by simp_all
    have d: "pd_urr d = ue_decision ?y" and room: "\<not> ue_overflow ?y"
      using told passed(5) urr by (simp_all add: urr_facts_def reportable_def)
    have issued: "issued d = (if ue_reportGenerated ?y then [ud_reportId (pd_urr d)] else [])"
      using passed(1) evaluateUrr_writes(6) by (auto simp: issued_def d)
    show ?thesis
      by (rule that(2) [of rules urr s ?y])
        (use some urr rules room issued passed in \<open>auto simp: frame_simps with_usage_def Let_def
          counted_on_def d evaluateUrr_writes evaluateUrr_report\<close>)
  qed
qed

lemma counter_step:
  assumes inv: "pipeline_inv p" and run: "process pl ind packet runId scenarioId p = Some (d, q)"
    and s: "rt_urrs (pp_runtime p) k = Some s"
  obtains t where "rt_urrs (pp_runtime q) k = Some t"
    "unat (uc_packets t) = unat (uc_packets s) + (if counted_on k d then 1 else 0)"
    "unat (uc_payloadBytes t) =
      unat (uc_payloadBytes s) + (if counted_on k d then unat (pkt_payloadBytes packet) else 0)"
    "uc_reportEmitted s \<longrightarrow> uc_reportEmitted t"
    "counted_on k d \<and> issued d \<noteq> [] \<longleftrightarrow> uc_reportEmitted t \<and> \<not> uc_reportEmitted s"
proof (cases rule: process_counters [OF inv run, consumes 0, case_names idle counted])
  case idle
  then show ?thesis using that s by simp
next
  case (counted rules urr s0 y)
  note counts = evaluateUrr_counts [OF counted(5) [unfolded counted(4)], folded counted(4)]
  show ?thesis
    by (rule that [of "if counted_on k d then ue_next y else s"])
      (use counted s counts in \<open>auto simp: unat_u32_le_u64\<close>)
qed

text \<open>Every report issued belongs to a URR of the rule set that had not reported before.\<close>

definition unreported :: "PacketPipeline \<Rightarrow> string set" where
  "unreported p = {r. \<exists>rules urr s. pp_rules p = Some rules \<and> urr \<in> set (rs_urrs rules) \<and>
     rt_urrs (pp_runtime p) (urr_key urr) = Some s \<and> \<not> uc_reportEmitted s \<and>
     r = report_id (rs_sessionId rules) (urr_key urr) (urr_generation urr) (rs_version rules)}"

lemma process_issues:
  assumes inv: "pipeline_inv p" and run: "process pl ind packet runId scenarioId p = Some (d, q)"
  shows "pp_reports q = pp_reports p @ issued d \<and> distinct (issued d) \<and> set (issued d) \<subseteq> unreported p \<and>
    unreported q \<subseteq> unreported p - set (issued d)"
proof (cases rule: process_counters [OF inv run, consumes 0, case_names idle counted])
  case idle
  then show ?thesis using process_rules [OF inv run] by (simp add: unreported_def)
next
  case (counted rules urr s y)
  note counts = evaluateUrr_counts [OF counted(5) [unfolded counted(4)], folded counted(4)]
  have rules: "pp_rules q = Some rules" using process_rules [OF inv run] counted(1) by simp
  have new: "set (issued d) \<subseteq> unreported p"
    using counted(1-3,9) counts(4) unfolding unreported_def by (cases "ue_reportGenerated y") auto
  have "r \<in> unreported p \<and> r \<notin> set (issued d)" if "r \<in> unreported q" for r
  proof -
    from that obtain urr' s' where r: "urr' \<in> set (rs_urrs rules)"
      "rt_urrs (pp_runtime q) (urr_key urr') = Some s'" "\<not> uc_reportEmitted s'"
      "r = report_id (rs_sessionId rules) (urr_key urr') (urr_generation urr') (rs_version rules)"
      unfolding unreported_def using rules by auto
    show ?thesis
    proof (cases "urr_key urr' = urr_key urr")
      case True
      then have "s' = ue_next y" using r(2) counted(6) by simp
      then have "\<not> uc_reportEmitted s" "issued d = []" using r(3) counts(3,4) counted(9) by auto
      then show ?thesis using r(1,4) True counted(1,3) unfolding unreported_def by auto
    next
      case False
      then have "rt_urrs (pp_runtime p) (urr_key urr') = Some s'" using r(2) counted(6) by simp
      moreover have "r \<notin> set (issued d)" using False counted(9) r(4) by (simp add: report_id_inj)
      ultimately show ?thesis using r(1,3,4) counted(1) unfolding unreported_def by blast
    qed
  qed
  then show ?thesis using new counted(8,9) by auto
qed

lemma history_reports:
  assumes "pipeline_history pl ind p tr q" "pipeline_inv p"
  shows "pp_reports q = pp_reports p @ reports_of tr \<and> distinct (reports_of tr) \<and>
    set (reports_of tr) \<subseteq> unreported p \<and> unreported q \<subseteq> unreported p - set (reports_of tr)"
  using assms
proof (induction rule: pipeline_history.induct)
  case (cons packet runId scenarioId p d p' tr q)
  have step: "pp_reports p' = pp_reports p @ issued d" "distinct (issued d)" "set (issued d) \<subseteq> unreported p"
    "unreported p' \<subseteq> unreported p - set (issued d)"
    using process_issues [OF cons.prems cons.hyps(1)] by blast+
  from cons.IH [OF process_inv [OF cons.prems cons.hyps(1)]] step show ?case
    by auto
qed simp

section \<open>Properties of a history\<close>

text \<open>
  C10. No usage is reported twice. Over any sequence of packets the report store grows by exactly
  the reports the decisions issued, in order and all different, each one for a URR of the rule
  set whose counter had not reported before and is marked as reported afterwards.
\<close>

lemma reports_once:
  assumes "pipeline_reach pl ind p" "pipeline_history pl ind p tr q"
  shows "pp_reports q = pp_reports p @ reports_of tr \<and> distinct (reports_of tr) \<and>
    set (reports_of tr) \<subseteq> unreported p - unreported q"
  using history_reports [OF assms(2) reach_inv [OF assms(1)]] by blast

section \<open>Concrete instances\<close>


text \<open>Two packets of 12000 bytes: the first reaches the threshold of the URR, the second only counts.\<close>

definition ul_volume :: Packet where
  "ul_volume = ul_packet\<lparr>pkt_payloadBytes := 12000\<rparr>"

definition ul_later :: Packet where
  "ul_later = ul_volume\<lparr>pkt_arrivalTimeMicros := 10000\<rparr>"

definition ul_first :: "PacketDecision \<times> PacketPipeline" where
  "ul_first = the (process dotted_platform zero_memory ul_volume [] [] ul_start)"

definition ul_second :: "PacketDecision \<times> PacketPipeline" where
  "ul_second = the (process dotted_platform zero_memory ul_later [] [] (snd ul_first))"

definition ul_trace :: "(Packet \<times> PacketDecision) list" where
  "ul_trace = [(ul_volume, fst ul_first), (ul_later, fst ul_second)]"

lemmas ul_trace_defs = ul_trace_def ul_second_def ul_first_def ul_later_def ul_volume_def ul_start_def

lemma ul_trace_process:
  "process dotted_platform zero_memory ul_volume [] [] ul_start = Some (fst ul_first, snd ul_first)"
  "process dotted_platform zero_memory ul_later [] [] (snd ul_first) = Some (fst ul_second, snd ul_second)"
  by (simp_all add: ul_trace_defs model_defs)

lemma ul_trace_history: "pipeline_history dotted_platform zero_memory ul_start ul_trace (snd ul_second)"
  unfolding ul_trace_def
  by (rule pipeline_history.cons [OF ul_trace_process(1) pipeline_history.cons [OF ul_trace_process(2) pipeline_history.nil]])

lemma ul_trace_reports: "reports_of ul_trace = [report_id ''session-1'' 40 1 3]"
  by (simp add: ul_trace_defs issued_def committed_def report_id_def model_defs)

lemma reports_once_witness:
  "pp_reports (snd ul_second) = pp_reports ul_start @ [report_id ''session-1'' 40 1 3]"
  using reports_once [OF ul_start_reach ul_trace_history] by (simp add: ul_trace_reports)

end
