(* ===== verification/Pipeline_Sessions.thy ===== *)
theory Pipeline_Sessions
  imports Pipeline_History
begin

text \<open>
  Packets and rule updates in any order (\<open>pipeline_session\<close>): as long as every installed rule set
  keeps a URR at its generation, its counter runs on exactly and it reports at most once. This
  composes \<open>process\<close> with the migration contract of \<open>install\<close>.
\<close>

section \<open>Sessions\<close>

datatype session_event = Decided Packet PacketDecision | Installed RuleSet | Refused RuleSet

inductive pipeline_session ::
  "platform \<Rightarrow> indeterminate \<Rightarrow> PacketPipeline \<Rightarrow> session_event list \<Rightarrow> PacketPipeline \<Rightarrow> bool"
  for pl ind
where
  nil: "pipeline_session pl ind p [] p"
| decided: "process pl ind packet runId scenarioId p = Some (d, p') \<Longrightarrow> pipeline_session pl ind p' tr q \<Longrightarrow>
    pipeline_session pl ind p (Decided packet d # tr) q"
| installed: "install rules p = (success (), p') \<Longrightarrow> pipeline_session pl ind p' tr q \<Longrightarrow>
    pipeline_session pl ind p (Installed rules # tr) q"
| refused: "install rules p = (failure e, p') \<Longrightarrow> pipeline_session pl ind p' tr q \<Longrightarrow>
    pipeline_session pl ind p (Refused rules # tr) q"

text \<open>The packets of a session with their decisions.\<close>

fun decided_in :: "session_event list \<Rightarrow> (Packet \<times> PacketDecision) list" where
  "decided_in [] = []"
| "decided_in (Decided packet d # tr) = (packet, d) # decided_in tr"
| "decided_in (Installed rules # tr) = decided_in tr"
| "decided_in (Refused rules # tr) = decided_in tr"

lemma history_is_session:
  "pipeline_history pl ind p tr q \<Longrightarrow>
   pipeline_session pl ind p (map (\<lambda>(packet, d). Decided packet d) tr) q"
  by (induction rule: pipeline_history.induct) (auto intro: pipeline_session.intros)

lemma decided_in_history: "decided_in (map (\<lambda>(packet, d). Decided packet d) tr) = tr"
  by (induction tr) auto

text \<open>Every rule set installed on the way has the URR \<open>k\<close> at generation \<open>g\<close>.\<close>

definition keeps_urr :: "u32 \<Rightarrow> u32 \<Rightarrow> session_event list \<Rightarrow> bool" where
  "keeps_urr k g tr \<longleftrightarrow> (\<forall>rules. Installed rules \<in> set tr \<longrightarrow>
     (\<exists>urr \<in> set (rs_urrs rules). urr_key urr = k \<and> urr_generation urr = g))"

lemma keeps_urr_simps [simp]:
  "keeps_urr k g (Decided packet d # tr) \<longleftrightarrow> keeps_urr k g tr"
  "keeps_urr k g (Refused rules # tr) \<longleftrightarrow> keeps_urr k g tr"
  "keeps_urr k g (Installed rules # tr) \<longleftrightarrow>
     (\<exists>urr \<in> set (rs_urrs rules). urr_key urr = k \<and> urr_generation urr = g) \<and> keeps_urr k g tr"
  by (auto simp: keeps_urr_def)

section \<open>Generations\<close>

lemma with_generations [frame_simps]:
  "rt_urrGenerations (pp_runtime (with_usage w u p)) = rt_urrGenerations (pp_runtime p)"
  "rt_urrGenerations (pp_runtime (with_bucket w e p)) = rt_urrGenerations (pp_runtime p)"
  by (simp_all add: with_usage_def with_bucket_def Let_def split: option.split)

lemma process_generations:
  assumes "pipeline_inv p" "process pl ind packet runId scenarioId p = Some (d, q)"
  shows "rt_urrGenerations (pp_runtime q) = rt_urrGenerations (pp_runtime p)"
  by (cases rule: process_effects [OF assms, consumes 0, case_names idle limited passed])
    (simp_all add: frame_simps)

lemma install_keeps_counter:
  assumes "pipeline_inv p" "install rules p = (success (), q)"
    and "urr \<in> set (rs_urrs rules)" "rt_urrGenerations (pp_runtime p) (urr_key urr) = Some (urr_generation urr)"
    and "rt_urrs (pp_runtime p) (urr_key urr) = Some s"
  shows "rt_urrs (pp_runtime q) (urr_key urr) = Some s"
    "rt_urrGenerations (pp_runtime q) (urr_key urr) = Some (urr_generation urr)"
proof -
  have "runtime_consistent (pp_runtime p)"
    using assms(1) by (simp add: pipeline_inv_def pipeline_ruled_def)
  from install_effect_cases [OF this, of rules] assms(2)
  have valid: "ruleset_valid rules" and moved: "migrated rules (pp_runtime p) (pp_runtime q)"
    by (auto split: if_splits)
  show "rt_urrs (pp_runtime q) (urr_key urr) = Some s"
    using moved assms(3-5) by (simp add: migrated_def carried_def)
  have "distinct (map urr_key (rs_urrs rules))"
    using valid same_key(2) [OF valid] by (simp add: ruleset_valid_def uniqueIds_iff distinct_map inj_on_def)
  then show "rt_urrGenerations (pp_runtime q) (urr_key urr) = Some (urr_generation urr)"
    using moved assms(3) by (auto simp: migrated_def runtime_for_def o_def intro!: map_of_is_SomeI)
qed

section \<open>The rate across updates\<close>

definition keeps_qer :: "Qer \<Rightarrow> session_event list \<Rightarrow> bool" where
  "keeps_qer qer tr \<longleftrightarrow> (\<forall>rules. Installed rules \<in> set tr \<longrightarrow> qer \<in> set (rs_qers rules))"

lemma keeps_qer_simps [simp]:
  "keeps_qer qer (Decided packet d # tr) \<longleftrightarrow> keeps_qer qer tr"
  "keeps_qer qer (Refused rules # tr) \<longleftrightarrow> keeps_qer qer tr"
  "keeps_qer qer (Installed rules # tr) \<longleftrightarrow> qer \<in> set (rs_qers rules) \<and> keeps_qer qer tr"
  by (auto simp: keeps_qer_def)

lemma install_keeps_bucket:
  assumes "pipeline_inv p" "install new p = (success (), q)"
    and "pp_rules p = Some rules" "qer \<in> set (rs_qers rules)" "qer \<in> set (rs_qers new)"
    and "rt_qers (pp_runtime p) (qer_key qer) = Some s"
  shows "rt_qers (pp_runtime q) (qer_key qer) = Some s" "pp_rules q = Some new"
proof -
  have ruled: "runtime_consistent (pp_runtime p)" "ruleset_valid rules" "runtime_for rules (pp_runtime p)"
    using assms(1,3) by (auto simp: pipeline_inv_def pipeline_ruled_def)
  from install_effect_cases [OF ruled(1), of new] assms(2)
  have moved: "migrated new (pp_runtime p) (pp_runtime q)" and "pp_rules q = Some new"
    by (auto split: if_splits)
  have "distinct (map qer_key (rs_qers rules))"
    using ruled(2) same_key(1) [OF ruled(2)] by (simp add: ruleset_valid_def uniqueIds_iff distinct_map inj_on_def)
  then have "rt_qerGenerations (pp_runtime p) (qer_key qer) = Some (qer_generation qer)"
    using ruled(3) assms(4) by (auto simp: runtime_for_def o_def intro!: map_of_is_SomeI)
  then show "rt_qers (pp_runtime q) (qer_key qer) = Some s"
    using moved assms(5,6) by (simp add: migrated_def carried_def)
  show "pp_rules q = Some new" by fact
qed

lemma session_potential:
  assumes "pipeline_session pl ind p tr q" "pipeline_inv p" "pp_rules p = Some rules" "qer \<in> set (rs_qers rules)"
    "rt_qers (pp_runtime p) (qer_key qer) = Some s" "keeps_qer qer tr"
  shows "\<exists>t. rt_qers (pp_runtime q) (qer_key qer) = Some t \<and> b_last (abs_bucket s) \<le> b_last (abs_bucket t) \<and>
    8000000 * payload (packets_with (charged_to (qer_key qer)) (decided_in tr)) + potential (abs_bucket t) \<le>
      potential (abs_bucket s) + (b_last (abs_bucket t) - b_last (abs_bucket s)) * unat (qer_rateBitsPerSecond qer)"
  using assms
proof (induction arbitrary: s rules rule: pipeline_session.induct)
  case (nil p)
  then show ?case by simp
next
  case (decided packet runId scenarioId p d p' tr q)
  let ?k = "qer_key qer" and ?r = "unat (qer_rateBitsPerSecond qer)"
  note run = decided.prems(1) decided.hyps(1)
  obtain s' where s': "rt_qers (pp_runtime p') ?k = Some s'" "b_last (abs_bucket s) \<le> b_last (abs_bucket s')"
    "8000000 * (if charged_to ?k d then unat (pkt_payloadBytes packet) else 0) + potential (abs_bucket s') \<le>
      potential (abs_bucket s) + (b_last (abs_bucket s') - b_last (abs_bucket s)) * ?r"
    by (rule potential_step [OF run decided.prems(2-4)])
  have p': "pipeline_inv p'" "pp_rules p' = Some rules" "keeps_qer qer tr"
    using process_inv [OF run] process_rules [OF run] decided.prems by simp_all
  from decided.IH [OF p'(1,2) decided.prems(3) s'(1) p'(3)] obtain t where t:
    "rt_qers (pp_runtime q) ?k = Some t" "b_last (abs_bucket s') \<le> b_last (abs_bucket t)"
    "8000000 * payload (packets_with (charged_to ?k) (decided_in tr)) + potential (abs_bucket t) \<le>
      potential (abs_bucket s') + (b_last (abs_bucket t) - b_last (abs_bucket s')) * ?r" by blast
  have "(b_last (abs_bucket s') - b_last (abs_bucket s)) * ?r + (b_last (abs_bucket t) - b_last (abs_bucket s')) * ?r =
      (b_last (abs_bucket t) - b_last (abs_bucket s)) * ?r"
    using s'(2) t(2) by (simp flip: distrib_right)
  then show ?case using s'(2,3) t by (intro exI [of _ t]) (auto split: if_splits)
next
  case (installed new p p' tr q)
  have inv: "pipeline_inv p'" using install_inv [OF installed.prems(1), of new] installed.hyps(1) by simp
  have mem: "qer \<in> set (rs_qers new)" "keeps_qer qer tr" using installed.prems(5) by simp_all
  note kept = install_keeps_bucket [OF installed.prems(1) installed.hyps(1) installed.prems(2,3) mem(1) installed.prems(4)]
  from installed.IH [OF inv kept(2) mem(1) kept(1) mem(2)] show ?case by simp
next
  case (refused new p e p' tr q)
  have "p' = p" using refused.hyps(1) by (auto simp: install_def Let_def split: sum.splits)
  then show ?case using refused by simp
qed

text \<open>
  C8. The rate on the wire. Over any sequence of packets and of accepted or refused rule sets, as
  long as every accepted one keeps a QER as it is, the payload of the packets that passed under the
  QER is at most the tokens its bucket held plus the configured rate times the simulated time the
  bucket has seen (8000000 bit-microseconds are one byte): no update and no other rejection of the
  pipeline hands out a second burst.
\<close>

lemma pipeline_rate_bound:
  assumes "pipeline_reach pl ind p" "pipeline_session pl ind p tr q"
    and "pp_rules p = Some rules" "qer \<in> set (rs_qers rules)" "keeps_qer qer tr"
    and "rt_qers (pp_runtime p) (qer_key qer) = Some s" "rt_qers (pp_runtime q) (qer_key qer) = Some t"
  shows "8000000 * payload (packets_with (charged_to (qer_key qer)) (decided_in tr)) \<le> potential (abs_bucket s) +
    (b_last (abs_bucket t) - b_last (abs_bucket s)) * unat (qer_rateBitsPerSecond qer)"
  using session_potential [OF assms(2) reach_inv [OF assms(1)] assms(3,4,6,5)] assms(7) by auto

section \<open>Counting across updates\<close>

definition reports_on :: "u32 \<Rightarrow> (Packet \<times> PacketDecision) list \<Rightarrow> nat" where
  "reports_on k tr = length (packets_with (\<lambda>d. counted_on k d \<and> issued d \<noteq> []) tr)"

definition counter_runs ::
  "u32 \<Rightarrow> (Packet \<times> PacketDecision) list \<Rightarrow> UsageCounterState \<Rightarrow> UsageCounterState \<Rightarrow> bool"
where
  "counter_runs k tr s t \<longleftrightarrow>
     unat (uc_packets t) = unat (uc_packets s) + length (packets_with (counted_on k) tr) \<and>
     unat (uc_payloadBytes t) = unat (uc_payloadBytes s) + payload (packets_with (counted_on k) tr) \<and>
     (uc_reportEmitted s \<longrightarrow> uc_reportEmitted t) \<and>
     reports_on k tr = (if uc_reportEmitted t \<and> \<not> uc_reportEmitted s then 1 else 0)"

lemma counter_runs_refl: "counter_runs k [] s s"
  by (simp add: counter_runs_def reports_on_def)

lemma session_counts:
  assumes "pipeline_session pl ind p tr q" "pipeline_inv p"
    and "rt_urrGenerations (pp_runtime p) k = Some g" "rt_urrs (pp_runtime p) k = Some s" "keeps_urr k g tr"
  shows "\<exists>t. rt_urrs (pp_runtime q) k = Some t \<and> counter_runs k (decided_in tr) s t"
  using assms
proof (induction arbitrary: s rule: pipeline_session.induct)
  case (nil p)
  then show ?case using counter_runs_refl by auto
next
  case (decided packet runId scenarioId p d p' tr q)
  note run = decided.prems(1) decided.hyps(1)
  obtain s' where s': "rt_urrs (pp_runtime p') k = Some s'"
    "unat (uc_packets s') = unat (uc_packets s) + (if counted_on k d then 1 else 0)"
    "unat (uc_payloadBytes s') =
      unat (uc_payloadBytes s) + (if counted_on k d then unat (pkt_payloadBytes packet) else 0)"
    "uc_reportEmitted s \<longrightarrow> uc_reportEmitted s'"
    "counted_on k d \<and> issued d \<noteq> [] \<longleftrightarrow> uc_reportEmitted s' \<and> \<not> uc_reportEmitted s"
    by (rule counter_step [OF run decided.prems(3)])
  obtain t where t: "rt_urrs (pp_runtime q) k = Some t" "counter_runs k (decided_in tr) s' t"
    using decided.IH [OF process_inv [OF run] _ s'(1)] decided.prems process_generations [OF run] by auto
  have "counter_runs k (decided_in (Decided packet d # tr)) s t"
    using t(2) s'(2-5) by (auto simp: counter_runs_def reports_on_def)
  with t(1) show ?case by blast
next
  case (installed rules p p' tr q)
  obtain urr where urr: "urr \<in> set (rs_urrs rules)" "urr_key urr = k" "urr_generation urr = g"
    using installed.prems(4) by auto
  have "pipeline_inv p'" using install_inv [OF installed.prems(1), of rules] installed.hyps(1) by simp
  then show ?case
    using installed.IH install_keeps_counter [OF installed.prems(1) installed.hyps(1) urr(1)] installed.prems urr
    by simp
next
  case (refused rules p e p' tr q)
  have "p' = p" using refused.hyps(1) by (auto simp: install_def Let_def split: sum.splits)
  then show ?case using refused by simp
qed

text \<open>
  C9. Usage survives rule updates. Over any sequence of packets and of accepted or refused rule
  sets, as long as every accepted rule set keeps a URR at its generation, the counter of the URR
  grows by exactly the number and the payload of the packets that were forwarded or dropped by a
  FAR under it (nothing lost, counted twice or wrapped), and it issues a report exactly once when
  its report flag rises, otherwise never.
\<close>

lemma usage_conserved:
  assumes "pipeline_reach pl ind p" "pipeline_session pl ind p tr q"
    and "rt_urrGenerations (pp_runtime p) k = Some g" "rt_urrs (pp_runtime p) k = Some s" "keeps_urr k g tr"
  shows "\<exists>t. rt_urrs (pp_runtime q) k = Some t \<and>
    unat (uc_packets t) = unat (uc_packets s) + length (packets_with (counted_on k) (decided_in tr)) \<and>
    unat (uc_payloadBytes t) = unat (uc_payloadBytes s) + payload (packets_with (counted_on k) (decided_in tr)) \<and>
    reports_on k (decided_in tr) = (if uc_reportEmitted t \<and> \<not> uc_reportEmitted s then 1 else 0)"
  using session_counts [OF assms(2) reach_inv [OF assms(1)] assms(3-5)] unfolding counter_runs_def by blast

section \<open>Concrete instances\<close>

text \<open>
  A packet that reaches the threshold, an update to version 4, a refused rule set, and a second
  packet that is counted on without a second report.
\<close>

definition ul_update :: PacketPipeline where
  "ul_update = snd (install (ul_rules\<lparr>rs_version := 4\<rparr>) (snd ul_first))"

definition ul_third :: "PacketDecision \<times> PacketPipeline" where
  "ul_third = the (process dotted_platform zero_memory ul_later [] [] ul_update)"

definition ul_session :: "session_event list" where
  "ul_session = [Decided ul_volume (fst ul_first), Installed (ul_rules\<lparr>rs_version := 4\<rparr>),
     Refused (ul_rules\<lparr>rs_version := 0\<rparr>), Decided ul_later (fst ul_third)]"

lemmas ul_session_defs = ul_session_def ul_third_def ul_update_def ul_trace_defs

lemma ul_update_installed:
  "install (ul_rules\<lparr>rs_version := 4\<rparr>) (snd ul_first) = (success (), ul_update)"
  "\<exists>e. install (ul_rules\<lparr>rs_version := 0\<rparr>) ul_update = (failure e, ul_update)"
  by (simp_all add: ul_session_defs model_defs)

lemma ul_third_process:
  "process dotted_platform zero_memory ul_later [] [] ul_update = Some (fst ul_third, snd ul_third)"
  by (simp add: ul_session_defs model_defs)

lemma ul_session_steps: "pipeline_session dotted_platform zero_memory ul_start ul_session (snd ul_third)"
proof -
  obtain e where refused: "install (ul_rules\<lparr>rs_version := 0\<rparr>) ul_update = (failure e, ul_update)"
    using ul_update_installed(2) by blast
  show ?thesis
    unfolding ul_session_def
    by (rule pipeline_session.decided [OF ul_trace_process(1)
          pipeline_session.installed [OF ul_update_installed(1) pipeline_session.refused [OF refused
          pipeline_session.decided [OF ul_third_process pipeline_session.nil]]]])
qed

lemma ul_session_start:
  "rt_qers (pp_runtime ul_start) (qer_key ul_qer) =
     Some \<lparr>tb_tokensBytes = 20000, tb_lastRefillMicros = 0, tb_remainderBitMicros = 0\<rparr>"
  "rt_urrs (pp_runtime ul_start) (urr_key ul_urr) = Some UsageCounterState_new"
  "rt_urrGenerations (pp_runtime ul_start) (urr_key ul_urr) = Some 1"
  "pp_rules ul_start = Some ul_rules"
  by (simp_all add: ul_start_def model_defs)

lemma ul_session_kept: "keeps_qer ul_qer ul_session" "keeps_urr (urr_key ul_urr) 1 ul_session"
  by (simp_all add: keeps_qer_def keeps_urr_def ul_session_def ul_rules_def ul_urr_def)

lemma ul_session_end:
  "\<exists>t. rt_qers (pp_runtime (snd ul_third)) (qer_key ul_qer) = Some t \<and> b_last (abs_bucket t) = 10000"
  "length (packets_with (counted_on (urr_key ul_urr)) (decided_in ul_session)) = 2"
  "payload (packets_with (counted_on (urr_key ul_urr)) (decided_in ul_session)) = 24000"
  by (simp_all add: ul_session_defs counted_on_def committed_def abs_bucket_def model_defs)

lemma pipeline_rate_bound_witness:
  "8000000 * payload (packets_with (charged_to (qer_key ul_qer)) (decided_in ul_session)) \<le>
     8000000 * 20000 + 10000 * 10000000"
proof -
  obtain t where t: "rt_qers (pp_runtime (snd ul_third)) (qer_key ul_qer) = Some t" "b_last (abs_bucket t) = 10000"
    using ul_session_end(1) by blast
  have qer: "ul_qer \<in> set (rs_qers ul_rules)" by (simp add: ul_rules_def)
  from pipeline_rate_bound [OF ul_start_reach ul_session_steps ul_session_start(4) qer ul_session_kept(1)
      ul_session_start(1) t(1)] t(2)
  show ?thesis by (simp add: potential_def abs_bucket_def ul_qer_def)
qed

lemma usage_conserved_witness:
  "\<exists>t. rt_urrs (pp_runtime (snd ul_third)) (urr_key ul_urr) = Some t \<and>
     unat (uc_packets t) = 2 \<and> unat (uc_payloadBytes t) = 24000 \<and>
     reports_on (urr_key ul_urr) (decided_in ul_session) = (if uc_reportEmitted t then 1 else 0)"
proof -
  have new: "unat (uc_packets UsageCounterState_new) + 2 = 2" "unat (uc_payloadBytes UsageCounterState_new) = 0"
    "\<not> uc_reportEmitted UsageCounterState_new"
    by (simp_all add: UsageCounterState_new_def)
  show ?thesis
    using usage_conserved [OF ul_start_reach ul_session_steps ul_session_start(3,2) ul_session_kept(2)]
    unfolding ul_session_end(2,3) new(1,2) using new(3) by auto
qed

text \<open>
  A generation that comes back starts over: installing generation 2 and then generation 1 again
  resets the counter, and the same report identifier is issued a second time.
\<close>

definition ul_regenerated :: PacketPipeline where
  "ul_regenerated = snd (install ul_rules
     (snd (install (ul_rules\<lparr>rs_urrs := [ul_urr\<lparr>urr_generation := 2\<rparr>]\<rparr>) (snd ul_second))))"

lemma generation_reused_reports_twice:
  "map_option (\<lambda>(d, q). pp_reports q)
     (process dotted_platform zero_memory (ul_later\<lparr>pkt_arrivalTimeMicros := 20000\<rparr>) [] [] ul_regenerated) =
   Some [report_id ''session-1'' 40 1 3, report_id ''session-1'' 40 1 3]"
  by (simp add: ul_regenerated_def ul_trace_defs report_id_def model_defs)

end
