(* ===== verification/Value_Types.thy ===== *)
theory Value_Types
  imports Core_Types
begin

text \<open>
  The class templates \<open>Optional<T>\<close>, \<open>Result<T>\<close> and \<open>Result<void>\<close> of
  \<open>include/upf/domain/types.hpp\<close>, member by member: a present flag beside a value that is \<open>T()\<close>
  when absent, a success flag beside a value and a message. The other theories use \<open>option\<close> and
  sums for them; here both classes are shown to implement these types, operation by operation, so
  nothing of their representation can be observed.
\<close>

section \<open>The classes\<close>

record 'a Optional =
  o_present :: bool
  o_value :: 'a

text \<open>\<open>T()\<close> is the argument \<open>initial\<close>; a failed access throws.\<close>

definition Optional_new :: "'a \<Rightarrow> 'a Optional" where
  "Optional_new initial = \<lparr>o_present = False, o_value = initial\<rparr>"

definition Optional_of :: "'a \<Rightarrow> 'a Optional" where
  "Optional_of x = \<lparr>o_present = True, o_value = x\<rparr>"

definition hasValue :: "'a Optional \<Rightarrow> bool" where
  "hasValue x = o_present x"

definition Optional_value :: "'a Optional \<Rightarrow> 'a outcome" where
  "Optional_value x = (if \<not> o_present x then Throws ''optional has no value'' else Returns (o_value x))"

text \<open>A write through the reference that the other \<open>value()\<close> returns.\<close>

definition Optional_modify :: "('a \<Rightarrow> 'a) \<Rightarrow> 'a Optional \<Rightarrow> 'a Optional outcome" where
  "Optional_modify f x =
     (if \<not> o_present x then Throws ''optional has no value'' else Returns (x\<lparr>o_value := f (o_value x)\<rparr>))"

definition Optional_reset :: "'a \<Rightarrow> 'a Optional \<Rightarrow> 'a Optional" where
  "Optional_reset initial x = x\<lparr>o_present := False, o_value := initial\<rparr>"

definition Optional_eq :: "('a \<Rightarrow> 'a \<Rightarrow> bool) \<Rightarrow> 'a Optional \<Rightarrow> 'a Optional \<Rightarrow> bool" where
  "Optional_eq eq x y \<longleftrightarrow> o_present x = o_present y \<and> (\<not> o_present x \<or> eq (o_value x) (o_value y))"

record 'a Result =
  r_ok :: bool
  r_value :: 'a
  r_error :: string

definition Result_success :: "'a \<Rightarrow> 'a Result" where
  "Result_success x = \<lparr>r_ok = True, r_value = x, r_error = ''''\<rparr>"

definition Result_failure :: "'a \<Rightarrow> string \<Rightarrow> 'a Result" where
  "Result_failure initial error = \<lparr>r_ok = False, r_value = initial, r_error = error\<rparr>"

definition Result_value :: "'a Result \<Rightarrow> 'a outcome" where
  "Result_value x = (if \<not> r_ok x then Throws (r_error x) else Returns (r_value x))"

definition Result_modify :: "('a \<Rightarrow> 'a) \<Rightarrow> 'a Result \<Rightarrow> 'a Result outcome" where
  "Result_modify f x = (if \<not> r_ok x then Throws (r_error x) else Returns (x\<lparr>r_value := f (r_value x)\<rparr>))"

text \<open>\<open>Result<void>\<close> has no value.\<close>

record Result_void =
  rv_ok :: bool
  rv_error :: string

definition Result_void_success :: Result_void where
  "Result_void_success = \<lparr>rv_ok = True, rv_error = ''''\<rparr>"

definition Result_void_failure :: "string \<Rightarrow> Result_void" where
  "Result_void_failure error = \<lparr>rv_ok = False, rv_error = error\<rparr>"

section \<open>What they stand for\<close>

definition optional_view :: "'a Optional \<Rightarrow> 'a option" where
  "optional_view x = (if o_present x then Some (o_value x) else None)"

definition result_view :: "'a Result \<Rightarrow> 'a result_of" where
  "result_view x = (if r_ok x then success (r_value x) else failure (r_error x))"

definition result_void_view :: "Result_void \<Rightarrow> unit result_of" where
  "result_void_view x = (if rv_ok x then success () else failure (rv_error x))"

fun map_outcome :: "('a \<Rightarrow> 'b) \<Rightarrow> 'a outcome \<Rightarrow> 'b outcome" where
  "map_outcome f (Returns x) = Returns (f x)"
| "map_outcome f (Throws e) = Throws e"
| "map_outcome f Undefined_Behaviour = Undefined_Behaviour"
| "map_outcome f Runs_Forever = Runs_Forever"

lemma optional_views:
  "optional_view (Optional_new initial) = None"
  "optional_view (Optional_of x) = Some x"
  "optional_view (Optional_reset initial o1) = None"
  "hasValue o1 \<longleftrightarrow> optional_view o1 \<noteq> None"
  "Optional_value o1 = (case optional_view o1 of None \<Rightarrow> Throws ''optional has no value'' | Some x \<Rightarrow> Returns x)"
  "map_outcome optional_view (Optional_modify f o1) =
     (case optional_view o1 of None \<Rightarrow> Throws ''optional has no value'' | Some x \<Rightarrow> Returns (Some (f x)))"
  "Optional_eq (=) o1 o2 \<longleftrightarrow> optional_view o1 = optional_view o2"
  by (auto simp: optional_view_def Optional_new_def Optional_of_def Optional_reset_def hasValue_def
      Optional_value_def Optional_modify_def Optional_eq_def)

lemma result_views:
  "result_view (Result_success x) = success x"
  "result_view (Result_failure initial e) = failure e"
  "r_ok r1 \<longleftrightarrow> ok (result_view r1)"
  "Result_value r1 = value_of (result_view r1)"
  "map_outcome result_view (Result_modify f r1) = and_then (value_of (result_view r1)) (\<lambda>x. Returns (success (f x)))"
  "\<not> r_ok r1 \<Longrightarrow> result_view r1 = failure (r_error r1)"
  "result_void_view Result_void_success = success ()"
  "result_void_view (Result_void_failure e) = failure e"
  "rv_ok v1 \<longleftrightarrow> ok (result_void_view v1)"
  "\<not> rv_ok v1 \<Longrightarrow> result_void_view v1 = failure (rv_error v1)"
  by (auto simp: result_view_def Result_success_def Result_failure_def Result_value_def Result_modify_def
      result_void_view_def Result_void_success_def Result_void_failure_def value_of_def)

end
