(* ===== verification/Spec2Isabelle.thy ===== *)
theory Spec2Isabelle
  imports Command_Line Scheduling Port_Sinks Pipeline_Sessions Value_Types
begin

text \<open>
  A verification development for the UPF rule pipeline demo.

  \<^bold>\<open>The program.\<close> A C++11 simulation of the user plane of a mobile network. A rule set (PDRs that
  match packets, FARs that forward or drop them, QERs that police their rate, URRs that count them)
  is validated and installed; packets then run through one pipeline, each ending in one decision that
  explains every step, and forwarded packets reach the N3 or the N6 sink. Beside it stand the control
  plane (a rule service that keeps the intended and the active rules, and a controller that applies
  them to a data plane with retries), a round-robin scheduler, and the shell of the program:
  built-in scenarios, JSON files, two output formats and a command line.

  \<^bold>\<open>Theories, in the order of the dependencies.\<close> Paths are under \<open>src/\<close>.

  \<^item> \<open>Prelude\<close>: fixed-width words, C strings and decimal numerals, \<open>std::map::operator[]\<close>, and the
    collections \<open>model_defs\<close> (evaluation), \<open>frame_simps\<close>, \<open>word_nat\<close>.
  \<^item> \<open>Core_Types\<close> (\<open>domain/types.hpp\<close>), \<open>Addresses\<close> (\<open>domain/address\<close>), \<open>Rule_Model\<close>
    (\<open>packet.hpp\<close>, \<open>rules.hpp\<close>), \<open>Validation\<close>, \<open>Decisions\<close>, \<open>Matching\<close> (\<open>matcher.cpp\<close> and the
    selection loop of \<open>process\<close>), \<open>Runtime_State\<close>, \<open>Qer_Engine\<close>, \<open>Far_Engine\<close>, \<open>Urr_Engine\<close>: the
    domain. Structs are records with the fields in the order of the source, enumerations datatypes,
    integers words of their width, \<open>Optional\<close> is \<open>option\<close>, \<open>Result\<close> a sum, member functions take
    the object and return it updated. \<open>Value_Types\<close> has the two class templates member by member
    and shows that they implement \<open>option\<close> and the sum.
  \<^item> \<open>Fixtures\<close>: the rule sets and packets of \<open>scenario_runner.cpp\<close>, also the data of the witnesses.
  \<^item> \<open>Pipeline\<close> (\<open>packet_pipeline.cpp\<close>): \<open>install\<close> and \<open>process\<close> with every early return and every
    dereference of a looked-up rule. \<open>Pipeline_Outcomes\<close> states the contract of \<open>process\<close> as the step
    relation \<open>packet_outcome\<close>; \<open>Pipeline_Safety\<close> draws the consequences for all reachable pipelines.
    \<open>Pipeline_History\<close> says what a decision tells about the state and follows sequences of packets,
    \<open>Pipeline_Sessions\<close> sequences of packets and rule updates.
  \<^item> \<open>Migration\<close>: the contract of the loops that carry runtime state to a new rule set, as the
    locales \<open>generation_migration\<close> and \<open>runtime_migration\<close>, and of what stores a rule set
    (\<open>ruleset_store\<close>). \<open>Pipeline_Install\<close> and \<open>Rule_Service\<close> interpret them, so the pipeline and the
    service are compared through one contract.
  \<^item> \<open>Rule_Service\<close>, \<open>Dataplane\<close> (the port as the locale \<open>dataplane_adapter\<close>) and \<open>Reconciliation\<close>:
    the control plane. The retry loop is a \<open>partial_function\<close>, \<open>None\<close> is a loop that does not end.
  \<^item> \<open>Bounded_Buffers\<close>: the contract of every bounded store, interpreted by the sinks of
    \<open>Port_Sinks\<close> and the queues of \<open>Scheduling\<close>.
  \<^item> \<open>Scenarios\<close> (\<open>ScenarioRunner\<close>), \<open>Human_Output\<close>, \<open>Json_Output\<close>, \<open>Json_Input\<close> and
    \<open>Command_Line\<close> (\<open>main.cpp\<close>): the shell. A call there ends in an \<open>outcome\<close>: a value, an uncaught
    exception, undefined behaviour, or no end.

  \<^bold>\<open>What is shown.\<close>

  \<^item> \<^emph>\<open>Packets\<close> (C1 to C6): on every pipeline built by the constructor, \<open>install\<close> and \<open>process\<close>,
    processing never hits a null pointer and takes one abstract step; rejected packets leave buckets,
    counters and reports alone; deliveries go to one sink, transformed as the FAR says; usage is counted
    exactly; stores keep their limits; the decisions explain sinks and events.
  \<^item> \<^emph>\<open>Sequences\<close> (C7 to C10): a decision states the change of the bucket, the counter and the report
    store and nothing else changes; over packets and rule updates in any order the payload that passes
    a QER stays below burst and rate, counters equal the packets they counted, and as long as a
    generation is kept it is reported at most once.
  \<^item> \<^emph>\<open>Rules\<close> (C11 to C14): validation accepts exactly the complete and unambiguous rule sets, the
    selection loop computes its reference, so the winner is the unique best PDR, whatever the order.
  \<^item> \<^emph>\<open>Engines\<close> (C15 to C17): the token bucket in 64 bits computes the bucket over the naturals and
    loses no fraction of a token. The rate bound of one bucket and the exactness of one counter are
    lemmas of \<open>Qer_Engine\<close> and \<open>Urr_Engine\<close>.
  \<^item> \<^emph>\<open>Installation and addresses\<close> (C18 to C20): what is carried over; prefixes round trip.
  \<^item> \<^emph>\<open>Control plane\<close> (C21 to C30): the service and the pipeline agree, an update needs a newer
    version than the active one, convergence means applied, reconciliation terminates and converges.
  \<^item> \<^emph>\<open>Scheduler\<close> (C31 to C33): bounds, fairness under any interleaving, complete shutdown.
  \<^item> \<^emph>\<open>Shell\<close> (C34 to C40): the ten scenarios, the printed document, well-formed input, reading
    back what was written, file runs and exit codes.

  Some properties state behaviour the authors cannot have meant: a prefix without a length is
  accepted (C20), a bucket whose elapsed time overflows never recovers (C17), a removed rule set
  counts as converged when it comes back (C25), a maximum of UINT32_MAX attempts never ends (C29), the
  document lists reports that were never generated (C36), a packet file can end the program with an
  uncaught exception (C39). Four more are lemmas: \<open>classified_time_uninitialised\<close> (the queue-full
  and shutdown scenarios print an uninitialised time), \<open>protocol_unknown\<close> (an unknown protocol name
  in a rule matches every protocol), \<open>generation_reused_reports_twice\<close> (a generation that comes back
  issues its report identifier again) and \<open>zero_burst_empty_payload\<close> (a QER without burst lets
  empty packets pass).

  \<^bold>\<open>Termination and bounds.\<close> No definition uses fuel: the loops run over lists, and
  \<open>reconcile_loop\<close> is a partial function whose termination is C26. The results of \<open>process\<close> are
  bounded by \<open>limits.results\<close>, a \<open>size_t\<close>; therefore the drop counter cannot saturate and the claims
  about it need no assumption.

  \<^bold>\<open>Parameters.\<close> Code outside the repository is an argument: \<open>platform\<close> (\<open>inet_pton\<close> and
  \<open>inet_ntop\<close>; the one assumption is the documented size of an address), \<open>json_library\<close> (the accessors
  of \<open>nlohmann::json\<close>; \<open>json_laws\<close> is their documented behaviour on values that were built from a
  document), \<open>dump\<close> (its serialisation), the content of the files, the data plane behind the adapter
  port, and \<open>indeterminate\<close>, the values of members the constructors leave uninitialised. The standard
  library is written out where it is used (\<open>strtol\<close>, \<open>std::map::operator[]\<close>, \<open>std::sort\<close> on distinct
  keys, \<open>std::string\<close>).

  \<^bold>\<open>Not modelled.\<close> The tests, the build files and the JSON schemas, which no code reads; failures of
  memory allocation; exceptions the serialiser throws on text that is not UTF-8, which the scenarios
  and the JSON parser cannot produce; the mutable references the classes hand out to their runtime
  state, which the program does not use; the order in which the arguments of one constructor call are
  evaluated, where the model takes the first member first.
\<close>

end
